(* ===== verification/CBase.thy ===== *)
theory CBase
  imports Main "HOL-Library.Word" "HOL-Library.Monad_Syntax"
begin

unbundle bit_operations_syntax

text \<open>
  The prelude of the development: the machine integers of the C code, little-endian byte
  sequences, the part of the C string library the server uses, and the generic lemmas on
  lists, options and words that the component theories share.

  Conventions used by every theory:
  \<^item> a function of the code that can run into undefined behaviour (a read or a write outside
    an object, a null or wild pointer) returns an \<open>option\<close>; \<open>None\<close> is the undefined
    behaviour, and \<open>do\<close>-notation sequences such functions with the state passed explicitly;
  \<^item> an error code of the C code is an ordinary value;
  \<^item> a \<open>char\<close> buffer is a list of bytes as long as the buffer, and a pointer into it is what
    is left of that list from the pointer on, so a read past the end of the list is a read
    outside the object.
\<close>

section \<open>Machine integers\<close>

type_synonym u8 = "8 word"
type_synonym u16 = "16 word"
type_synonym u32 = "32 word"
type_synonym u64 = "64 word"
type_synonym size_t = "64 word"


lemma of_nat_mod_down:
  assumes "LENGTH('b) \<le> LENGTH('a::len)"
  shows "(of_nat (n mod 2 ^ LENGTH('a)) :: 'b::len word) = of_nat n"
  using assms
  by (simp add: word_of_nat_eq_iff min_absorb1 flip: take_bit_eq_mod)

lemma ucast_add_down:
  assumes "LENGTH('b) \<le> LENGTH('a)"
  shows "(ucast (a + b :: 'a::len word) :: 'b::len word) = ucast a + ucast b"
proof -
  have "(ucast (a + b) :: 'b word) = of_nat (unat (a + b))"
    by simp
  also have "\<dots> = of_nat ((unat a + unat b) mod 2 ^ LENGTH('a))"
    by (simp only: unat_word_ariths)
  also have "\<dots> = of_nat (unat a + unat b)"
    using assms by (rule of_nat_mod_down)
  finally show ?thesis by simp
qed
lemma ucast_of_nat_down:
  assumes "LENGTH('b) \<le> LENGTH('a)"
  shows "(ucast (of_nat n :: 'a::len word) :: 'b::len word) = of_nat n"
proof -
  have "(ucast (of_nat n :: 'a word) :: 'b word) = of_nat (unat (of_nat n :: 'a word))"
    by (simp only: of_nat_unat)
  also have "\<dots> = of_nat (n mod 2 ^ LENGTH('a))"
    by (simp only: unat_of_nat)
  also have "\<dots> = of_nat n"
    using assms by (rule of_nat_mod_down)
  finally show ?thesis .
qed

lemma ucast_down_up: "LENGTH('a) \<le> LENGTH('b) \<Longrightarrow> ucast (ucast (w :: 'a::len word) :: 'b::len word) = w"
  by (rule bit_word_eqI) (simp add: bit_ucast_iff)

lemma unat_add_below: "unat a + unat b < 2 ^ LENGTH('a::len) \<Longrightarrow> unat (a + b :: 'a word) = unat a + unat b"
  by (simp add: unat_word_ariths)

lemma unat_diff_le: "b \<le> a \<Longrightarrow> unat (a - b) = unat a - unat (b :: 'a::len word)"
  by (simp add: unat_sub)

lemma unat_of_nat_small: "n < 2 ^ LENGTH('a::len) \<Longrightarrow> unat (of_nat n :: 'a word) = n"
  by (simp add: unat_of_nat)

lemma unat_ucast_up:
  assumes "LENGTH('a) \<le> LENGTH('b)"
  shows "unat (ucast (w :: 'a::len word) :: 'b::len word) = unat w"
proof -
  have "unat w < 2 ^ LENGTH('a)" by (rule unsigned_less)
  also have "\<dots> \<le> 2 ^ LENGTH('b)" using assms by simp
  finally show ?thesis by (simp add: unsigned_ucast_eq take_bit_nat_eq_self)
qed

section \<open>Little-endian byte sequences\<close>

text \<open>
  The code overlays integers on byte buffers (packet headers, 64-bit MMIO transfers); the
  headers of the repository state that a little-endian system is assumed.
\<close>

fun le_bytes :: "nat \<Rightarrow> 'a::len word \<Rightarrow> u8 list" where
  "le_bytes 0 w = []"
| "le_bytes (Suc n) w = ucast w # le_bytes n (drop_bit 8 w)"

fun le_word :: "u8 list \<Rightarrow> 'a::len word" where
  "le_word [] = 0"
| "le_word (b # bs) = ucast b OR push_bit 8 (le_word bs)"

lemma length_le_bytes [simp]: "length (le_bytes n w) = n"
  by (induction n arbitrary: w) auto

lemma bit_le_word:
  "bit (le_word bs :: 'a::len word) i \<longleftrightarrow>
     i < LENGTH('a) \<and> i div 8 < length bs \<and> bit (bs ! (i div 8)) (i mod 8)"
proof (induction bs arbitrary: i)
  case Nil
  then show ?case by simp
next
  case (Cons b bs)
  show ?case
  proof (cases "i < 8")
    case True
    then show ?thesis
      by (auto simp: bit_or_iff bit_ucast_iff bit_push_bit_iff)
  next
    case False
    then have "i div 8 = Suc ((i - 8) div 8)" and "i mod 8 = (i - 8) mod 8"
      by (simp_all add: le_div_geq le_mod_geq)
    moreover have "\<not> bit b i"
      using False by (auto dest: bit_imp_le_length)
    ultimately show ?thesis
      using False Cons.IH [of "i - 8"]
      by (auto simp: bit_or_iff bit_ucast_iff bit_push_bit_iff)
  qed
qed

lemma nth_le_bytes: "k < n \<Longrightarrow> le_bytes n w ! k = ucast (drop_bit (8 * k) w)"
proof (induction n arbitrary: w k)
  case 0
  then show ?case by simp
next
  case (Suc n)
  then show ?case
    by (cases k) (auto simp: ac_simps)
qed

lemma le_word_le_bytes: "le_word (le_bytes n w) = take_bit (8 * n) (w :: 'a::len word)"
proof (rule bit_word_eqI)
  fix i
  assume i: "i < LENGTH('a)"
  have eq: "8 * (i div 8) + i mod 8 = i" by simp
  have "i div 8 < n \<longleftrightarrow> i < 8 * n" by auto
  with i eq show "bit (le_word (le_bytes n w) :: 'a word) i \<longleftrightarrow> bit (take_bit (8 * n) w) i"
    by (auto simp: bit_le_word nth_le_bytes bit_ucast_iff bit_drop_bit_eq bit_take_bit_iff)
qed

lemma le_bytes_le_word:
  assumes "length bs = n" and "8 * n \<le> LENGTH('a::len)"
  shows "le_bytes n (le_word bs :: 'a word) = bs"
proof (rule nth_equalityI)
  show "length (le_bytes n (le_word bs :: 'a word)) = length bs"
    using assms by simp
next
  fix k
  assume "k < length (le_bytes n (le_word bs :: 'a word))"
  then have k: "k < n" by simp
  show "le_bytes n (le_word bs :: 'a word) ! k = bs ! k"
  proof (rule bit_word_eqI)
    fix i
    assume i: "i < LENGTH(8)"
    have "(8 * k + i) div 8 = k" and "(8 * k + i) mod 8 = i" and "8 * k + i < LENGTH('a)"
      using i k assms by simp_all
    then show "bit (le_bytes n (le_word bs :: 'a word) ! k) i \<longleftrightarrow> bit (bs ! k) i"
      using i k assms
      by (simp add: nth_le_bytes bit_ucast_iff bit_drop_bit_eq bit_le_word)
  qed
qed

lemma le_word_le_bytes_u64 [simp]: "le_word (le_bytes 8 w) = (w :: u64)"
  by (simp add: le_word_le_bytes take_bit_word_eq_self)

lemma le_word_le_bytes_u32 [simp]: "le_word (le_bytes 4 w) = (w :: u32)"
  by (simp add: le_word_le_bytes take_bit_word_eq_self)

lemma le_word_le_bytes_u16 [simp]: "le_word (le_bytes 2 w) = (w :: u16)"
  by (simp add: le_word_le_bytes take_bit_word_eq_self)

lemma le_bytes_add: "le_bytes (k + n) w = le_bytes k w @ le_bytes n (drop_bit (8 * k) w)"
proof (induction k arbitrary: w)
  case 0
  then show ?case by simp
next
  case (Suc k)
  then show ?case by (simp add: add.commute)
qed

lemma le_bytes_ucast:
  assumes "8 * n \<le> LENGTH('b)"
  shows "le_bytes n (ucast (w :: 'a::len word) :: 'b::len word) = le_bytes n w"
proof (rule nth_equalityI)
  fix k
  assume "k < length (le_bytes n (ucast w :: 'b word))"
  then have k: "k < n" by simp
  show "le_bytes n (ucast w :: 'b word) ! k = le_bytes n w ! k"
    by (rule bit_word_eqI)
       (use k assms in \<open>auto simp: nth_le_bytes bit_ucast_iff bit_drop_bit_eq\<close>)
qed simp

section \<open>Writing into a buffer\<close>

text \<open>
  Storing a block of bytes at an offset of a buffer object; bytes past the end of the object
  are an out-of-bounds write.
\<close>

definition store_at :: "nat \<Rightarrow> u8 list \<Rightarrow> u8 list \<Rightarrow> u8 list option" where
  "store_at off bytes buf =
     (if off + length bytes \<le> length buf
      then Some (take off buf @ bytes @ drop (off + length bytes) buf) else None)"

definition store_prefix :: "u8 list \<Rightarrow> u8 list \<Rightarrow> u8 list option" where
  "store_prefix bytes buf = store_at 0 bytes buf"

lemma length_store_at: "store_at off bytes buf = Some buf' \<Longrightarrow> length buf' = length buf"
  by (auto simp: store_at_def split: if_splits)

lemma store_at_fits:
  "off + length bytes \<le> length buf \<Longrightarrow>
     store_at off bytes buf = Some (take off buf @ bytes @ drop (off + length bytes) buf)"
  by (simp add: store_at_def)

lemma length_store_prefix: "store_prefix bytes buf = Some buf' \<Longrightarrow> length buf' = length buf"
  by (auto simp: store_prefix_def dest: length_store_at)

lemma store_prefix_fits [simp]:
  "length bytes \<le> length buf \<Longrightarrow> store_prefix bytes buf = Some (bytes @ drop (length bytes) buf)"
  by (simp add: store_prefix_def store_at_def)

lemma store_prefix_None [simp]:
  "store_prefix bytes buf = None \<longleftrightarrow> length buf < length bytes"
  by (simp add: store_prefix_def store_at_def)

lemma take_store_prefix:
  "store_prefix bytes buf = Some buf' \<Longrightarrow> take (length bytes) buf' = bytes"
  by (auto simp: store_prefix_def store_at_def split: if_splits)

section \<open>C strings\<close>

text \<open>A string literal without its terminator, and the array the literal denotes.\<close>

definition str :: "string \<Rightarrow> u8 list" where
  "str s = map of_char s"

definition lit :: "string \<Rightarrow> u8 list" where
  "lit s = str s @ [0]"

lemma length_str [simp]: "length (str s) = length s"
  by (simp add: str_def)

lemma length_lit [simp]: "length (lit s) = Suc (length s)"
  by (simp add: lit_def)

text \<open>
  \<open>cstr\<close> reads the string a pointer points to, up to its terminator; there is none when the
  object ends first.
\<close>

fun cstr :: "u8 list \<Rightarrow> u8 list option" where
  "cstr [] = None"
| "cstr (b # bs) = (if b = 0 then Some [] else map_option (Cons b) (cstr bs))"

text \<open>\<open>strncmp(a, b, n) == 0\<close>, comparing no byte after a difference or a terminator.\<close>

fun strncmp_eq :: "u8 list \<Rightarrow> u8 list \<Rightarrow> nat \<Rightarrow> bool option" where
  "strncmp_eq as bs 0 = Some True"
| "strncmp_eq (a # as) (b # bs) (Suc n) =
     (if a \<noteq> b then Some False else if a = 0 then Some True else strncmp_eq as bs n)"
| "strncmp_eq as bs (Suc n) = None"

text \<open>The position of the first occurrence of a needle in a string.\<close>

fun find_sub :: "u8 list \<Rightarrow> u8 list \<Rightarrow> nat option" where
  "find_sub needle [] = (if needle = [] then Some 0 else None)"
| "find_sub needle (x # xs) =
     (if take (length needle) (x # xs) = needle then Some 0
      else map_option Suc (find_sub needle xs))"

text \<open>
  \<open>strstr(hay, needle)\<close>: the outer option is undefined behaviour (no terminator), the inner
  one the null pointer; a found position is the offset from \<open>hay\<close>.
\<close>

definition strstr :: "u8 list \<Rightarrow> u8 list \<Rightarrow> nat option option" where
  "strstr hay needle = map_option (find_sub needle) (cstr hay)"

fun strnlen :: "u8 list \<Rightarrow> nat \<Rightarrow> nat option" where
  "strnlen bs 0 = Some 0"
| "strnlen [] (Suc n) = None"
| "strnlen (b # bs) (Suc n) = (if b = 0 then Some 0 else map_option Suc (strnlen bs n))"

text \<open>
  \<open>snprintf(buf, n, ...)\<close> whose formatted output is \<open>s\<close>: at most \<open>n - 1\<close> bytes of it and a
  terminator, nothing for \<open>n = 0\<close>.
\<close>

definition snprintf :: "u8 list \<Rightarrow> size_t \<Rightarrow> u8 list \<Rightarrow> u8 list option" where
  "snprintf buf n s =
     (if n = 0 then Some buf else store_prefix (take (unat n - 1) s @ [0]) buf)"

lemma cstr_append_nul: "0 \<notin> set s \<Longrightarrow> cstr (s @ 0 # rest) = Some s"
  by (induction s) auto

lemma cstr_Some_iff:
  "cstr bs = Some s \<longleftrightarrow> 0 \<notin> set s \<and> (\<exists>rest. bs = s @ 0 # rest)"
proof
  show "cstr bs = Some s \<Longrightarrow> 0 \<notin> set s \<and> (\<exists>rest. bs = s @ 0 # rest)"
    by (induction bs arbitrary: s) (fastforce split: if_splits)+
qed (auto simp: cstr_append_nul)

lemma cstr_None_iff: "cstr bs = None \<longleftrightarrow> 0 \<notin> set bs"
  by (induction bs) auto

lemma find_sub_0: "find_sub needle hay = Some 0 \<longleftrightarrow> take (length needle) hay = needle"
  by (cases hay) (auto split: if_splits)

text \<open>The idiom \<open>strstr(s, w) == s\<close> of the code is a prefix test.\<close>

lemma strstr_0:
  "strstr hay needle = Some (Some 0) \<longleftrightarrow>
     (\<exists>s. cstr hay = Some s \<and> take (length needle) s = needle)"
  by (auto simp: strstr_def find_sub_0)

text \<open>Comparing against a whole literal, terminator included, is an exact match.\<close>

lemma strncmp_eq_lit:
  assumes "0 \<notin> set w"
  shows "strncmp_eq (w @ 0 # rest) (w @ 0 # rest') n = Some True"
  using assms
proof (induction w arbitrary: n)
  case Nil
  then show ?case by (cases n) auto
next
  case (Cons a w)
  then show ?case by (cases n) auto
qed

lemma strncmp_eq_exact:
  assumes "0 \<notin> set w" and "0 \<notin> set s" and "length w < n"
  shows "strncmp_eq (s @ 0 # rest) (w @ 0 # rest') n = Some (s = w)"
  using assms
proof (induction w arbitrary: s n)
  case Nil
  then show ?case by (cases n; cases s) auto
next
  case (Cons a w)
  then show ?case by (cases n; cases s) auto
qed

lemma strnlen_append_nul:
  "0 \<notin> set s \<Longrightarrow> strnlen (s @ 0 # rest) n = Some (min n (length s))"
proof (induction s arbitrary: n)
  case Nil
  then show ?case by (cases n) auto
next
  case (Cons a s)
  then show ?case by (cases n) auto
qed

section \<open>Printing and reading decimal numbers\<close>

definition digit :: "nat \<Rightarrow> u8" where
  "digit d = of_nat (48 + d)"

fun dec_nat :: "nat \<Rightarrow> u8 list" where
  "dec_nat n = (if n < 10 then [digit n] else dec_nat (n div 10) @ [digit (n mod 10)])"

declare dec_nat.simps [simp del]

definition dec_int :: "int \<Rightarrow> u8 list" where
  "dec_int i = (if i < 0 then 45 # dec_nat (nat (- i)) else dec_nat (nat i))"

definition is_digit :: "u8 \<Rightarrow> bool" where
  "is_digit b \<longleftrightarrow> 48 \<le> b \<and> b \<le> 57"

fun read_digits :: "nat \<Rightarrow> u8 list \<Rightarrow> nat" where
  "read_digits acc [] = acc"
| "read_digits acc (b # bs) =
     (if is_digit b then read_digits (10 * acc + (unat b - 48)) bs else acc)"

lemma digit_facts: "d < 10 \<Longrightarrow> is_digit (digit d) \<and> unat (digit d) = 48 + d \<and> digit d \<noteq> 0"
proof -
  assume "d < 10"
  then have "unat (digit d) = 48 + d"
    by (simp add: digit_def unat_of_nat del: of_nat_add)
  with \<open>d < 10\<close> show ?thesis
    by (auto simp: is_digit_def word_le_nat_alt)
qed

lemma dec_nat_no_nul: "0 \<notin> set (dec_nat n)"
proof (induction n rule: dec_nat.induct)
  case (1 n)
  then show ?case
    by (subst dec_nat.simps) (auto simp: digit_facts dest: sym)
qed

lemma dec_nat_digits: "\<forall>b \<in> set (dec_nat n). is_digit b"
proof (induction n rule: dec_nat.induct)
  case (1 n)
  then show ?case
    by (subst dec_nat.simps) (auto simp: digit_facts)
qed

lemma dec_nat_nonempty [simp]: "dec_nat n \<noteq> []"
  by (subst dec_nat.simps) simp

lemma read_digits_append:
  "\<forall>b \<in> set ds. is_digit b \<Longrightarrow> read_digits acc (ds @ rest) = read_digits (read_digits acc ds) rest"
  by (induction ds arbitrary: acc) auto

lemma read_digits_dec_nat: "read_digits 0 (dec_nat n) = n"
proof (induction n rule: dec_nat.induct)
  case (1 n)
  show ?case
  proof (cases "n < 10")
    case True
    then show ?thesis by (subst dec_nat.simps) (simp add: digit_facts)
  next
    case False
    then have "dec_nat n = dec_nat (n div 10) @ [digit (n mod 10)]"
      by (subst dec_nat.simps) simp
    with False 1 show ?thesis
      by (simp add: read_digits_append dec_nat_digits digit_facts)
  qed
qed

lemma dec_int_no_nul: "0 \<notin> set (dec_int i)"
  by (auto simp: dec_int_def dec_nat_no_nul)

end
