(* ===== verification/Interfaces.thy ===== *)
theory Interfaces
  imports CBase
begin

text \<open>
  The table of FPGA interfaces: \<^verbatim>\<open>protodrv_api/common/inc/intel_fpga_api_cmn_inf.h\<close>,
  \<^verbatim>\<open>protodrv_api/common/src/intel_fpga_api_cmn_inf.c\<close>, the record of
  \<^verbatim>\<open>protodrv_api/uio/inc/intel_fpga_platform_uio.h\<close> and the interrupt functions of
  \<^verbatim>\<open>protodrv_api/uio/src/intel_fpga_api_uio.c\<close>.

  The three globals (pointer, size, reserved) are the record \<open>interface_vec\<close>: the reserved
  elements are a list, whose length is the reserved count and whose emptiness is the null
  pointer. Reading an element that is not reserved is out of bounds. The locale \<open>lease\<close> is what
  a user of \<open>fpga_open\<close>/\<open>fpga_close\<close> relies on; it is interpreted for the MMIO and for the
  interrupt side.
\<close>

section \<open>The table\<close>

record FPGA_INTERFACE_INFO =
  version :: u8
  mfg_id :: u8
  inf_type :: u16
  inf_instance :: u16
  group_id :: u16
  subsystem_id :: u8
  base_address :: u64
  interrupt :: u16
  is_mmio_opened :: bool
  is_interrupt_opened :: bool
  interrupt_enable :: bool
  isr_callback :: "u64 option"
  isr_context :: u64

definition zero_info :: FPGA_INTERFACE_INFO where
  "zero_info =
     \<lparr>version = 0, mfg_id = 0, inf_type = 0, inf_instance = 0, group_id = 0, subsystem_id = 0,
      base_address = 0, interrupt = 0, is_mmio_opened = False, is_interrupt_opened = False,
      interrupt_enable = False, isr_callback = None, isr_context = 0\<rparr>"

record interface_vec =
  vec_elems :: "FPGA_INTERFACE_INFO list"
  vec_size :: nat

definition empty_vec :: interface_vec where
  "empty_vec = \<lparr>vec_elems = [], vec_size = 0\<rparr>"

text \<open>
  The exceptions the API raises. The default handler ends the program, so a raised exception
  is the end of the call.
\<close>

datatype runtime_exception =
    Insufficient_memory nat
  | Unsupported_feature
  | Cleanup_system_error

section \<open>Operations\<close>

definition vec_at :: "interface_vec \<Rightarrow> u64 \<Rightarrow> FPGA_INTERFACE_INFO option" where
  "vec_at v index =
     (if unat index < length (vec_elems v) then Some (vec_elems v ! unat index) else None)"

definition vec_update ::
  "u64 \<Rightarrow> (FPGA_INTERFACE_INFO \<Rightarrow> FPGA_INTERFACE_INFO) \<Rightarrow> interface_vec \<Rightarrow> interface_vec option" where
  "vec_update index f v = do {
     info \<leftarrow> vec_at v index;
     Some (v\<lparr>vec_elems := (vec_elems v)[unat index := f info]\<rparr>)
   }"

text \<open>\<open>realloc_ok\<close>: whether \<open>realloc\<close> returns memory.\<close>

definition common_fpga_interface_info_vec_reserve ::
  "bool \<Rightarrow> nat \<Rightarrow> interface_vec \<Rightarrow> runtime_exception + interface_vec" where
  "common_fpga_interface_info_vec_reserve realloc_ok sz v =
     (if sz > length (vec_elems v)
      then if realloc_ok
           then Inr (v\<lparr>vec_elems :=
                        vec_elems v @ replicate (sz - length (vec_elems v)) zero_info\<rparr>)
           else Inl (Insufficient_memory sz)
      else if sz = 0 then Inr \<lparr>vec_elems = [], vec_size = 0\<rparr>
      else Inr v)"

definition common_fpga_interface_info_vec_resize ::
  "bool \<Rightarrow> nat \<Rightarrow> interface_vec \<Rightarrow> runtime_exception + interface_vec" where
  "common_fpga_interface_info_vec_resize realloc_ok sz v =
     (case common_fpga_interface_info_vec_reserve realloc_ok sz v of
        Inl e \<Rightarrow> Inl e
      | Inr v' \<Rightarrow> Inr (v'\<lparr>vec_size := sz\<rparr>))"

definition fpga_get_num_of_interfaces :: "interface_vec \<Rightarrow> u32" where
  "fpga_get_num_of_interfaces v = of_nat (vec_size v)"

definition in_vec :: "u64 \<Rightarrow> interface_vec \<Rightarrow> bool" where
  "in_vec index v \<longleftrightarrow> unat index < vec_size v"

text \<open>The result is the copied record, or none where the function returns \<open>false\<close>.\<close>

definition fpga_get_interface_at ::
  "u32 \<Rightarrow> interface_vec \<Rightarrow> FPGA_INTERFACE_INFO option option" where
  "fpga_get_interface_at index v =
     (if in_vec (ucast index) v then map_option Some (vec_at v (ucast index)) else Some None)"

definition FPGA_MMIO_INTERFACE_INVALID_HANDLE :: int where
  "FPGA_MMIO_INTERFACE_INVALID_HANDLE = -1"

definition FPGA_INTERRUPT_INVALID_HANDLE :: int where
  "FPGA_INTERRUPT_INVALID_HANDLE = -1"

definition fpga_open :: "u32 \<Rightarrow> interface_vec \<Rightarrow> (int \<times> interface_vec) option" where
  "fpga_open index v =
     (if in_vec (ucast index) v
      then do {
        info \<leftarrow> vec_at v (ucast index);
        if \<not> is_mmio_opened info
        then do {
          v' \<leftarrow> vec_update (ucast index) (\<lambda>i. i\<lparr>is_mmio_opened := True\<rparr>) v;
          Some (sint index, v')
        }
        else Some (FPGA_MMIO_INTERFACE_INVALID_HANDLE, v)
      }
      else Some (FPGA_MMIO_INTERFACE_INVALID_HANDLE, v))"

definition fpga_close :: "u32 \<Rightarrow> interface_vec \<Rightarrow> interface_vec option" where
  "fpga_close index v =
     (if in_vec (ucast index) v
      then vec_update (ucast index) (\<lambda>i. i\<lparr>is_mmio_opened := False\<rparr>) v
      else Some v)"

definition fpga_interrupt_open :: "u32 \<Rightarrow> interface_vec \<Rightarrow> (int \<times> interface_vec) option" where
  "fpga_interrupt_open index v =
     (if in_vec (ucast index) v
      then do {
        info \<leftarrow> vec_at v (ucast index);
        if \<not> is_interrupt_opened info
        then do {
          v' \<leftarrow> vec_update (ucast index) (\<lambda>i. i\<lparr>is_interrupt_opened := True\<rparr>) v;
          Some (sint index, v')
        }
        else Some (FPGA_INTERRUPT_INVALID_HANDLE, v)
      }
      else Some (FPGA_INTERRUPT_INVALID_HANDLE, v))"

definition fpga_interrupt_close :: "u32 \<Rightarrow> interface_vec \<Rightarrow> interface_vec option" where
  "fpga_interrupt_close index v =
     (if in_vec (ucast index) v
      then vec_update (ucast index) (\<lambda>i. i\<lparr>is_interrupt_opened := False\<rparr>) v
      else Some v)"

text \<open>
  The interrupt functions take a handle, an \<open>int\<close> that is compared with a \<open>size_t\<close>: the
  comparison converts it, so that a negative handle is beyond every size.
\<close>

definition handle_index :: "int \<Rightarrow> u64" where
  "handle_index handle = word_of_int handle"

definition fpga_register_isr ::
  "int \<Rightarrow> u64 option \<Rightarrow> u64 \<Rightarrow> interface_vec \<Rightarrow> (int \<times> interface_vec) option" where
  "fpga_register_isr handle isr context v =
     (if in_vec (handle_index handle) v
      then do {
        info \<leftarrow> vec_at v (handle_index handle);
        let ret = (if isr_callback info \<noteq> None then 1 else 0);
        v1 \<leftarrow> vec_update (handle_index handle) (\<lambda>i. i\<lparr>isr_callback := isr\<rparr>) v;
        v2 \<leftarrow> vec_update (handle_index handle) (\<lambda>i. i\<lparr>isr_context := context\<rparr>) v1;
        Some (ret, v2)
      }
      else Some (-1, v))"

text \<open>
  \<open>g_intSem\<close>, the semaphore the interrupt thread sleeps on, is a number; \<open>getvalue_status\<close> is
  what \<open>sem_getvalue\<close> returns.
\<close>

definition fpga_enable_interrupt ::
  "int \<Rightarrow> int \<Rightarrow> interface_vec \<times> nat \<Rightarrow> (int \<times> interface_vec \<times> nat) option" where
  "fpga_enable_interrupt getvalue_status handle s =
     (if in_vec (handle_index handle) (fst s)
      then do {
        v \<leftarrow> vec_update (handle_index handle) (\<lambda>i. i\<lparr>interrupt_enable := True\<rparr>) (fst s);
        let sem = (if getvalue_status = 0 \<and> snd s \<le> 0 then snd s + 1 else snd s);
        Some (0, v, sem)
      }
      else Some (-1, s))"

definition fpga_disable_interrupt :: "int \<Rightarrow> interface_vec \<Rightarrow> (int \<times> interface_vec) option" where
  "fpga_disable_interrupt handle v =
     (if in_vec (handle_index handle) v
      then do {
        v' \<leftarrow> vec_update (handle_index handle) (\<lambda>i. i\<lparr>interrupt_enable := False\<rparr>) v;
        Some (0, v')
      }
      else Some (-1, v))"

text \<open>Physical memory is not supported on this platform: the three functions raise.\<close>

definition fpga_malloc :: "int \<Rightarrow> u32 \<Rightarrow> runtime_exception + u64" where
  "fpga_malloc handle sz = Inl Unsupported_feature"

definition fpga_free :: "int \<Rightarrow> u64 \<Rightarrow> runtime_exception + unit" where
  "fpga_free handle address = Inl Unsupported_feature"

definition fpga_get_physical_address :: "u64 \<Rightarrow> runtime_exception + u64" where
  "fpga_get_physical_address address = Inl Unsupported_feature"


section \<open>Well-formed tables\<close>

definition vec_ok :: "interface_vec \<Rightarrow> bool" where
  "vec_ok v \<longleftrightarrow> vec_size v \<le> length (vec_elems v) \<and> length (vec_elems v) < 2 ^ 31"

lemma vec_at_ok: "vec_ok v \<Longrightarrow> in_vec i v \<Longrightarrow> vec_at v i = Some (vec_elems v ! unat i)"
  by (simp add: vec_ok_def in_vec_def vec_at_def)

lemma vec_update_ok:
  "vec_ok v \<Longrightarrow> in_vec i v \<Longrightarrow>
     vec_update i f v = Some (v\<lparr>vec_elems := (vec_elems v)[unat i := f (vec_elems v ! unat i)]\<rparr>)"
  by (simp add: vec_update_def vec_at_ok)

lemma vec_ok_upd [simp]:
  "vec_ok (v\<lparr>vec_elems := (vec_elems v)[k := x]\<rparr>) = vec_ok v"
  "in_vec i (v\<lparr>vec_elems := xs\<rparr>) = in_vec i v"
  by (simp_all add: vec_ok_def in_vec_def)

lemma vec_ok_empty [simp]: "vec_ok empty_vec"
  by (simp add: vec_ok_def empty_vec_def)

lemma resize_ok:
  assumes "vec_ok v" and "n < 2 ^ 31"
    and "common_fpga_interface_info_vec_resize r n v = Inr v'"
  shows "vec_ok v'" and "vec_size v' = n"
  using assms
  by (auto simp: common_fpga_interface_info_vec_resize_def
      common_fpga_interface_info_vec_reserve_def vec_ok_def split: if_splits)

text \<open>Growing keeps the elements in use and appends cleared ones behind the reserved ones.\<close>

lemma resize_elems:
  assumes "common_fpga_interface_info_vec_resize r n v = Inr v'" and "0 < n"
  shows "vec_elems v' =
    vec_elems v @ replicate (n - length (vec_elems v)) zero_info"
  using assms
  by (auto simp: common_fpga_interface_info_vec_resize_def
      common_fpga_interface_info_vec_reserve_def split: if_splits)

section \<open>Leases\<close>

text \<open>
  The contract of opening and closing: an index that is valid and not held is granted once, and
  not again until it is released; other indices are not affected.
\<close>

locale lease =
  fixes acquire :: "u32 \<Rightarrow> 's \<Rightarrow> (int \<times> 's) option"
    and release :: "u32 \<Rightarrow> 's \<Rightarrow> 's option"
    and valid :: "u32 \<Rightarrow> 's \<Rightarrow> bool"
    and held :: "u32 \<Rightarrow> 's \<Rightarrow> bool"
    and inv :: "'s \<Rightarrow> bool"
  assumes grant: "inv s \<Longrightarrow> valid i s \<Longrightarrow> \<not> held i s \<Longrightarrow>
      \<exists>s'. acquire i s = Some (int (unat i), s') \<and> inv s' \<and> held i s' \<and>
           (\<forall>j. valid j s' = valid j s) \<and> (\<forall>j. j \<noteq> i \<and> valid j s \<longrightarrow> held j s' = held j s)"
    and refuse: "inv s \<Longrightarrow> \<not> valid i s \<or> held i s \<Longrightarrow> acquire i s = Some (-1, s)"
    and free: "inv s \<Longrightarrow> valid i s \<Longrightarrow>
      \<exists>s'. release i s = Some s' \<and> inv s' \<and> \<not> held i s' \<and>
           (\<forall>j. valid j s' = valid j s) \<and> (\<forall>j. j \<noteq> i \<and> valid j s \<longrightarrow> held j s' = held j s)"
    and free_invalid: "inv s \<Longrightarrow> \<not> valid i s \<Longrightarrow> release i s = Some s"
begin

text \<open>A run of requests: \<open>Inl i\<close> opens the index \<open>i\<close>, \<open>Inr i\<close> closes it.\<close>

fun run :: "(u32 + u32) list \<Rightarrow> 's \<Rightarrow> (int list \<times> 's) option" where
  "run [] s = Some ([], s)"
| "run (Inl i # rs) s = do {
     (h, s') \<leftarrow> acquire i s;
     (hs, s'') \<leftarrow> run rs s';
     Some (h # hs, s'')
   }"
| "run (Inr i # rs) s = do { s' \<leftarrow> release i s; run rs s' }"

lemma acquire_cases:
  assumes "inv s"
  obtains s' where "acquire i s = Some (int (unat i), s')" "inv s'" "held i s'"
      "\<forall>j. valid j s' = valid j s" "\<forall>j. j \<noteq> i \<and> valid j s \<longrightarrow> held j s' = held j s"
      "valid i s" "\<not> held i s"
  | "acquire i s = Some (-1, s)" "\<not> valid i s \<or> held i s"
  using grant [OF assms, of i] refuse [OF assms, of i] by blast

lemma release_cases:
  assumes "inv s"
  obtains s' where "release i s = Some s'" "inv s'" "\<forall>j. valid j s' = valid j s"
      "\<forall>j. j \<noteq> i \<and> valid j s \<longrightarrow> held j s' = held j s"
  using free [OF assms, of i] free_invalid [OF assms, of i] assms by metis

lemma run_total: "inv s \<Longrightarrow> \<exists>hs s'. run rs s = Some (hs, s') \<and> inv s'"
proof (induction rs arbitrary: s)
  case Nil
  then show ?case by simp
next
  case (Cons r rs)
  show ?case
  proof (cases r)
    case (Inl i)
    from Cons.prems show ?thesis
    proof (cases rule: acquire_cases [of s i])
      case (1 s')
      with Cons.IH [of s'] Inl show ?thesis by auto
    next
      case 2
      with Cons.IH [of s] Cons.prems Inl show ?thesis by auto
    qed
  next
    case (Inr i)
    from Cons.prems obtain s' where "release i s = Some s'" "inv s'"
      by (rule release_cases)
    with Cons.IH [of s'] Inr show ?thesis by auto
  qed
qed

text \<open>While an index is held and nobody releases it, every request for it is refused.\<close>

lemma held_refuses:
  assumes "inv s" and "valid i s" and "held i s" and "Inr i \<notin> set rs"
    and "run rs s = Some (hs, s')"
  shows "held i s'" and "acquire i s' = Some (-1, s')"
proof -
  have *: "inv s' \<and> valid i s' \<and> held i s'"
    using assms
  proof (induction rs arbitrary: s hs)
    case Nil
    then show ?case by simp
  next
    case (Cons r rs)
    show ?case
    proof (cases r)
      case (Inl j)
      from Cons.prems(1) show ?thesis
      proof (cases rule: acquire_cases [of s j])
        case (1 t)
        then have "held i t" and "valid i t"
          using Cons.prems by (cases "j = i"; auto)+
        with 1 Cons.prems Inl show ?thesis
          by (intro Cons.IH [of t "tl hs"]) (auto split: bind_splits prod.splits)
      next
        case 2
        with Cons.prems Inl show ?thesis
          by (intro Cons.IH [of s "tl hs"]) (auto split: bind_splits prod.splits)
      qed
    next
      case (Inr j)
      with Cons.prems have "j \<noteq> i" by auto
      from Cons.prems(1) obtain t where t: "release j s = Some t" "inv t"
        "\<forall>k. valid k t = valid k s" "\<forall>k. k \<noteq> j \<and> valid k s \<longrightarrow> held k t = held k s"
        by (rule release_cases)
      with Cons.prems Inr \<open>j \<noteq> i\<close> show ?thesis
        by (intro Cons.IH [of t hs]) auto
    qed
  qed
  then show "held i s'" by simp
  from * show "acquire i s' = Some (-1, s')" by (intro refuse) auto
qed

end

definition mmio_held :: "u32 \<Rightarrow> interface_vec \<Rightarrow> bool" where
  "mmio_held i v \<longleftrightarrow> in_vec (ucast i) v \<and> is_mmio_opened (vec_elems v ! unat i)"

definition interrupt_held :: "u32 \<Rightarrow> interface_vec \<Rightarrow> bool" where
  "interrupt_held i v \<longleftrightarrow> in_vec (ucast i) v \<and> is_interrupt_opened (vec_elems v ! unat i)"

lemma unat_ucast_u32 [simp]: "unat (ucast (i :: u32) :: u64) = unat i"
  by (simp add: unat_ucast_up)

lemma signed_take_bit_small: "n < 2 ^ 31 \<Longrightarrow> signed_take_bit 31 (int n) = int n"
  by (intro signed_take_bit_int_eq_self) simp_all

lemma sint_small: "unat (i :: u32) < 2 ^ 31 \<Longrightarrow> sint i = int (unat i)"
proof -
  assume "unat i < 2 ^ 31"
  then have "signed_take_bit 31 (int (unat i)) = int (unat i)"
    by (rule signed_take_bit_small)
  moreover have "sint i = signed_take_bit 31 (uint i)"
    by (simp add: sint_uint)
  moreover have "uint i = int (unat i)"
    by simp
  ultimately show ?thesis by (simp only:)
qed

lemma ucast_u32_inject: "(ucast (i :: u32) :: u64) = ucast j \<longleftrightarrow> i = j"
  by (metis unat_ucast_u32 word_unat_eq_iff)

interpretation mmio: lease fpga_open fpga_close "\<lambda>i v. in_vec (ucast i) v" mmio_held vec_ok
proof
  fix v and i :: u32
  assume v: "vec_ok v" and i: "in_vec (ucast i) v" and free: "\<not> mmio_held i v"
  then have lt: "unat i < length (vec_elems v)" and "unat i < 2 ^ 31"
    by (auto simp: vec_ok_def in_vec_def)
  then have "sint i = int (unat i)" by (intro sint_small)
  with v i free lt
  show "\<exists>s'. fpga_open i v = Some (int (unat i), s') \<and> vec_ok s' \<and> mmio_held i s' \<and>
      (\<forall>j. in_vec (ucast j) s' = in_vec (ucast j) v) \<and>
      (\<forall>j. j \<noteq> i \<and> in_vec (ucast j) v \<longrightarrow> mmio_held j s' = mmio_held j v)"
    by (auto simp: fpga_open_def mmio_held_def vec_at_ok vec_update_ok nth_list_update
        word_unat_eq_iff)
next
  fix v and i :: u32
  assume "vec_ok v" and "\<not> in_vec (ucast i) v \<or> mmio_held i v"
  then show "fpga_open i v = Some (- 1, v)"
    by (auto simp: fpga_open_def mmio_held_def vec_at_ok FPGA_MMIO_INTERFACE_INVALID_HANDLE_def)
next
  fix v and i :: u32
  assume v: "vec_ok v" and i: "in_vec (ucast i) v"
  then have "unat i < length (vec_elems v)"
    by (auto simp: vec_ok_def in_vec_def)
  with v i
  show "\<exists>s'. fpga_close i v = Some s' \<and> vec_ok s' \<and> \<not> mmio_held i s' \<and>
      (\<forall>j. in_vec (ucast j) s' = in_vec (ucast j) v) \<and>
      (\<forall>j. j \<noteq> i \<and> in_vec (ucast j) v \<longrightarrow> mmio_held j s' = mmio_held j v)"
    by (auto simp: fpga_close_def mmio_held_def vec_update_ok nth_list_update word_unat_eq_iff)
qed (auto simp: fpga_close_def)

interpretation interrupt: lease fpga_interrupt_open fpga_interrupt_close
  "\<lambda>i v. in_vec (ucast i) v" interrupt_held vec_ok
proof
  fix v and i :: u32
  assume v: "vec_ok v" and i: "in_vec (ucast i) v" and free: "\<not> interrupt_held i v"
  then have lt: "unat i < length (vec_elems v)" and "unat i < 2 ^ 31"
    by (auto simp: vec_ok_def in_vec_def)
  then have "sint i = int (unat i)" by (intro sint_small)
  with v i free lt
  show "\<exists>s'. fpga_interrupt_open i v = Some (int (unat i), s') \<and> vec_ok s' \<and>
      interrupt_held i s' \<and> (\<forall>j. in_vec (ucast j) s' = in_vec (ucast j) v) \<and>
      (\<forall>j. j \<noteq> i \<and> in_vec (ucast j) v \<longrightarrow> interrupt_held j s' = interrupt_held j v)"
    by (auto simp: fpga_interrupt_open_def interrupt_held_def vec_at_ok vec_update_ok
        nth_list_update word_unat_eq_iff)
next
  fix v and i :: u32
  assume "vec_ok v" and "\<not> in_vec (ucast i) v \<or> interrupt_held i v"
  then show "fpga_interrupt_open i v = Some (- 1, v)"
    by (auto simp: fpga_interrupt_open_def interrupt_held_def vec_at_ok
        FPGA_INTERRUPT_INVALID_HANDLE_def)
next
  fix v and i :: u32
  assume v: "vec_ok v" and i: "in_vec (ucast i) v"
  then have "unat i < length (vec_elems v)"
    by (auto simp: vec_ok_def in_vec_def)
  with v i
  show "\<exists>s'. fpga_interrupt_close i v = Some s' \<and> vec_ok s' \<and> \<not> interrupt_held i s' \<and>
      (\<forall>j. in_vec (ucast j) s' = in_vec (ucast j) v) \<and>
      (\<forall>j. j \<noteq> i \<and> in_vec (ucast j) v \<longrightarrow> interrupt_held j s' = interrupt_held j v)"
    by (auto simp: fpga_interrupt_close_def interrupt_held_def vec_update_ok nth_list_update
        word_unat_eq_iff)
qed (auto simp: fpga_interrupt_close_def)

section \<open>Properties\<close>

text \<open>
  C20. Exclusive access: after \<open>fpga_open\<close> has granted an interface, every run of further opens
  and closes that does not close that interface is carried out, leaves the interface held, and
  another \<open>fpga_open\<close> of it is answered with the invalid handle and changes nothing.
\<close>

theorem mmio_open_exclusive:
  assumes "vec_ok v" and "fpga_open i v = Some (h, v1)" and "h \<noteq> FPGA_MMIO_INTERFACE_INVALID_HANDLE"
    and "Inr i \<notin> set rs"
  shows "\<exists>hs v2. mmio.run rs v1 = Some (hs, v2) \<and>
    fpga_open i v2 = Some (FPGA_MMIO_INTERFACE_INVALID_HANDLE, v2)"
proof -
  have g: "in_vec (ucast i) v" "vec_ok v1" "mmio_held i v1" "in_vec (ucast i) v1"
    using mmio.acquire_cases [OF assms(1), of i] assms(2,3)
    by (auto simp: FPGA_MMIO_INTERFACE_INVALID_HANDLE_def)
  obtain hs v2 where run: "mmio.run rs v1 = Some (hs, v2)"
    using mmio.run_total [OF g(2)] by blast
  from mmio.held_refuses(2) [OF g(2,4,3) assms(4) run] run show ?thesis
    by (simp add: FPGA_MMIO_INTERFACE_INVALID_HANDLE_def)
qed

lemma mmio_open_exclusive_witness:
  "\<exists>v1 hs v2. fpga_open 0 \<lparr>vec_elems = [zero_info, zero_info], vec_size = 2\<rparr> = Some (0, v1) \<and>
    mmio.run [Inl 1, Inl 0, Inr 1] v1 = Some (hs, v2) \<and>
    fpga_open 0 v2 = Some (FPGA_MMIO_INTERFACE_INVALID_HANDLE, v2)"
proof -
  let ?v = "\<lparr>vec_elems = [zero_info, zero_info], vec_size = 2\<rparr>"
  let ?v1 = "\<lparr>vec_elems = [zero_info\<lparr>is_mmio_opened := True\<rparr>, zero_info], vec_size = 2\<rparr>"
  have ok: "vec_ok ?v" by (simp add: vec_ok_def)
  have open0: "fpga_open 0 ?v = Some (0, ?v1)"
    by (simp add: fpga_open_def in_vec_def vec_at_def vec_update_def zero_info_def)
  show ?thesis
    using mmio_open_exclusive [OF ok open0, of "[Inl 1, Inl 0, Inr 1]"] open0
    by (simp add: FPGA_MMIO_INTERFACE_INVALID_HANDLE_def)
qed

text \<open>
  The same for interrupt handles: \<open>fpga_interrupt_open\<close> grants an interface to one holder
  until \<open>fpga_interrupt_close\<close>.
\<close>

theorem interrupt_open_exclusive:
  assumes "vec_ok v" and "fpga_interrupt_open i v = Some (h, v1)"
    and "h \<noteq> FPGA_INTERRUPT_INVALID_HANDLE" and "Inr i \<notin> set rs"
  shows "\<exists>hs v2. interrupt.run rs v1 = Some (hs, v2) \<and>
    fpga_interrupt_open i v2 = Some (FPGA_INTERRUPT_INVALID_HANDLE, v2)"
proof -
  have g: "in_vec (ucast i) v" "vec_ok v1" "interrupt_held i v1" "in_vec (ucast i) v1"
    using interrupt.acquire_cases [OF assms(1), of i] assms(2,3)
    by (auto simp: FPGA_INTERRUPT_INVALID_HANDLE_def)
  obtain hs v2 where run: "interrupt.run rs v1 = Some (hs, v2)"
    using interrupt.run_total [OF g(2)] by blast
  from interrupt.held_refuses(2) [OF g(2,4,3) assms(4) run] run show ?thesis
    by (simp add: FPGA_INTERRUPT_INVALID_HANDLE_def)
qed

lemma interrupt_open_exclusive_witness:
  "\<exists>v1 hs v2. fpga_interrupt_open 0 \<lparr>vec_elems = [zero_info], vec_size = 1\<rparr> = Some (0, v1) \<and>
    interrupt.run [Inl 0] v1 = Some (hs, v2) \<and>
    fpga_interrupt_open 0 v2 = Some (FPGA_INTERRUPT_INVALID_HANDLE, v2)"
proof -
  let ?v = "\<lparr>vec_elems = [zero_info], vec_size = 1\<rparr>"
  let ?v1 = "\<lparr>vec_elems = [zero_info\<lparr>is_interrupt_opened := True\<rparr>], vec_size = 1\<rparr>"
  have ok: "vec_ok ?v" by (simp add: vec_ok_def)
  have open0: "fpga_interrupt_open 0 ?v = Some (0, ?v1)"
    by (simp add: fpga_interrupt_open_def in_vec_def vec_at_def vec_update_def zero_info_def)
  show ?thesis
    using interrupt_open_exclusive [OF ok open0, of "[Inl 0]"] open0
    by (simp add: FPGA_INTERRUPT_INVALID_HANDLE_def)
qed

text \<open>
  Shrinking the table and growing it again brings the old records back: the elements behind
  the size are kept, only the first growth beyond the reserved memory clears them. (A vector
  that follows the C++ one, as the header says, would give cleared records.)
\<close>

theorem resize_keeps_stale_records:
  assumes "vec_elems v = xs" and "vec_size v = length xs" and "0 < m" and "m \<le> length xs"
  shows "\<exists>v1 v2. common_fpga_interface_info_vec_resize r m v = Inr v1 \<and> vec_size v1 = m \<and>
    common_fpga_interface_info_vec_resize r' (length xs) v1 = Inr v2 \<and> vec_elems v2 = xs \<and>
    vec_size v2 = length xs"
  using assms
  by (simp add: common_fpga_interface_info_vec_resize_def common_fpga_interface_info_vec_reserve_def)

lemma resize_keeps_stale_records_witness:
  "\<exists>v1 v2. common_fpga_interface_info_vec_resize True 1
      \<lparr>vec_elems = [zero_info, zero_info\<lparr>is_mmio_opened := True\<rparr>], vec_size = 2\<rparr> = Inr v1 \<and>
    vec_size v1 = 1 \<and> common_fpga_interface_info_vec_resize True 2 v1 = Inr v2 \<and>
    vec_elems v2 = [zero_info, zero_info\<lparr>is_mmio_opened := True\<rparr>] \<and> vec_size v2 = 2"
  using resize_keeps_stale_records
    [of "\<lparr>vec_elems = [zero_info, zero_info\<lparr>is_mmio_opened := True\<rparr>], vec_size = 2\<rparr>"
        "[zero_info, zero_info\<lparr>is_mmio_opened := True\<rparr>]" 1 True True]
  by (simp add: numeral_2_eq_2)

end
