(* ===== verification/Mmio.thy ===== *)
theory Mmio
  imports Interfaces
begin

text \<open>
  Memory-mapped access to an opened interface: the inline functions of
  \<^verbatim>\<open>protodrv_api/uio/inc/intel_fpga_api_uio.h\<close>.

  What answers at a mapped address is not code of the repository. It is the parameter \<open>bus\<close>:
  which bytes of the address space are mapped, and for every access width a function that may change
  the device. An access to a byte that is not mapped is undefined. An address that is no multiple of
  the width is left to the machine, as in the code. \<open>ram_bus\<close> is one such device, plain memory
  everywhere, which stands for what the software model of the repository's own UIO unit tests maps.
  The contract \<open>word_memory\<close> is what a block copy relies on; it is interpreted for the native
  64-bit access and for the emulation by two 32-bit accesses.
\<close>

section \<open>The device and the platform state\<close>

record 'h bus =
  bus_mapped :: "u64 \<Rightarrow> bool"
  bus_rd8 :: "u64 \<Rightarrow> 'h \<Rightarrow> u8 \<times> 'h"
  bus_rd16 :: "u64 \<Rightarrow> 'h \<Rightarrow> u16 \<times> 'h"
  bus_rd32 :: "u64 \<Rightarrow> 'h \<Rightarrow> u32 \<times> 'h"
  bus_rd64 :: "u64 \<Rightarrow> 'h \<Rightarrow> u64 \<times> 'h"
  bus_wr8 :: "u64 \<Rightarrow> u8 \<Rightarrow> 'h \<Rightarrow> 'h"
  bus_wr16 :: "u64 \<Rightarrow> u16 \<Rightarrow> 'h \<Rightarrow> 'h"
  bus_wr32 :: "u64 \<Rightarrow> u32 \<Rightarrow> 'h \<Rightarrow> 'h"
  bus_wr64 :: "u64 \<Rightarrow> u64 \<Rightarrow> 'h \<Rightarrow> 'h"

record 'h platform =
  interfaces :: interface_vec
  device :: 'h

section \<open>Accesses\<close>

definition fpga_uio_get_base_address :: "int \<Rightarrow> 'h platform \<Rightarrow> u64 option" where
  "fpga_uio_get_base_address handle p =
     map_option base_address (vec_at (interfaces p) (handle_index handle))"

text \<open>The \<open>n\<close> bytes from an address on are mapped.\<close>

definition mapped_bytes :: "'h bus \<Rightarrow> u64 \<Rightarrow> nat \<Rightarrow> bool" where
  "mapped_bytes bus a n \<longleftrightarrow> (\<forall>k < n. bus_mapped bus (a + of_nat k))"

text \<open>A volatile load or store of \<open>n\<close> bytes at the base address plus a 32-bit offset.\<close>

definition mmio_load ::
  "'h bus \<Rightarrow> nat \<Rightarrow> (u64 \<Rightarrow> 'h \<Rightarrow> 'v \<times> 'h) \<Rightarrow> int \<Rightarrow> u32 \<Rightarrow> 'h platform \<Rightarrow> ('v \<times> 'h platform) option" where
  "mmio_load bus n rd handle offset p = do {
     base \<leftarrow> fpga_uio_get_base_address handle p;
     if mapped_bytes bus (base + ucast offset) n
     then (let (v, d) = rd (base + ucast offset) (device p) in Some (v, p\<lparr>device := d\<rparr>))
     else None
   }"

definition mmio_store ::
  "'h bus \<Rightarrow> nat \<Rightarrow> (u64 \<Rightarrow> 'v \<Rightarrow> 'h \<Rightarrow> 'h) \<Rightarrow> int \<Rightarrow> u32 \<Rightarrow> 'v \<Rightarrow> 'h platform \<Rightarrow> 'h platform option" where
  "mmio_store bus n wr handle offset v p = do {
     base \<leftarrow> fpga_uio_get_base_address handle p;
     if mapped_bytes bus (base + ucast offset) n
     then Some (p\<lparr>device := wr (base + ucast offset) v (device p)\<rparr>)
     else None
   }"

lemma mapped_everywhere [simp]: "bus_mapped bus = (\<lambda>a. True) \<Longrightarrow> mapped_bytes bus a n"
  by (simp add: mapped_bytes_def)

text \<open>A part of a mapped region is mapped.\<close>

lemma mapped_bytes_within:
  assumes "mapped_bytes bus base n" and "unat (a :: u32) + k \<le> n"
  shows "mapped_bytes bus (base + ucast a) k"
  unfolding mapped_bytes_def
proof (intro allI impI)
  fix i
  assume "i < k"
  moreover have "(ucast a :: u64) = of_nat (unat a)" by simp
  ultimately show "bus_mapped bus (base + ucast a + of_nat i)"
    using assms(1) [unfolded mapped_bytes_def, rule_format, of "unat a + i"] assms(2) by (simp add: ac_simps)
qed

definition fpga_read_8 :: "'h bus \<Rightarrow> int \<Rightarrow> u32 \<Rightarrow> 'h platform \<Rightarrow> (u8 \<times> 'h platform) option" where
  "fpga_read_8 bus handle offset p = mmio_load bus 1 (bus_rd8 bus) handle offset p"

definition fpga_write_8 :: "'h bus \<Rightarrow> int \<Rightarrow> u32 \<Rightarrow> u8 \<Rightarrow> 'h platform \<Rightarrow> 'h platform option" where
  "fpga_write_8 bus handle offset v p = mmio_store bus 1 (bus_wr8 bus) handle offset v p"

definition fpga_read_16 :: "'h bus \<Rightarrow> int \<Rightarrow> u32 \<Rightarrow> 'h platform \<Rightarrow> (u16 \<times> 'h platform) option" where
  "fpga_read_16 bus handle offset p = mmio_load bus 2 (bus_rd16 bus) handle offset p"

definition fpga_write_16 :: "'h bus \<Rightarrow> int \<Rightarrow> u32 \<Rightarrow> u16 \<Rightarrow> 'h platform \<Rightarrow> 'h platform option" where
  "fpga_write_16 bus handle offset v p = mmio_store bus 2 (bus_wr16 bus) handle offset v p"

definition fpga_read_32 :: "'h bus \<Rightarrow> int \<Rightarrow> u32 \<Rightarrow> 'h platform \<Rightarrow> (u32 \<times> 'h platform) option" where
  "fpga_read_32 bus handle offset p = mmio_load bus 4 (bus_rd32 bus) handle offset p"

definition fpga_write_32 :: "'h bus \<Rightarrow> int \<Rightarrow> u32 \<Rightarrow> u32 \<Rightarrow> 'h platform \<Rightarrow> 'h platform option" where
  "fpga_write_32 bus handle offset v p = mmio_store bus 4 (bus_wr32 bus) handle offset v p"

definition fpga_read_64 :: "'h bus \<Rightarrow> int \<Rightarrow> u32 \<Rightarrow> 'h platform \<Rightarrow> (u64 \<times> 'h platform) option" where
  "fpga_read_64 bus handle offset p = mmio_load bus 8 (bus_rd64 bus) handle offset p"

definition fpga_write_64 :: "'h bus \<Rightarrow> int \<Rightarrow> u32 \<Rightarrow> u64 \<Rightarrow> 'h platform \<Rightarrow> 'h platform option" where
  "fpga_write_64 bus handle offset v p = mmio_store bus 8 (bus_wr64 bus) handle offset v p"

text \<open>
  The other branch of \<open>FPGA_PLATFORM_FORCE_64BIT_MMIO_EMULATION_WITH_32BIT\<close>.
\<close>

definition fpga_read_64_emulated ::
  "'h bus \<Rightarrow> int \<Rightarrow> u32 \<Rightarrow> 'h platform \<Rightarrow> (u64 \<times> 'h platform) option" where
  "fpga_read_64_emulated bus handle offset p = do {
     (lo, p1) \<leftarrow> fpga_read_32 bus handle offset p;
     (hi, p2) \<leftarrow> fpga_read_32 bus handle (offset + 4) p1;
     Some (ucast lo OR push_bit 32 (ucast hi), p2)
   }"

definition fpga_write_64_emulated ::
  "'h bus \<Rightarrow> int \<Rightarrow> u32 \<Rightarrow> u64 \<Rightarrow> 'h platform \<Rightarrow> 'h platform option" where
  "fpga_write_64_emulated bus handle offset v p = do {
     p1 \<leftarrow> fpga_write_32 bus handle offset (ucast v) p;
     fpga_write_32 bus handle (offset + 4) (ucast (drop_bit 32 v)) p1
   }"

text \<open>
  The 512-bit accesses: a loop of eight 64-bit ones, \<open>pos\<close> the position of \<open>value\<close> in its
  buffer and \<open>n\<close> the iterations that are left.
\<close>

fun read_512_loop ::
  "'h bus \<Rightarrow> int \<Rightarrow> nat \<Rightarrow> u32 \<Rightarrow> nat \<Rightarrow> u8 list \<Rightarrow> 'h platform \<Rightarrow> (u8 list \<times> 'h platform) option" where
  "read_512_loop bus handle 0 offset pos value p = Some (value, p)"
| "read_512_loop bus handle (Suc n) offset pos value p = do {
     (w, p1) \<leftarrow> fpga_read_64 bus handle offset p;
     value1 \<leftarrow> store_at pos (le_bytes 8 w) value;
     read_512_loop bus handle n (offset + 8) (pos + 8) value1 p1
   }"

definition fpga_read_512 ::
  "'h bus \<Rightarrow> int \<Rightarrow> u32 \<Rightarrow> u8 list \<Rightarrow> 'h platform \<Rightarrow> (u8 list \<times> 'h platform) option" where
  "fpga_read_512 bus handle offset value p = read_512_loop bus handle (512 div 64) offset 0 value p"

text \<open>The 64-bit word at a position of a host buffer.\<close>

definition host_word :: "nat \<Rightarrow> u8 list \<Rightarrow> u64 option" where
  "host_word pos value =
     (if pos + 8 \<le> length value then Some (le_word (take 8 (drop pos value))) else None)"

fun write_512_loop ::
  "'h bus \<Rightarrow> int \<Rightarrow> nat \<Rightarrow> u32 \<Rightarrow> nat \<Rightarrow> u8 list \<Rightarrow> 'h platform \<Rightarrow> 'h platform option" where
  "write_512_loop bus handle 0 offset pos value p = Some p"
| "write_512_loop bus handle (Suc n) offset pos value p = do {
     w \<leftarrow> host_word pos value;
     p1 \<leftarrow> fpga_write_64 bus handle offset w p;
     write_512_loop bus handle n (offset + 8) (pos + 8) value p1
   }"

definition fpga_write_512 ::
  "'h bus \<Rightarrow> int \<Rightarrow> u32 \<Rightarrow> u8 list \<Rightarrow> 'h platform \<Rightarrow> 'h platform option" where
  "fpga_write_512 bus handle offset value p = write_512_loop bus handle (512 div 64) offset 0 value p"

section \<open>Plain memory as the device\<close>

type_synonym ram = "u64 \<Rightarrow> u8"

definition ram_bytes :: "nat \<Rightarrow> u64 \<Rightarrow> ram \<Rightarrow> u8 list" where
  "ram_bytes n a m = map (\<lambda>k. m (a + of_nat k)) [0..<n]"

fun ram_store :: "u64 \<Rightarrow> u8 list \<Rightarrow> ram \<Rightarrow> ram" where
  "ram_store a [] m = m"
| "ram_store a (b # bs) m = ram_store (a + 1) bs (m(a := b))"

definition ram_bus :: "ram bus" where
  "ram_bus =
     \<lparr>bus_mapped = \<lambda>a. True, bus_rd8 = \<lambda>a m. (le_word (ram_bytes 1 a m), m),
      bus_rd16 = \<lambda>a m. (le_word (ram_bytes 2 a m), m),
      bus_rd32 = \<lambda>a m. (le_word (ram_bytes 4 a m), m),
      bus_rd64 = \<lambda>a m. (le_word (ram_bytes 8 a m), m),
      bus_wr8 = \<lambda>a v. ram_store a (le_bytes 1 v),
      bus_wr16 = \<lambda>a v. ram_store a (le_bytes 2 v),
      bus_wr32 = \<lambda>a v. ram_store a (le_bytes 4 v),
      bus_wr64 = \<lambda>a v. ram_store a (le_bytes 8 v)\<rparr>"

lemma ram_bus_mapped [simp]: "bus_mapped ram_bus = (\<lambda>a. True)"
  by (simp add: ram_bus_def)

lemma length_ram_bytes [simp]: "length (ram_bytes n a m) = n"
  by (simp add: ram_bytes_def)

lemma ram_bytes_Suc: "ram_bytes (Suc n) a m = m a # ram_bytes n (a + 1) m"
  unfolding ram_bytes_def map_upt_Suc by (simp add: ac_simps)

lemma ram_bytes_add: "ram_bytes (k + n) a m = ram_bytes k a m @ ram_bytes n (a + of_nat k) m"
proof (induction k arbitrary: a)
  case 0
  then show ?case by (simp add: ram_bytes_def)
next
  case (Suc k)
  then show ?case by (simp add: ram_bytes_Suc ac_simps)
qed

lemma ram_store_append: "ram_store a (bs @ cs) m = ram_store (a + of_nat (length bs)) cs (ram_store a bs m)"
  by (induction bs arbitrary: a m) (simp_all add: ac_simps)

text \<open>A store changes the cells of its range and no other.\<close>

lemma ram_store_outside:
  assumes "\<And>k. k < length bs \<Longrightarrow> c \<noteq> a + of_nat k"
  shows "ram_store a bs m c = m c"
  using assms
proof (induction bs arbitrary: a m)
  case Nil
  then show ?case by simp
next
  case (Cons b bs)
  have "ram_store (a + 1) bs (m(a := b)) c = (m(a := b)) c"
    using Cons.prems [of "Suc k" for k] by (intro Cons.IH) (simp add: ac_simps)
  with Cons.prems [of 0] show ?case by simp
qed

lemma of_nat_neq_word: "k < 2 ^ LENGTH('a) \<Longrightarrow> 0 < k \<Longrightarrow> (of_nat k :: 'a::len word) \<noteq> 0"
  by (auto simp: word_of_nat_eq_0_iff dest: dvd_imp_le)

lemma ram_bytes_store:
  assumes "length bs < 2 ^ 64"
  shows "ram_bytes (length bs) a (ram_store a bs m) = bs"
  using assms
proof (induction bs arbitrary: a m)
  case Nil
  then show ?case by (simp add: ram_bytes_def)
next
  case (Cons b bs)
  have "ram_store (a + 1) bs (m(a := b)) a = (m(a := b)) a"
  proof (rule ram_store_outside)
    fix k
    assume "k < length bs"
    with Cons.prems have "(of_nat (Suc k) :: u64) \<noteq> 0"
      by (intro of_nat_neq_word) simp_all
    then show "a \<noteq> a + 1 + of_nat k" by (simp add: ac_simps)
  qed
  with Cons show ?case by (simp add: ram_bytes_Suc)
qed

lemma ram_bytes_other:
  assumes "\<And>k l. k < n \<Longrightarrow> l < length bs \<Longrightarrow> b + of_nat k \<noteq> a + of_nat l"
  shows "ram_bytes n b (ram_store a bs m) = ram_bytes n b m"
  unfolding ram_bytes_def by (rule map_cong [OF refl]) (use assms in \<open>auto intro!: ram_store_outside\<close>)

section \<open>The contract of a word memory\<close>

text \<open>
  \<open>word_at a p\<close> is the 64-bit word behind the offset \<open>a\<close>. At an offset whose
  word ends within the 32 bits of an offset, a read returns it and changes nothing, and a write
  replaces it and leaves the words alone that share no byte with it.
\<close>

definition fits :: "u32 \<Rightarrow> bool" where
  "fits a \<longleftrightarrow> unat a + 8 \<le> 2 ^ 32"

definition apart :: "u32 \<Rightarrow> u32 \<Rightarrow> bool" where
  "apart a b \<longleftrightarrow> unat a + 8 \<le> unat b \<or> unat b + 8 \<le> unat a"

locale word_memory =
  fixes get :: "u32 \<Rightarrow> 'p \<Rightarrow> (u64 \<times> 'p) option"
    and put :: "u32 \<Rightarrow> u64 \<Rightarrow> 'p \<Rightarrow> 'p option"
    and word_at :: "u32 \<Rightarrow> 'p \<Rightarrow> u64"
    and inv :: "'p \<Rightarrow> bool"
  assumes get_word: "inv p \<Longrightarrow> fits a \<Longrightarrow> get a p = Some (word_at a p, p)"
    and put_word: "inv p \<Longrightarrow> fits a \<Longrightarrow>
      \<exists>p'. put a w p = Some p' \<and> inv p' \<and> word_at a p' = w \<and>
           (\<forall>b. fits b \<and> apart a b \<longrightarrow> word_at b p' = word_at b p)"
begin

text \<open>Consecutive words.\<close>

primrec put_words :: "u32 \<Rightarrow> u64 list \<Rightarrow> 'p \<Rightarrow> 'p option" where
  "put_words a [] p = Some p"
| "put_words a (w # ws) p = do { p' \<leftarrow> put a w p; put_words (a + 8) ws p' }"

primrec get_words :: "u32 \<Rightarrow> nat \<Rightarrow> 'p \<Rightarrow> (u64 list \<times> 'p) option" where
  "get_words a 0 p = Some ([], p)"
| "get_words a (Suc n) p = do {
     (w, p') \<leftarrow> get a p;
     (ws, p'') \<leftarrow> get_words (a + 8) n p';
     Some (w # ws, p'')
   }"

lemma offset_unat:
  assumes "unat (a :: u32) + n < 2 ^ 32"
  shows "unat (a + of_nat n) = unat a + n"
  using assms by (simp add: unat_word_ariths unat_of_nat)

lemma get_words_pure:
  "inv p \<Longrightarrow> unat a + 8 * n \<le> 2 ^ 32 \<Longrightarrow>
     get_words a n p = Some (map (\<lambda>k. word_at (a + 8 * of_nat k) p) [0..<n], p)"
proof (induction n arbitrary: a)
  case 0
  then show ?case by simp
next
  case (Suc n)
  then have a: "fits a" by (simp add: fits_def)
  show ?case
  proof (cases n)
    case 0
    with a Suc.prems show ?thesis by (simp add: get_word)
  next
    case (Suc m)
    with Suc.prems have "unat (a + of_nat 8) = unat a + 8"
      by (intro offset_unat) simp
    then have "unat (a + 8) = unat a + 8" by simp
    with a Suc.prems Suc.IH [of "a + 8"] show ?thesis
      unfolding map_upt_Suc by (simp add: get_word algebra_simps)
  qed
qed

lemma put_words_below:
  assumes "inv p" and "unat a + 8 * length ws \<le> 2 ^ 32" and "unat b + 8 \<le> unat a"
  shows "\<exists>p'. put_words a ws p = Some p' \<and> inv p' \<and> word_at b p' = word_at b p"
  using assms
proof (induction ws arbitrary: a p)
  case Nil
  then show ?case by simp
next
  case (Cons w ws)
  from Cons.prems have "fits a" by (simp add: fits_def)
  with put_word [OF Cons.prems(1), of a w] obtain p1 where
    p1: "put a w p = Some p1" "inv p1"
      "\<forall>b. fits b \<and> apart a b \<longrightarrow> word_at b p1 = word_at b p"
    by blast
  have b: "word_at b p1 = word_at b p"
    using p1(3) Cons.prems(2,3) by (simp add: apart_def fits_def)
  show ?case
  proof (cases ws)
    case Nil
    with p1 b show ?thesis by simp
  next
    case (Cons w' ws')
    then have "unat (a + of_nat 8) = unat a + 8"
      using Cons.prems by (intro offset_unat) simp
    then have "unat (a + 8) = unat a + 8" by simp
    with Cons.IH [of p1 "a + 8"] p1 b Cons.prems show ?thesis by simp
  qed
qed

text \<open>A block of words that was written is read back.\<close>

lemma put_get_words:
  assumes "inv p" and "unat a + 8 * length ws \<le> 2 ^ 32"
  shows "\<exists>p'. put_words a ws p = Some p' \<and> inv p' \<and> get_words a (length ws) p' = Some (ws, p')"
  using assms
proof (induction ws arbitrary: a p)
  case Nil
  then show ?case by simp
next
  case (Cons w ws)
  from Cons.prems have "fits a" by (simp add: fits_def)
  with put_word [OF Cons.prems(1), of a w] obtain p1 where
    p1: "put a w p = Some p1" "inv p1" "word_at a p1 = w"
    by blast
  show ?case
  proof (cases ws)
    case Nil
    with p1 \<open>fits a\<close> show ?thesis by (simp add: get_word)
  next
    case (Cons w' ws')
    then have "unat (a + of_nat 8) = unat a + 8"
      using Cons.prems by (intro offset_unat) simp
    then have a8: "unat (a + 8) = unat a + 8" by simp
    with Cons.IH [of p1 "a + 8"] p1 Cons.prems obtain p2 where
      p2: "put_words (a + 8) ws p1 = Some p2" "inv p2"
        "get_words (a + 8) (length ws) p2 = Some (ws, p2)"
      by auto
    moreover have "word_at a p2 = w"
      using put_words_below [of p1 "a + 8" ws a] p1 p2 a8 Cons.prems by auto
    ultimately show ?thesis
      using p1 \<open>fits a\<close> by (simp add: get_word)
  qed
qed

end

section \<open>Memory behind the two 64-bit accesses\<close>

lemma unat_ucast_add:
  assumes "k < 2 ^ 32"
  shows "unat (ucast (a :: u32) + of_nat k :: u64) = unat a + k"
proof -
  have "unat a < 2 ^ 32" using unsigned_less [of a, where ?'a = nat] by simp
  with assms show ?thesis
    by (subst unat_add_below) (simp_all add: unat_of_nat)
qed

lemma ranges_disjoint:
  assumes "unat a + m \<le> unat b \<or> unat b + n \<le> unat a" and "k < n" and "l < m" and "m < 2 ^ 32" "n < 2 ^ 32"
  shows "base + ucast (b :: u32) + of_nat k \<noteq> (base + ucast (a :: u32) + of_nat l :: u64)"
proof
  assume "base + ucast b + of_nat k = (base + ucast a + of_nat l :: u64)"
  then have "(ucast b + of_nat k :: u64) = ucast a + of_nat l"
    by (simp add: add.assoc)
  then have "unat (ucast b + of_nat k :: u64) = unat (ucast a + of_nat l :: u64)"
    by (simp only:)
  moreover have "unat (ucast b + of_nat k :: u64) = unat b + k"
    and "unat (ucast a + of_nat l :: u64) = unat a + l"
    using assms by (simp_all only: unat_ucast_add less_trans)
  ultimately show False
    using assms by linarith
qed

lemma ram_bytes_apart:
  assumes "unat a + length bs \<le> unat b \<or> unat b + n \<le> unat a" and "length bs < 2 ^ 32" "n < 2 ^ 32"
  shows "ram_bytes n (base + ucast (b :: u32)) (ram_store (base + ucast (a :: u32)) bs m) = ram_bytes n (base + ucast b) m"
proof (rule ram_bytes_other)
  fix k l
  assume "k < n" and "l < length bs"
  then show "base + ucast b + of_nat k \<noteq> base + ucast a + of_nat l"
    by (intro ranges_disjoint [of _ "length bs" _ n]) (use assms in auto)
qed

definition ram_word :: "u64 \<Rightarrow> u32 \<Rightarrow> ram platform \<Rightarrow> u64" where
  "ram_word base a p = le_word (ram_bytes 8 (base + ucast a) (device p))"

lemma base_address_device [simp]:
  "fpga_uio_get_base_address h (p\<lparr>device := d\<rparr>) = fpga_uio_get_base_address h p"
  by (simp add: fpga_uio_get_base_address_def)

interpretation native: word_memory "fpga_read_64 ram_bus h" "fpga_write_64 ram_bus h"
  "ram_word base" "\<lambda>p. fpga_uio_get_base_address h p = Some base"
proof
  fix p :: "ram platform" and a and w :: u64
  assume p: "fpga_uio_get_base_address h p = Some base"
  then show "fpga_read_64 ram_bus h a p = Some (ram_word base a p, p)"
    by (simp add: fpga_read_64_def mmio_load_def ram_bus_def ram_word_def)
  let ?m = "ram_store (base + ucast a) (le_bytes 8 w) (device p)"
  have "fpga_write_64 ram_bus h a w p = Some (p\<lparr>device := ?m\<rparr>)"
    using p by (simp add: fpga_write_64_def mmio_store_def ram_bus_def)
  moreover have "ram_word base a (p\<lparr>device := ?m\<rparr>) = w"
    using ram_bytes_store [of "le_bytes 8 w" "base + ucast a" "device p"]
    by (simp add: ram_word_def)
  moreover have "ram_word base b (p\<lparr>device := ?m\<rparr>) = ram_word base b p" if "apart a b" for b
    using that ram_bytes_apart [of a "le_bytes 8 w" b 8 base "device p"]
    by (simp add: ram_word_def apart_def)
  ultimately show "\<exists>p'. fpga_write_64 ram_bus h a w p = Some p' \<and>
      fpga_uio_get_base_address h p' = Some base \<and> ram_word base a p' = w \<and>
      (\<forall>b. fits b \<and> apart a b \<longrightarrow> ram_word base b p' = ram_word base b p)"
    using p by auto
qed

text \<open>On memory the emulation is the native access, for a word that does not wrap around.\<close>

lemma le_word_append:
  assumes "8 * length bs < LENGTH('a::len)"
  shows "(le_word (bs @ cs) :: 'a word) = le_word bs OR push_bit (8 * length bs) (le_word cs)"
  using assms
proof (induction bs)
  case Nil
  then show ?case by simp
next
  case (Cons b bs)
  then show ?case by (simp add: push_bit_or or.assoc ac_simps flip: push_bit_push_bit)
qed

lemma ucast_le_word_4:
  assumes "length bs = 4"
  shows "ucast (le_word bs :: u32) = (le_word bs :: u64)"
  by (rule bit_word_eqI) (use assms in \<open>auto simp: bit_ucast_iff bit_le_word\<close>)

lemma offset_plus_4:
  assumes "fits a"
  shows "base + ucast (a + 4 :: u32) = (base + ucast a + 4 :: u64)"
proof -
  have "unat (a + 4) = unat a + 4"
    using assms by (subst unat_add_below) (simp_all add: fits_def)
  then have "unat (ucast (a + 4) :: u64) = unat (ucast a + of_nat 4 :: u64)"
    using unat_ucast_add [of 4 a] by simp
  then have "(ucast (a + 4) :: u64) = ucast a + of_nat 4"
    by (simp only: word_unat_eq_iff)
  then show ?thesis by (simp add: add.assoc)
qed

lemma read_64_emulated_ram:
  assumes "fits a"
  shows "fpga_read_64_emulated ram_bus h a p = fpga_read_64 ram_bus h a p"
proof -
  have "(le_word (ram_bytes 8 (base + ucast a) m) :: u64) =
      ucast (le_word (ram_bytes 4 (base + ucast a) m) :: u32) OR
      push_bit 32 (ucast (le_word (ram_bytes 4 (base + ucast a + 4) m) :: u32))" for base m
    using ram_bytes_add [of 4 4 "base + ucast a" m] by (simp add: ucast_le_word_4 le_word_append)
  then show ?thesis
    using assms
    by (auto simp: fpga_read_64_emulated_def fpga_read_64_def fpga_read_32_def mmio_load_def
        ram_bus_def offset_plus_4 split: bind_splits)
qed

lemma le_bytes_4_4:
  "le_bytes 4 (ucast (w :: u64) :: u32) @ le_bytes 4 (ucast (drop_bit 32 w) :: u32) = le_bytes 8 w"
  using le_bytes_add [of 4 4 w] by (simp add: le_bytes_ucast)

lemma write_64_emulated_ram:
  assumes "fits a"
  shows "fpga_write_64_emulated ram_bus h a w p = fpga_write_64 ram_bus h a w p"
proof -
  have "ram_store (base + ucast a + 4) (le_bytes 4 (ucast (drop_bit 32 w) :: u32))
      (ram_store (base + ucast a) (le_bytes 4 (ucast w :: u32)) m) =
    ram_store (base + ucast a) (le_bytes 8 w) m" for base m
    using ram_store_append [of "base + ucast a" "le_bytes 4 (ucast w :: u32)"
        "le_bytes 4 (ucast (drop_bit 32 w) :: u32)" m] by (simp add: le_bytes_4_4)
  then show ?thesis
    using assms
    by (auto simp: fpga_write_64_emulated_def fpga_write_64_def fpga_write_32_def mmio_store_def
        ram_bus_def offset_plus_4 split: bind_splits)
qed

interpretation emulated: word_memory "fpga_read_64_emulated ram_bus h"
  "fpga_write_64_emulated ram_bus h" "ram_word base"
  "\<lambda>p. fpga_uio_get_base_address h p = Some base"
proof
  fix p :: "ram platform" and a and w :: u64
  assume p: "fpga_uio_get_base_address h p = Some base" and a: "fits a"
  then show "fpga_read_64_emulated ram_bus h a p = Some (ram_word base a p, p)"
    by (simp add: read_64_emulated_ram native.get_word)
  show "\<exists>p'. fpga_write_64_emulated ram_bus h a w p = Some p' \<and>
      fpga_uio_get_base_address h p' = Some base \<and> ram_word base a p' = w \<and>
      (\<forall>b. fits b \<and> apart a b \<longrightarrow> ram_word base b p' = ram_word base b p)"
    using native.put_word [OF p a] by (simp add: write_64_emulated_ram a)
qed

text \<open>The 512-bit accesses are blocks of eight words.\<close>

lemma host_word_le_bytes:
  "host_word (length xs) (xs @ le_bytes 8 w @ ys) = Some w"
  by (simp add: host_word_def)

lemma write_512_words:
  "write_512_loop ram_bus h (length ws) a (length xs) (xs @ concat (map (le_bytes 8) ws) @ ys) p =
     native.put_words h a ws p"
proof (induction ws arbitrary: a xs p)
  case Nil
  then show ?case by simp
next
  case (Cons w ws)
  have "write_512_loop ram_bus h (length ws) (a + 8) (length xs + 8)
      (xs @ le_bytes 8 w @ concat (map (le_bytes 8) ws) @ ys) p' = native.put_words h (a + 8) ws p'" for p'
    using Cons.IH [of "a + 8" "xs @ le_bytes 8 w" p'] by simp
  then show ?case
    by (cases "fpga_write_64 ram_bus h a w p") (simp_all add: host_word_le_bytes)
qed

lemma read_512_words:
  assumes "native.get_words h a n p = Some (ws, p')" and "length old = 8 * n"
  shows "read_512_loop ram_bus h n a (length xs) (xs @ old @ ys) p =
    Some (xs @ concat (map (le_bytes 8) ws) @ ys, p')"
  using assms
proof (induction n arbitrary: a p ws xs old)
  case 0
  then show ?case by simp
next
  case (Suc n)
  then obtain w p1 ws' where w: "fpga_read_64 ram_bus h a p = Some (w, p1)"
    and ws': "native.get_words h (a + 8) n p1 = Some (ws', p')" and ws: "ws = w # ws'"
    by (auto split: bind_splits)
  have "store_at (length xs) (le_bytes 8 w) (xs @ old @ ys) = Some (xs @ le_bytes 8 w @ drop 8 old @ ys)"
    using Suc.prems by (simp add: store_at_def)
  moreover have "read_512_loop ram_bus h n (a + 8) (length xs + 8)
      (xs @ le_bytes 8 w @ drop 8 old @ ys) p1 =
    Some (xs @ le_bytes 8 w @ concat (map (le_bytes 8) ws') @ ys, p')"
    using Suc.IH [OF ws', of "drop 8 old" "xs @ le_bytes 8 w"] Suc.prems by simp
  ultimately show ?case
    using w ws by simp
qed

lemma bytes_as_words:
  assumes "length bs = 8 * n"
  shows "\<exists>ws. length ws = n \<and> bs = concat (map (le_bytes 8) (ws :: u64 list))"
  using assms
proof (induction n arbitrary: bs)
  case 0
  then show ?case by simp
next
  case (Suc n)
  from Suc.prems have "length (drop 8 bs) = 8 * n" by simp
  from Suc.IH [OF this] obtain ws :: "u64 list" where
    ws: "length ws = n" "drop 8 bs = concat (map (le_bytes 8) ws)" by blast
  have "le_bytes 8 (le_word (take 8 bs) :: u64) = take 8 bs"
    using Suc.prems by (intro le_bytes_le_word) auto
  with ws have "bs = concat (map (le_bytes 8) (le_word (take 8 bs) # ws))"
    by (simp flip: ws(2))
  with ws(1) show ?case by (intro exI [of _ "le_word (take 8 bs) # ws"]) simp
qed

text \<open>A block written to memory and read back, for any number of 64-bit transfers.\<close>

lemma block_write_read:
  assumes p: "fpga_uio_get_base_address h p = Some base"
    and "unat a + 8 * n \<le> 2 ^ 32" and "length bs = 8 * n" and "length old = 8 * n"
  shows "\<exists>p'. write_512_loop ram_bus h n a 0 (bs @ rest) p = Some p' \<and>
    fpga_uio_get_base_address h p' = Some base \<and>
    read_512_loop ram_bus h n a 0 (old @ ys) p' = Some (bs @ ys, p')"
proof -
  from bytes_as_words [OF assms(3)] obtain ws :: "u64 list" where
    ws: "length ws = n" "bs = concat (map (le_bytes 8) ws)" by blast
  from native.put_get_words [OF p, of a ws] assms(2) ws obtain p' where
    p': "native.put_words h a ws p = Some p'" "fpga_uio_get_base_address h p' = Some base"
      "native.get_words h a n p' = Some (ws, p')" by auto
  then show ?thesis
    using write_512_words [of h ws a "[]" rest p] ws
      read_512_words [OF p'(3) assms(4), of "[]" ys] by simp
qed

section \<open>Properties\<close>

text \<open>
  C40. On memory, the 64-bit access emulated by two 32-bit accesses does what the native one
  does, for every offset whose word lies within the 32 bits of an offset.
\<close>

theorem emulated_access_equals_native:
  assumes "unat a + 8 \<le> 2 ^ 32"
  shows "fpga_read_64_emulated ram_bus h a p = fpga_read_64 ram_bus h a p \<and>
    fpga_write_64_emulated ram_bus h a w p = fpga_write_64 ram_bus h a w p"
  using read_64_emulated_ram write_64_emulated_ram assms by (simp_all add: fits_def)

lemma emulated_access_equals_native_witness:
  "\<forall>p h. fpga_read_64_emulated ram_bus h 0x100 p = fpga_read_64 ram_bus h 0x100 p"
  using emulated_access_equals_native [of "0x100"] by simp

text \<open>
  On memory, the 64 bytes written by \<open>fpga_write_512\<close> are the bytes \<open>fpga_read_512\<close> reads
  back, and reading changes nothing; the bytes behind the 64 of the reader's buffer are kept.
\<close>

theorem access_512_roundtrip:
  assumes "fpga_uio_get_base_address h p = Some base" and "unat a + 64 \<le> 2 ^ 32"
    and "64 \<le> length value" and "64 \<le> length buff"
  shows "\<exists>p'. fpga_write_512 ram_bus h a value p = Some p' \<and>
    fpga_read_512 ram_bus h a buff p' = Some (take 64 value @ drop 64 buff, p')"
  using block_write_read [OF assms(1), of a 8 "take 64 value" "take 64 buff" "drop 64 value" "drop 64 buff"]
    assms(2-4)
  by (auto simp: fpga_write_512_def fpga_read_512_def)

lemma access_512_roundtrip_witness:
  "\<exists>p'. fpga_write_512 ram_bus 0 0x40 (replicate 64 7)
      \<lparr>interfaces = \<lparr>vec_elems = [zero_info], vec_size = 1\<rparr>, device = (\<lambda>_. 255)\<rparr> = Some p' \<and>
    fpga_read_512 ram_bus 0 0x40 (replicate 65 1) p' = Some (replicate 64 7 @ [1], p')"
  using access_512_roundtrip
    [of 0 "\<lparr>interfaces = \<lparr>vec_elems = [zero_info], vec_size = 1\<rparr>, device = (\<lambda>_. 255)\<rparr>" 0 "0x40"
       "replicate 64 7" "replicate 65 1"]
  by (simp add: fpga_uio_get_base_address_def vec_at_def handle_index_def zero_info_def)

end
