(* ===== verification/Common.thy ===== *)
theory Common
  imports CBase
begin

text \<open>
  The code shared by every part of the streaming server:
  \<^verbatim>\<open>streaming/inc/intel_st_debug_if_common.h\<close>, \<^verbatim>\<open>streaming/src/intel_st_debug_if_common.c\<close>
  and the protocol constants of \<^verbatim>\<open>streaming/src/intel_st_debug_if_constants.c\<close>.
  The lemmas show that the declared lengths are those of the strings, what \<open>zero_mem\<close>
  clears, that a handle message is read back by \<open>parse_handle_id\<close>, and when the random
  identifier is found.
\<close>

section \<open>Return codes\<close>

text \<open>
  The enumeration. The code also stores the \<open>int\<close> result of a driver callback in a variable
  of this type; \<open>Other_rc\<close> stands for a value that is none of the enumerators.
\<close>

datatype RETURN_CODE = OK | FAILURE | INIT_ERR | Other_rc int

definition return_code_of_int :: "int \<Rightarrow> RETURN_CODE" where
  "return_code_of_int i =
     (if i = 0 then OK else if i = 1 then FAILURE else if i = 2 then INIT_ERR else Other_rc i)"

lemma return_code_of_int_0 [simp]: "return_code_of_int 0 = OK"
  by (simp add: return_code_of_int_def)

section \<open>Protocol constants\<close>

definition SERVER_SOCK_NAME :: "u8 list" where "SERVER_SOCK_NAME = lit ''Server''"
definition CONTROL_SOCK_NAME :: "u8 list" where "CONTROL_SOCK_NAME = lit ''Control''"
definition MANAGEMENT_SOCK_NAME :: "u8 list" where "MANAGEMENT_SOCK_NAME = lit ''Management''"
definition MANAGEMENT_RSP_SOCK_NAME :: "u8 list" where
  "MANAGEMENT_RSP_SOCK_NAME = lit ''Management Response''"
definition H2T_SOCK_NAME :: "u8 list" where "H2T_SOCK_NAME = lit ''H2T''"
definition T2H_SOCK_NAME :: "u8 list" where "T2H_SOCK_NAME = lit ''T2H''"

text \<open>Server control messages.\<close>

definition READY_MSG :: "u8 list" where "READY_MSG = lit ''READY''"
definition READY_MSG_LEN :: nat where "READY_MSG_LEN = 6"
definition NOT_READY_MSG :: "u8 list" where "NOT_READY_MSG = lit ''NOT_READY''"
definition NOT_READY_MSG_LEN :: nat where "NOT_READY_MSG_LEN = 10"
definition REJECT_MSG :: "u8 list" where "REJECT_MSG = lit ''SERVER_BUSY''"
definition REJECT_MSG_LEN :: nat where "REJECT_MSG_LEN = 12"

text \<open>Control commands.\<close>

definition PING_CMD :: "u8 list" where "PING_CMD = lit ''PING''"
definition PING_CMD_LEN :: nat where "PING_CMD_LEN = 5"
definition GET_PARAM_CMD :: "u8 list" where "GET_PARAM_CMD = lit ''GET_PARAM''"
definition GET_PARAM_CMD_LEN :: nat where "GET_PARAM_CMD_LEN = 10"
definition DISCONNECT_CMD :: "u8 list" where "DISCONNECT_CMD = lit ''DISCONNECT''"
definition DISCONNECT_CMD_LEN :: nat where "DISCONNECT_CMD_LEN = 11"
definition SET_PARAM_CMD :: "u8 list" where "SET_PARAM_CMD = lit ''SET_PARAM''"
definition SET_PARAM_CMD_LEN :: nat where "SET_PARAM_CMD_LEN = 10"
definition MAX_DRIVER_PARAM_VALUE_LEN :: nat where "MAX_DRIVER_PARAM_VALUE_LEN = 256"
definition SET_DRIVER_PARAM_CMD :: "u8 list" where "SET_DRIVER_PARAM_CMD = lit ''SET_DRIVER_PARAM''"
definition SET_DRIVER_PARAM_CMD_LEN :: nat where "SET_DRIVER_PARAM_CMD_LEN = 17"
definition GET_DRIVER_PARAM_CMD :: "u8 list" where "GET_DRIVER_PARAM_CMD = lit ''GET_DRIVER_PARAM''"
definition GET_DRIVER_PARAM_CMD_LEN :: nat where "GET_DRIVER_PARAM_CMD_LEN = 17"

text \<open>Control command responses.\<close>

definition UNRECOGNIZED_CMD_RSP :: "u8 list" where
  "UNRECOGNIZED_CMD_RSP = lit ''UNRECOGNIZED_COMMAND''"
definition UNRECOGNIZED_CMD_RSP_LEN :: nat where "UNRECOGNIZED_CMD_RSP_LEN = 21"
definition PING_CMD_RSP :: "u8 list" where "PING_CMD_RSP = lit ''PONG''"
definition PING_CMD_RSP_LEN :: nat where "PING_CMD_RSP_LEN = 5"
definition SET_PARAM_CMD_RSP :: "u8 list" where "SET_PARAM_CMD_RSP = lit ''SET_PARAM_ACK''"
definition SET_PARAM_CMD_RSP_LEN :: nat where "SET_PARAM_CMD_RSP_LEN = 14"
definition SET_PARAM_CMD_FAIL_RSP :: "u8 list" where
  "SET_PARAM_CMD_FAIL_RSP = lit ''SET_PARAM_FAIL_ACK''"
definition SET_PARAM_CMD_FAIL_RSP_LEN :: nat where "SET_PARAM_CMD_FAIL_RSP_LEN = 19"
definition GET_PARAM_CMD_FAIL_RSP :: "u8 list" where
  "GET_PARAM_CMD_FAIL_RSP = lit ''GET_PARAM_FAILURE''"
definition GET_PARAM_CMD_FAIL_RSP_LEN :: nat where "GET_PARAM_CMD_FAIL_RSP_LEN = 18"
definition DISCONNECT_CMD_RSP :: "u8 list" where "DISCONNECT_CMD_RSP = lit ''DISCONNECT_ACK''"
definition DISCONNECT_CMD_RSP_LEN :: nat where "DISCONNECT_CMD_RSP_LEN = 15"

text \<open>Server control parameters.\<close>

definition MAX_SERVER_PARAM_VALUE_LEN :: nat where "MAX_SERVER_PARAM_VALUE_LEN = 256"
definition SERVER_LOOPBACK_MODE_PARAM :: "u8 list" where
  "SERVER_LOOPBACK_MODE_PARAM = lit ''SERVER_LOOPBACK''"
definition SERVER_LOOPBACK_MODE_PARAM_LEN :: nat where "SERVER_LOOPBACK_MODE_PARAM_LEN = 16"
definition H2T_RX_BUFFER_SIZE_PARAM :: "u8 list" where
  "H2T_RX_BUFFER_SIZE_PARAM = lit ''H2T_RX_BUFF_SZ''"
definition H2T_RX_BUFFER_SIZE_PARAM_LEN :: nat where "H2T_RX_BUFFER_SIZE_PARAM_LEN = 15"
definition MGMT_RX_BUFFER_SIZE_PARAM :: "u8 list" where
  "MGMT_RX_BUFFER_SIZE_PARAM = lit ''MGMT_RX_BUFF_SZ''"
definition MGMT_RX_BUFFER_SIZE_PARAM_LEN :: nat where "MGMT_RX_BUFFER_SIZE_PARAM_LEN = 16"
definition CTRL_RX_BUFFER_SIZE_PARAM :: "u8 list" where
  "CTRL_RX_BUFFER_SIZE_PARAM = lit ''CTRL_RX_BUFF_SZ''"
definition CTRL_RX_BUFFER_SIZE_PARAM_LEN :: nat where "CTRL_RX_BUFFER_SIZE_PARAM_LEN = 16"
definition T2H_NAGLE_PARAM :: "u8 list" where "T2H_NAGLE_PARAM = lit ''T2H_NAGLE''"
definition T2H_NAGLE_PARAM_LEN :: nat where "T2H_NAGLE_PARAM_LEN = 10"
definition MGMT_RSP_NAGLE_PARAM :: "u8 list" where "MGMT_RSP_NAGLE_PARAM = lit ''MGMT_RSP_NAGLE''"
definition MGMT_RSP_NAGLE_PARAM_LEN :: nat where "MGMT_RSP_NAGLE_PARAM_LEN = 15"
definition MGMT_SUPPORT_PARAM :: "u8 list" where "MGMT_SUPPORT_PARAM = lit ''MGMT_SUPPORT''"
definition MGMT_SUPPORT_PARAM_LEN :: nat where "MGMT_SUPPORT_PARAM_LEN = 13"

text \<open>\<^verbatim>\<open>intel_st_debug_if_common.h\<close>\<close>

definition HW_LOOPBACK_PARAM :: "u8 list" where "HW_LOOPBACK_PARAM = lit ''#HW_LOOPBACK''"
definition HW_LOOPBACK_PARAM_LEN :: nat where "HW_LOOPBACK_PARAM_LEN = 13"

text \<open>The constants sent as messages or compared as exact words, with their declared lengths.\<close>

definition sized_literals :: "(u8 list \<times> nat) list" where
  "sized_literals =
    [(READY_MSG, READY_MSG_LEN), (NOT_READY_MSG, NOT_READY_MSG_LEN),
     (REJECT_MSG, REJECT_MSG_LEN), (PING_CMD, PING_CMD_LEN),
     (GET_PARAM_CMD, GET_PARAM_CMD_LEN), (DISCONNECT_CMD, DISCONNECT_CMD_LEN),
     (SET_PARAM_CMD, SET_PARAM_CMD_LEN), (SET_DRIVER_PARAM_CMD, SET_DRIVER_PARAM_CMD_LEN),
     (GET_DRIVER_PARAM_CMD, GET_DRIVER_PARAM_CMD_LEN),
     (UNRECOGNIZED_CMD_RSP, UNRECOGNIZED_CMD_RSP_LEN), (PING_CMD_RSP, PING_CMD_RSP_LEN),
     (SET_PARAM_CMD_RSP, SET_PARAM_CMD_RSP_LEN),
     (SET_PARAM_CMD_FAIL_RSP, SET_PARAM_CMD_FAIL_RSP_LEN),
     (GET_PARAM_CMD_FAIL_RSP, GET_PARAM_CMD_FAIL_RSP_LEN),
     (DISCONNECT_CMD_RSP, DISCONNECT_CMD_RSP_LEN),
     (SERVER_LOOPBACK_MODE_PARAM, SERVER_LOOPBACK_MODE_PARAM_LEN),
     (H2T_RX_BUFFER_SIZE_PARAM, H2T_RX_BUFFER_SIZE_PARAM_LEN),
     (MGMT_RX_BUFFER_SIZE_PARAM, MGMT_RX_BUFFER_SIZE_PARAM_LEN),
     (CTRL_RX_BUFFER_SIZE_PARAM, CTRL_RX_BUFFER_SIZE_PARAM_LEN),
     (T2H_NAGLE_PARAM, T2H_NAGLE_PARAM_LEN),
     (MGMT_RSP_NAGLE_PARAM, MGMT_RSP_NAGLE_PARAM_LEN),
     (MGMT_SUPPORT_PARAM, MGMT_SUPPORT_PARAM_LEN),
     (HW_LOOPBACK_PARAM, HW_LOOPBACK_PARAM_LEN)]"

lemmas msg_defs =
  READY_MSG_def NOT_READY_MSG_def REJECT_MSG_def PING_CMD_def GET_PARAM_CMD_def
  DISCONNECT_CMD_def SET_PARAM_CMD_def SET_DRIVER_PARAM_CMD_def GET_DRIVER_PARAM_CMD_def
  UNRECOGNIZED_CMD_RSP_def PING_CMD_RSP_def SET_PARAM_CMD_RSP_def SET_PARAM_CMD_FAIL_RSP_def
  GET_PARAM_CMD_FAIL_RSP_def DISCONNECT_CMD_RSP_def SERVER_LOOPBACK_MODE_PARAM_def
  H2T_RX_BUFFER_SIZE_PARAM_def MGMT_RX_BUFFER_SIZE_PARAM_def CTRL_RX_BUFFER_SIZE_PARAM_def
  T2H_NAGLE_PARAM_def MGMT_RSP_NAGLE_PARAM_def MGMT_SUPPORT_PARAM_def HW_LOOPBACK_PARAM_def

lemmas len_defs =
  READY_MSG_LEN_def NOT_READY_MSG_LEN_def REJECT_MSG_LEN_def PING_CMD_LEN_def
  GET_PARAM_CMD_LEN_def DISCONNECT_CMD_LEN_def SET_PARAM_CMD_LEN_def
  SET_DRIVER_PARAM_CMD_LEN_def GET_DRIVER_PARAM_CMD_LEN_def UNRECOGNIZED_CMD_RSP_LEN_def
  PING_CMD_RSP_LEN_def SET_PARAM_CMD_RSP_LEN_def SET_PARAM_CMD_FAIL_RSP_LEN_def
  GET_PARAM_CMD_FAIL_RSP_LEN_def DISCONNECT_CMD_RSP_LEN_def SERVER_LOOPBACK_MODE_PARAM_LEN_def
  H2T_RX_BUFFER_SIZE_PARAM_LEN_def MGMT_RX_BUFFER_SIZE_PARAM_LEN_def
  CTRL_RX_BUFFER_SIZE_PARAM_LEN_def T2H_NAGLE_PARAM_LEN_def MGMT_RSP_NAGLE_PARAM_LEN_def
  MGMT_SUPPORT_PARAM_LEN_def HW_LOOPBACK_PARAM_LEN_def

lemma sized_literals_fit:
  "list_all (\<lambda>(msg, len). length msg = len \<and> last msg = 0 \<and> 0 \<notin> set (butlast msg)) sized_literals"
  by (simp add: sized_literals_def msg_defs len_defs lit_def str_def)


section \<open>The handle message\<close>

text \<open>The output of the format \<open>"%s HANDLE=%d"\<close>.\<close>

definition handle_text :: "u8 list \<Rightarrow> int \<Rightarrow> u8 list" where
  "handle_text name handle = name @ str '' HANDLE='' @ dec_int handle"

definition generate_expected_handle_message ::
  "u8 list \<Rightarrow> size_t \<Rightarrow> u8 list \<Rightarrow> int \<Rightarrow> u8 list option" where
  "generate_expected_handle_message buff buff_size sock_name handle = do {
     name \<leftarrow> cstr sock_name;
     snprintf buff buff_size (handle_text name handle)
   }"

text \<open>
  \<open>atoi\<close>: leading white space, an optional sign, digits up to the first other byte; a value
  outside the range of \<open>int\<close> is undefined behaviour.
\<close>

definition is_space :: "u8 \<Rightarrow> bool" where
  "is_space b \<longleftrightarrow> b = 32 \<or> (9 \<le> b \<and> b \<le> 13)"

definition in_int :: "int \<Rightarrow> bool" where
  "in_int i \<longleftrightarrow> - (2 ^ 31) \<le> i \<and> i < 2 ^ 31"

definition atoi :: "u8 list \<Rightarrow> int option" where
  "atoi s =
    (let t = dropWhile is_space s;
         i = (case t of
                [] \<Rightarrow> 0
              | c # cs \<Rightarrow> if c = 45 then - int (read_digits 0 cs)
                         else if c = 43 then int (read_digits 0 cs)
                         else int (read_digits 0 t))
     in if in_int i then Some i else None)"

definition parse_handle_id :: "u8 list \<Rightarrow> int option" where
  "parse_handle_id buff = do {
     pos \<leftarrow> strstr buff (str ''HANDLE='');
     case pos of
       Some p \<Rightarrow> do { s \<leftarrow> cstr (drop (p + 7) buff); atoi s }
     | None \<Rightarrow> Some (- 1)
   }"

section \<open>Clearing memory\<close>

text \<open>
  \<open>zero_run w off i n\<close> is a loop of \<open>zero_mem\<close>: \<open>i\<close> counts up to \<open>n\<close>, every iteration
  clears the \<open>i\<close>-th object of \<open>w\<close> bytes behind the offset \<open>off\<close>.
\<close>

function zero_run :: "nat \<Rightarrow> nat \<Rightarrow> nat \<Rightarrow> nat \<Rightarrow> u8 list \<Rightarrow> u8 list option" where
  "zero_run w off i n a =
     (if i < n
      then do { a' \<leftarrow> store_at (off + w * i) (replicate w 0) a; zero_run w off (Suc i) n a' }
      else Some a)"
  by pat_completeness auto
termination
  by (relation "measure (\<lambda>(w, off, i, n, a). n - i)") auto

declare zero_run.simps [simp del]

text \<open>The size of \<open>size_t\<close>, the "big" type of the fast loop.\<close>

definition big_size :: nat where "big_size = 8"

definition zero_mem :: "u8 list \<Rightarrow> nat \<Rightarrow> u8 list option" where
  "zero_mem a len = do {
     let fast_transfers = len div big_size;
     (a', leftover_offset) \<leftarrow>
       (if len > big_size
        then map_option (\<lambda>x. (x, fast_transfers * big_size)) (zero_run big_size 0 0 fast_transfers a)
        else Some (a, 0));
     zero_run 1 leftover_offset 0 (len mod big_size) a'
   }"

lemma zero_run_result:
  assumes "off + w * n \<le> length a" and "i \<le> n"
  shows "zero_run w off i n a =
    Some (take (off + w * i) a @ replicate (w * (n - i)) 0 @ drop (off + w * n) a)"
  using assms
proof (induction w off i n a rule: zero_run.induct)
  case (1 w off i n a)
  show ?case
  proof (cases "i < n")
    case False
    with 1 have "i = n" by simp
    with 1 show ?thesis by (simp add: zero_run.simps [of w off n n a])
  next
    case True
    let ?a = "take (off + w * i) a @ replicate w 0 @ drop (off + w * i + w) a"
    from True have "w * Suc i \<le> w * n" by (intro mult_le_mono2) simp
    with 1 have fits: "off + w * i + w \<le> length a" by simp
    then have st: "store_at (off + w * i) (replicate w 0) a = Some ?a"
      by (simp add: store_at_fits)
    have "zero_run w off (Suc i) n ?a =
      Some (take (off + w * Suc i) ?a @ replicate (w * (n - Suc i)) 0 @ drop (off + w * n) ?a)"
      using 1 True fits st by simp
    moreover have "take (off + w * Suc i) ?a = take (off + w * i) a @ replicate w 0"
      using fits by simp
    moreover have "drop (off + w * n) ?a = drop (off + w * n) a"
      using fits True \<open>w * Suc i \<le> w * n\<close> by (simp add: add.commute)
    moreover have "replicate (w * (n - i)) (0 :: u8) = replicate w 0 @ replicate (w * (n - Suc i)) 0"
    proof -
      from True have "n - i = Suc (n - Suc i)" by simp
      then have "w * (n - i) = w + w * (n - Suc i)" by simp
      then show ?thesis by (simp add: replicate_add)
    qed
    ultimately show ?thesis
      using True st by (simp add: zero_run.simps [of w off i n a])
  qed
qed

lemma zero_mem_result:
  assumes "len \<le> length a" and "len \<noteq> big_size"
  shows "zero_mem a len = Some (replicate len 0 @ drop len a)"
proof -
  have split: "len = big_size * (len div big_size) + len mod big_size"
    by simp
  show ?thesis
  proof (cases "len > big_size")
    case False
    with assms have "len < big_size" by simp
    then show ?thesis
      using assms by (simp add: zero_mem_def zero_run_result)
  next
    case True
    let ?k = "len div big_size"
    let ?a = "replicate (big_size * ?k) 0 @ drop (big_size * ?k) a"
    from split assms have le: "big_size * ?k \<le> length a" by linarith
    then have fast: "zero_run big_size 0 0 ?k a = Some ?a"
      by (simp add: zero_run_result)
    have fits: "?k * big_size + 1 * (len mod big_size) \<le> length ?a"
      using split assms le by (simp add: mult.commute)
    have "zero_run 1 (?k * big_size) 0 (len mod big_size) ?a =
      Some (take (?k * big_size) ?a @ replicate (len mod big_size) 0
            @ drop (?k * big_size + len mod big_size) ?a)"
      using zero_run_result [OF fits le0] by simp
    moreover have "?k * big_size + len mod big_size = len"
      by simp
    moreover have "take (?k * big_size) ?a = replicate (?k * big_size) 0"
      by (simp add: mult.commute)
    moreover have "drop len ?a = drop len a"
      using split by simp
    moreover have "replicate (?k * big_size) (0 :: u8) @ replicate (len mod big_size) 0 = replicate len 0"
      by (simp flip: replicate_add)
    ultimately show ?thesis
      using True fast by (simp add: zero_mem_def flip: append_assoc)
  qed
qed

lemma zero_mem_big_size: "zero_mem a big_size = Some a"
  by (simp add: zero_mem_def big_size_def zero_run.simps)

section \<open>The random handle\<close>

text \<open>
  \<open>rand\<close> is the parameter \<open>rands\<close>: what the successive calls return after the seeding. The
  loop draws until the value is not 0.
\<close>

partial_function (option) draw_nonzero :: "(nat \<Rightarrow> int) \<Rightarrow> nat \<Rightarrow> int option" where
  "draw_nonzero rands k = (if rands k = 0 then draw_nonzero rands (Suc k) else Some (rands k))"

definition get_random_id :: "(nat \<Rightarrow> int) \<Rightarrow> int option" where
  "get_random_id rands = draw_nonzero rands 0"

lemma draw_nonzero_returns:
  assumes "rands (k + n) \<noteq> 0" and "\<forall>i < n. rands (k + i) = 0"
  shows "draw_nonzero rands k = Some (rands (k + n))"
  using assms
proof (induction n arbitrary: k)
  case 0
  then show ?case by (subst draw_nonzero.simps) simp
next
  case (Suc n)
  from Suc.prems(2) have "rands (k + 0) = 0" by blast
  moreover have "draw_nonzero rands (Suc k) = Some (rands (Suc k + n))"
  proof (rule Suc.IH)
    show "rands (Suc k + n) \<noteq> 0" using Suc.prems(1) by simp
    show "\<forall>i < n. rands (Suc k + i) = 0"
      using Suc.prems(2) by (metis Suc_less_eq add_Suc_shift)
  qed
  ultimately show ?case by (subst draw_nonzero.simps) simp
qed

lemma get_random_id_first:
  assumes "rands n \<noteq> 0" and "\<forall>i < n. rands i = 0"
  shows "get_random_id rands = Some (rands n)"
  using draw_nonzero_returns [of rands 0 n] assms by (simp add: get_random_id_def)

section \<open>The handle message is read back\<close>

lemma atoi_dec_int:
  assumes "in_int i"
  shows "atoi (dec_int i) = Some i"
proof -
  have dig: "is_digit b \<Longrightarrow> \<not> is_space b \<and> b \<noteq> 45 \<and> b \<noteq> 43" for b
    by (auto simp: is_digit_def is_space_def word_le_nat_alt)
  obtain c cs where c: "dec_nat (nat i) = c # cs" "is_digit c"
    using dec_nat_digits [of "nat i"] by (cases "dec_nat (nat i)") auto
  show ?thesis
  proof (cases "i < 0")
    case True
    then show ?thesis
      using assms by (simp add: atoi_def dec_int_def is_space_def read_digits_dec_nat)
  next
    case False
    have "dropWhile is_space (dec_nat (nat i)) = c # cs"
      using c dig by simp
    moreover have "read_digits 0 (c # cs) = nat i"
      using read_digits_dec_nat [of "nat i"] c by simp
    ultimately show ?thesis
      using False assms dig [OF c(2)] by (simp add: atoi_def dec_int_def del: read_digits.simps)
  qed
qed

lemma find_sub_append:
  assumes "\<And>k. k < length a \<Longrightarrow> take (length w) (drop k (a @ w @ b)) \<noteq> w"
  shows "find_sub w (a @ w @ b) = Some (length a)"
  using assms
proof (induction a)
  case Nil
  then show ?case by (simp add: find_sub_0)
next
  case (Cons x a)
  have "take (length w) (x # a @ w @ b) \<noteq> w"
    using Cons.prems [of 0] by simp
  moreover have "find_sub w (a @ w @ b) = Some (length a)"
    using Cons.prems [of "Suc k" for k] by (intro Cons.IH) simp
  ultimately show ?case by simp
qed


text \<open>The tag starts behind the name, when the name has no \<open>=\<close> (byte 61) that could start it early.\<close>

lemma find_tag:
  assumes "61 \<notin> set a"
  shows "find_sub (str ''HANDLE='') (a @ str ''HANDLE='' @ b) = Some (length a)"
proof (rule find_sub_append)
  let ?tag = "str ''HANDLE=''"
  fix k
  assume k: "k < length a"
  have "(a @ ?tag @ b) ! (k + 6) \<noteq> 61"
  proof (cases "k + 6 < length a")
    case True
    then have "(a @ ?tag @ b) ! (k + 6) \<in> set a" by (simp only: nth_append_left nth_mem)
    with assms show ?thesis by auto
  next
    case False
    then have "(a @ ?tag @ b) ! (k + 6) = (?tag @ b) ! (k + 6 - length a)"
      by (simp only: nth_append_right not_less)
    moreover have "k + 6 - length a \<in> {0, 1, 2, 3, 4, 5}" using k False by auto
    then have "(?tag @ b) ! (k + 6 - length a) \<noteq> 61"
      by (auto simp: str_def)
    ultimately show ?thesis by simp
  qed
  moreover have "k + 7 \<le> length (a @ ?tag @ b)" using k by (simp add: str_def)
  then have "take 7 (drop k (a @ ?tag @ b)) ! 6 = (a @ ?tag @ b) ! (k + 6)"
    by (simp only: nth_take nth_drop)
  moreover have "length ?tag = 7" and "?tag ! 6 = 61"
    by (simp_all add: str_def)
  ultimately show "take (length ?tag) (drop k (a @ ?tag @ b)) \<noteq> ?tag"
    by metis
qed

lemma parse_handle_text:
  assumes "61 \<notin> set name" and "0 \<notin> set name" and "in_int handle"
  shows "parse_handle_id (handle_text name handle @ 0 # rest) = Some handle"
proof -
  let ?tag = "str ''HANDLE=''" and ?a = "name @ [32]"
  have ht: "handle_text name handle = ?a @ ?tag @ dec_int handle"
    by (simp add: handle_text_def str_def)
  have "0 \<notin> set (?a @ ?tag @ dec_int handle)"
    using assms by (simp add: dec_int_no_nul str_def)
  then have cs: "cstr (handle_text name handle @ 0 # rest) = Some (?a @ ?tag @ dec_int handle)"
    unfolding ht by (rule cstr_append_nul)
  have "61 \<notin> set ?a" using assms(1) by simp
  note find = find_tag [OF this, of "dec_int handle"]
  have "drop (length ?a + 7) (handle_text name handle @ 0 # rest) = dec_int handle @ 0 # rest"
    unfolding ht by (simp add: str_def)
  then show ?thesis
    using cs find assms(3)
    by (simp add: parse_handle_id_def strstr_def cstr_append_nul dec_int_no_nul atoi_dec_int)
qed

section \<open>Properties\<close>

text \<open>
  \<open>zero_mem\<close> sets the first \<open>len\<close> bytes of the object to 0 and leaves the others alone,
  for every length that the object has room for, except for the length 8.
\<close>

theorem zero_mem_clears:
  assumes "len \<le> length a" and "len \<noteq> 8"
  shows "zero_mem a len = Some (replicate len 0 @ drop len a)"
  using zero_mem_result assms by (simp add: big_size_def)

lemma zero_mem_clears_witness:
  "zero_mem [1, 2, 3, 4, 5, 6, 7, 8, 9, 10, 11] 10 = Some (replicate 10 0 @ [11])"
  using zero_mem_clears [of 10 "[1, 2, 3, 4, 5, 6, 7, 8, 9, 10, 11]"] by simp

text \<open>
  For a length of exactly one \<open>size_t\<close> (8 bytes) \<open>zero_mem\<close> clears nothing: the fast loop
  wants more than one of them and the byte loop clears the remainder, which is 0.
\<close>

theorem zero_mem_misses_one_word: "zero_mem a 8 = Some a"
  using zero_mem_big_size [of a] by (simp add: big_size_def)

text \<open>
  A handle message that fits into its buffer is read back: the handle that
  \<open>generate_expected_handle_message\<close> writes is the one \<open>parse_handle_id\<close> finds, for every
  socket name without \<open>=\<close> (byte 61) and every value of an \<open>int\<close>.
\<close>

theorem handle_message_roundtrip:
  assumes "cstr sock_name = Some name" and "61 \<notin> set name" and "in_int handle"
    and "length (handle_text name handle) < unat n" and "unat n \<le> length buff"
  shows "\<exists>buff'. generate_expected_handle_message buff n sock_name handle = Some buff' \<and>
    parse_handle_id buff' = Some handle"
proof -
  have "n \<noteq> 0" and "Suc (length (handle_text name handle)) \<le> length buff"
    using assms(4,5) by auto
  moreover have "take (unat n - 1) (handle_text name handle) = handle_text name handle"
    using assms(4) by simp
  ultimately have "generate_expected_handle_message buff n sock_name handle =
      Some (handle_text name handle @ 0 # drop (Suc (length (handle_text name handle))) buff)"
    using assms(1) by (simp add: generate_expected_handle_message_def snprintf_def)
  moreover have "0 \<notin> set name"
    using assms(1) by (simp add: cstr_Some_iff)
  ultimately show ?thesis
    using parse_handle_text [OF assms(2) _ assms(3)] by simp
qed

lemma handle_message_roundtrip_witness:
  "\<exists>buff'. generate_expected_handle_message (replicate 64 7) 64 CONTROL_SOCK_NAME 42 = Some buff' \<and>
    parse_handle_id buff' = Some 42"
proof (rule handle_message_roundtrip)
  show "cstr CONTROL_SOCK_NAME = Some (str ''Control'')"
    by (simp add: CONTROL_SOCK_NAME_def lit_def str_def)
  show "61 \<notin> set (str ''Control'')" by (simp add: str_def)
  show "in_int 42" by (simp add: in_int_def)
  show "length (handle_text (str ''Control'') 42) < unat (64 :: size_t)"
    by (simp add: handle_text_def dec_int_def dec_nat.simps)
qed simp

text \<open>
  The random handle is the first value of \<open>rand\<close> that is not 0: the loop ends when there is
  one, and the handle is never 0.
\<close>

theorem random_id_nonzero:
  assumes "rands n \<noteq> 0"
  shows "\<exists>i. get_random_id rands = Some i \<and> i \<noteq> 0"
proof -
  define m where "m = (LEAST n. rands n \<noteq> 0)"
  have "rands m \<noteq> 0" unfolding m_def using assms by (rule LeastI)
  moreover have "\<forall>i < m. rands i = 0" unfolding m_def using not_less_Least by blast
  ultimately show ?thesis using get_random_id_first [of rands m] by blast
qed

lemma random_id_nonzero_witness: "\<exists>i. get_random_id (\<lambda>n. int n) = Some i \<and> i \<noteq> 0"
  using random_id_nonzero [of "\<lambda>n. int n" 1] by simp

text \<open>
  Every protocol constant has the length that the code declares for it, the terminator
  included, so that a message sent with its declared length is the whole literal.
\<close>

theorem declared_lengths:
  "list_all (\<lambda>(msg, len). length msg = len \<and> last msg = 0 \<and> 0 \<notin> set (butlast msg)) sized_literals"
  by (rule sized_literals_fit)

end
