(* ===== verification/Packet.thy ===== *)
theory Packet
  imports Common
begin

text \<open>
  The packet headers of \<^verbatim>\<open>streaming/inc/intel_st_debug_if_packet.h\<close> and the functions of
  \<^verbatim>\<open>streaming/src/intel_st_debug_if_packet.c\<close> that fill them. A header exists twice in the
  code: as a struct and as the bytes that travel over a socket. \<open>h2t_of_bytes\<close> and
  \<open>h2t_to_bytes\<close> are the overlay of the struct on a byte buffer (the casts in the server); the
  lemmas show that the byte writers and the struct writers agree through this overlay and that
  a header survives the way through its bytes.
\<close>

section \<open>Sizes and masks\<close>

definition SIZEOF_PACKET_GUARDBAND :: nat where "SIZEOF_PACKET_GUARDBAND = 4"
definition SIZEOF_H2T_PACKET_HEADER :: nat where "SIZEOF_H2T_PACKET_HEADER = 6"
definition SIZEOF_MGMT_PACKET_HEADER :: nat where "SIZEOF_MGMT_PACKET_HEADER = 6"
definition H2T_PACKET_HEADER_MASK_SOP :: u8 where "H2T_PACKET_HEADER_MASK_SOP = 0x01"
definition H2T_PACKET_HEADER_MASK_EOP :: u8 where "H2T_PACKET_HEADER_MASK_EOP = 0x02"
definition MGMT_PACKET_HEADER_MASK_EOP :: u8 where "MGMT_PACKET_HEADER_MASK_EOP = 0x02"

lemmas packet_sizes =
  SIZEOF_PACKET_GUARDBAND_def SIZEOF_H2T_PACKET_HEADER_def SIZEOF_MGMT_PACKET_HEADER_def

section \<open>Header structures\<close>

record H2T_PACKET_HEADER =
  SOP_EOP :: u8
  CONN_ID :: u8
  CHANNEL :: u16
  DATA_LEN_BYTES :: u16

record MGMT_PACKET_HEADER =
  M_SOP_EOP :: u8
  M_RESERVED :: u8
  M_CHANNEL :: u16
  M_DATA_LEN_BYTES :: u16

text \<open>
  The structs laid over a byte buffer: the fields in order, without padding, the 16-bit ones
  with the low byte first. Reading fewer than six bytes is out of bounds.
\<close>

definition h2t_to_bytes :: "H2T_PACKET_HEADER \<Rightarrow> u8 list" where
  "h2t_to_bytes h =
     [SOP_EOP h, CONN_ID h] @ le_bytes 2 (CHANNEL h) @ le_bytes 2 (DATA_LEN_BYTES h)"

definition h2t_of_bytes :: "u8 list \<Rightarrow> H2T_PACKET_HEADER option" where
  "h2t_of_bytes bs =
     (if length bs < SIZEOF_H2T_PACKET_HEADER then None
      else Some \<lparr>SOP_EOP = bs ! 0, CONN_ID = bs ! 1,
                 CHANNEL = le_word (take 2 (drop 2 bs)),
                 DATA_LEN_BYTES = le_word (take 2 (drop 4 bs))\<rparr>)"

definition mgmt_to_bytes :: "MGMT_PACKET_HEADER \<Rightarrow> u8 list" where
  "mgmt_to_bytes h =
     [M_SOP_EOP h, M_RESERVED h] @ le_bytes 2 (M_CHANNEL h) @ le_bytes 2 (M_DATA_LEN_BYTES h)"

definition mgmt_of_bytes :: "u8 list \<Rightarrow> MGMT_PACKET_HEADER option" where
  "mgmt_of_bytes bs =
     (if length bs < SIZEOF_MGMT_PACKET_HEADER then None
      else Some \<lparr>M_SOP_EOP = bs ! 0, M_RESERVED = bs ! 1,
                 M_CHANNEL = le_word (take 2 (drop 2 bs)),
                 M_DATA_LEN_BYTES = le_word (take 2 (drop 4 bs))\<rparr>)"

section \<open>Filling headers\<close>

definition PACKET_GUARDBAND :: "u8 list" where
  "PACKET_GUARDBAND = [0xDE, 0xAD, 0xBE, 0xEF]"

fun guardband_loop :: "nat \<Rightarrow> u8 list \<Rightarrow> u8 list" where
  "guardband_loop 0 bytes = bytes"
| "guardband_loop (Suc i) bytes =
     (guardband_loop i bytes)[i := PACKET_GUARDBAND ! i]"

definition populate_guardband :: "u8 list \<Rightarrow> u8 list option" where
  "populate_guardband bytes =
     (if length bytes < SIZEOF_PACKET_GUARDBAND then None
      else Some (guardband_loop SIZEOF_PACKET_GUARDBAND bytes))"

definition sop_eop_byte :: "u8 \<Rightarrow> u8 \<Rightarrow> u8" where
  "sop_eop_byte sop eop = (sop AND 0x01) OR push_bit 1 (eop AND 0x01)"

definition populate_h2t_packet_header ::
  "H2T_PACKET_HEADER \<Rightarrow> u8 \<Rightarrow> u8 \<Rightarrow> u8 \<Rightarrow> u16 \<Rightarrow> u16 \<Rightarrow> H2T_PACKET_HEADER" where
  "populate_h2t_packet_header packet sop eop conn_id channel data_len_bytes =
     packet\<lparr>SOP_EOP := sop_eop_byte sop eop,
            CONN_ID := conn_id,
            CHANNEL := channel,
            DATA_LEN_BYTES := data_len_bytes\<rparr>"

definition low_byte :: "u16 \<Rightarrow> u8" where
  "low_byte w = ucast w"

definition high_byte :: "u16 \<Rightarrow> u8" where
  "high_byte w = ucast (drop_bit 8 (w AND 0xFF00))"

definition populate_h2t_packet_header_bytes ::
  "u8 list \<Rightarrow> u8 \<Rightarrow> u8 \<Rightarrow> u8 \<Rightarrow> u16 \<Rightarrow> u16 \<Rightarrow> u8 list option" where
  "populate_h2t_packet_header_bytes bytes sop eop conn_id channel data_len_bytes =
     (if length bytes < 6 then None
      else Some (bytes[0 := sop_eop_byte sop eop,
                       1 := conn_id,
                       2 := low_byte channel,
                       3 := high_byte channel,
                       4 := low_byte data_len_bytes,
                       5 := high_byte data_len_bytes]))"

text \<open>A call on the buffer behind the guard band.\<close>

definition at_offset :: "nat \<Rightarrow> (u8 list \<Rightarrow> u8 list option) \<Rightarrow> u8 list \<Rightarrow> u8 list option" where
  "at_offset k f bytes = map_option ((@) (take k bytes)) (f (drop k bytes))"

definition populate_h2t_packet_bytes ::
  "u8 list \<Rightarrow> u8 \<Rightarrow> u8 \<Rightarrow> u8 \<Rightarrow> u16 \<Rightarrow> u16 \<Rightarrow> u8 list option" where
  "populate_h2t_packet_bytes bytes sop eop conn_id channel data_len_bytes = do {
     b \<leftarrow> populate_guardband bytes;
     at_offset SIZEOF_PACKET_GUARDBAND
       (\<lambda>p. populate_h2t_packet_header_bytes p sop eop conn_id channel data_len_bytes) b
   }"

definition populate_mgmt_packet_header ::
  "MGMT_PACKET_HEADER \<Rightarrow> u8 \<Rightarrow> u8 \<Rightarrow> u16 \<Rightarrow> u16 \<Rightarrow> MGMT_PACKET_HEADER" where
  "populate_mgmt_packet_header packet sop eop channel data_len_bytes =
     packet\<lparr>M_SOP_EOP := sop_eop_byte sop eop,
            M_CHANNEL := channel,
            M_DATA_LEN_BYTES := data_len_bytes\<rparr>"

definition populate_mgmt_packet_header_bytes ::
  "u8 list \<Rightarrow> u8 \<Rightarrow> u8 \<Rightarrow> u16 \<Rightarrow> u16 \<Rightarrow> u8 list option" where
  "populate_mgmt_packet_header_bytes bytes sop eop channel data_len_bytes =
     (if length bytes < 6 then None
      else Some (bytes[0 := sop_eop_byte sop eop,
                       2 := low_byte channel,
                       3 := high_byte channel,
                       4 := low_byte data_len_bytes,
                       5 := high_byte data_len_bytes]))"

definition populate_mgmt_packet_bytes ::
  "u8 list \<Rightarrow> u8 \<Rightarrow> u8 \<Rightarrow> u16 \<Rightarrow> u16 \<Rightarrow> u8 list option" where
  "populate_mgmt_packet_bytes bytes sop eop channel data_len_bytes = do {
     b \<leftarrow> populate_guardband bytes;
     at_offset SIZEOF_PACKET_GUARDBAND
       (\<lambda>p. populate_mgmt_packet_header_bytes p sop eop channel data_len_bytes) b
   }"

section \<open>Lemmas\<close>

lemma length_h2t_to_bytes [simp]: "length (h2t_to_bytes h) = 6"
  by (simp add: h2t_to_bytes_def)

lemma length_mgmt_to_bytes [simp]: "length (mgmt_to_bytes h) = 6"
  by (simp add: mgmt_to_bytes_def)

lemma list_of_six:
  assumes "6 \<le> length (bs :: 'a list)"
  obtains a b c d e f rest where "bs = a # b # c # d # e # f # rest"
proof -
  from assms obtain rest where "bs = bs ! 0 # bs ! 1 # bs ! 2 # bs ! 3 # bs ! 4 # bs ! 5 # rest"
    by (cases bs; cases "tl bs"; cases "tl (tl bs)"; cases "tl (tl (tl bs))";
        cases "tl (tl (tl (tl bs)))"; cases "tl (tl (tl (tl (tl bs))))") auto
  then show thesis by (rule that)
qed

lemma six_updates:
  "(a # b # c # d # e # f # rest)[0 := a', 1 := b', 2 := c', 3 := d', 4 := e', 5 := f'] =
     a' # b' # c' # d' # e' # f' # rest"
  "(a # b # c # d # e # f # rest)[0 := a', 2 := c', 3 := d', 4 := e', 5 := f'] =
     a' # b # c' # d' # e' # f' # rest"
  "drop 6 (a # b # c # d # e # f # rest) = rest"
  by (simp_all add: eval_nat_numeral)

lemma high_byte_drop: "high_byte w = ucast (drop_bit 8 w)"
  by (rule bit_word_eqI)
     (auto simp: high_byte_def bit_ucast_iff bit_drop_bit_eq bit_and_iff bit_numeral_rec
           split: nat.splits elim: less_natE)

lemma le_bytes_2: "le_bytes 2 (w :: u16) = [low_byte w, high_byte w]"
  by (simp add: numeral_2_eq_2 low_byte_def high_byte_drop)

lemma h2t_of_to_bytes: "h2t_of_bytes (h2t_to_bytes h @ rest) = Some h"
proof -
  have "take 2 (drop 2 (h2t_to_bytes h @ rest)) = le_bytes 2 (CHANNEL h)"
    and "take 2 (drop 4 (h2t_to_bytes h @ rest)) = le_bytes 2 (DATA_LEN_BYTES h)"
    by (simp_all add: h2t_to_bytes_def le_bytes_2)
  then show ?thesis
    by (simp add: h2t_of_bytes_def packet_sizes) (simp add: h2t_to_bytes_def)
qed

lemma mgmt_of_to_bytes: "mgmt_of_bytes (mgmt_to_bytes h @ rest) = Some h"
proof -
  have "take 2 (drop 2 (mgmt_to_bytes h @ rest)) = le_bytes 2 (M_CHANNEL h)"
    and "take 2 (drop 4 (mgmt_to_bytes h @ rest)) = le_bytes 2 (M_DATA_LEN_BYTES h)"
    by (simp_all add: mgmt_to_bytes_def le_bytes_2)
  then show ?thesis
    by (simp add: mgmt_of_bytes_def packet_sizes) (simp add: mgmt_to_bytes_def)
qed

lemma h2t_to_of_bytes:
  assumes "h2t_of_bytes bs = Some h"
  shows "h2t_to_bytes h = take 6 bs"
proof -
  from assms have "6 \<le> length bs"
    by (auto simp: h2t_of_bytes_def packet_sizes split: if_splits)
  then obtain a b c d e f rest where bs: "bs = a # b # c # d # e # f # rest"
    by (rule list_of_six)
  have "le_bytes 2 (le_word [c, d] :: u16) = [c, d]" "le_bytes 2 (le_word [e, f] :: u16) = [e, f]"
    by (simp_all add: le_bytes_le_word del: le_word.simps)
  with assms show ?thesis
    by (auto simp: h2t_of_bytes_def packet_sizes h2t_to_bytes_def bs simp del: le_word.simps)
qed

lemma guardband_4:
  assumes "4 \<le> length bytes"
  shows "guardband_loop 4 bytes = PACKET_GUARDBAND @ drop 4 bytes"
proof -
  from assms obtain a b c d rest where "bytes = a # b # c # d # rest"
    by (cases bytes; cases "tl bytes"; cases "tl (tl bytes)"; cases "tl (tl (tl bytes))") auto
  then show ?thesis
    by (simp add: eval_nat_numeral PACKET_GUARDBAND_def)
qed

lemma populate_guardband_result:
  "4 \<le> length bytes \<Longrightarrow> populate_guardband bytes = Some (PACKET_GUARDBAND @ drop 4 bytes)"
  by (simp add: populate_guardband_def packet_sizes guardband_4)

lemma length_PACKET_GUARDBAND [simp]: "length PACKET_GUARDBAND = 4"
  by (simp add: PACKET_GUARDBAND_def)

text \<open>The byte writer is the struct writer seen through the overlay.\<close>

lemma populate_h2t_header_bytes_eq:
  assumes "6 \<le> length bytes"
  shows "populate_h2t_packet_header_bytes bytes sop eop conn chan len =
    Some (h2t_to_bytes (populate_h2t_packet_header h sop eop conn chan len) @ drop 6 bytes)"
  using assms
  by (rule list_of_six)
     (simp add: populate_h2t_packet_header_bytes_def populate_h2t_packet_header_def
        h2t_to_bytes_def le_bytes_2 six_updates)

lemma populate_mgmt_header_bytes_eq:
  assumes "6 \<le> length bytes"
  shows "populate_mgmt_packet_header_bytes bytes sop eop chan len =
    Some (mgmt_to_bytes (populate_mgmt_packet_header
            \<lparr>M_SOP_EOP = s, M_RESERVED = bytes ! 1, M_CHANNEL = c, M_DATA_LEN_BYTES = l\<rparr>
            sop eop chan len) @ drop 6 bytes)"
  using assms
  by (rule list_of_six)
     (simp add: populate_mgmt_packet_header_bytes_def populate_mgmt_packet_header_def
        mgmt_to_bytes_def le_bytes_2 six_updates)

lemma populate_h2t_packet_bytes_result:
  assumes "10 \<le> length bytes"
  shows "populate_h2t_packet_bytes bytes sop eop conn chan len =
    Some (PACKET_GUARDBAND
          @ h2t_to_bytes (populate_h2t_packet_header h sop eop conn chan len) @ drop 10 bytes)"
  using assms
  by (simp add: populate_h2t_packet_bytes_def populate_guardband_result at_offset_def packet_sizes
      populate_h2t_header_bytes_eq [where h = h])

lemma populate_mgmt_packet_bytes_result:
  assumes "10 \<le> length bytes"
  shows "populate_mgmt_packet_bytes bytes sop eop chan len =
    Some (PACKET_GUARDBAND
          @ mgmt_to_bytes \<lparr>M_SOP_EOP = sop_eop_byte sop eop, M_RESERVED = bytes ! 5,
                           M_CHANNEL = chan, M_DATA_LEN_BYTES = len\<rparr> @ drop 10 bytes)"
  using assms
  by (simp add: populate_mgmt_packet_bytes_def populate_guardband_result at_offset_def packet_sizes
      populate_mgmt_header_bytes_eq [where s = 0 and c = 0 and l = 0] populate_mgmt_packet_header_def)

text \<open>What the flag bits of the first byte say.\<close>

lemma sop_eop_bits:
  "sop_eop_byte sop eop AND H2T_PACKET_HEADER_MASK_SOP = sop AND 1"
  "(sop_eop_byte sop eop AND H2T_PACKET_HEADER_MASK_EOP \<noteq> 0) = odd eop"
proof -
  have "sop_eop_byte sop eop AND 2 ^ 1 = 0 \<longleftrightarrow> \<not> bit (sop_eop_byte sop eop) 1"
    by (rule and_exp_eq_0_iff_not_bit)
  moreover have "bit (sop_eop_byte sop eop) 1 \<longleftrightarrow> odd eop"
    by (simp add: sop_eop_byte_def bit_simps mult.commute [of eop 2] flip: bit_0)
  ultimately show "(sop_eop_byte sop eop AND H2T_PACKET_HEADER_MASK_EOP \<noteq> 0) = odd eop"
    by (simp add: H2T_PACKET_HEADER_MASK_EOP_def)
  show "sop_eop_byte sop eop AND H2T_PACKET_HEADER_MASK_SOP = sop AND 1"
    by (rule bit_word_eqI)
       (auto simp: sop_eop_byte_def H2T_PACKET_HEADER_MASK_SOP_def bit_simps)
qed

section \<open>Properties\<close>

text \<open>
  \<open>populate_h2t_packet_bytes\<close> writes a whole H2T packet header: the guard band, then bytes
  which, read through the struct that the server lays over them, are the header that
  \<open>populate_h2t_packet_header\<close> fills in; what lies behind the ten bytes is kept.
\<close>

theorem h2t_packet_bytes_roundtrip:
  assumes "10 \<le> length bytes"
  shows "\<exists>out. populate_h2t_packet_bytes bytes sop eop conn chan len = Some out \<and>
    take 4 out = PACKET_GUARDBAND \<and> drop 10 out = drop 10 bytes \<and>
    h2t_of_bytes (drop 4 out) = Some (populate_h2t_packet_header h sop eop conn chan len)"
  using populate_h2t_packet_bytes_result [OF assms, where h = h] by (simp add: h2t_of_to_bytes)

lemma h2t_packet_bytes_roundtrip_witness:
  "\<exists>out. populate_h2t_packet_bytes (replicate 12 0) 1 0 7 300 65535 = Some out \<and>
    take 4 out = PACKET_GUARDBAND \<and> drop 10 out = drop 10 (replicate 12 0) \<and>
    h2t_of_bytes (drop 4 out) =
      Some (populate_h2t_packet_header
        \<lparr>SOP_EOP = 0, CONN_ID = 0, CHANNEL = 0, DATA_LEN_BYTES = 0\<rparr> 1 0 7 300 65535)"
  by (rule h2t_packet_bytes_roundtrip) simp

text \<open>
  The same for the management header, whose reserved byte keeps what the buffer held.
\<close>

theorem mgmt_packet_bytes_roundtrip:
  assumes "10 \<le> length bytes"
  shows "\<exists>out. populate_mgmt_packet_bytes bytes sop eop chan len = Some out \<and>
    take 4 out = PACKET_GUARDBAND \<and> drop 10 out = drop 10 bytes \<and>
    mgmt_of_bytes (drop 4 out) =
      Some (populate_mgmt_packet_header
        \<lparr>M_SOP_EOP = 0, M_RESERVED = bytes ! 5, M_CHANNEL = 0, M_DATA_LEN_BYTES = 0\<rparr> sop eop chan len)"
  using populate_mgmt_packet_bytes_result [OF assms]
  by (simp add: mgmt_of_to_bytes populate_mgmt_packet_header_def)

lemma mgmt_packet_bytes_roundtrip_witness:
  "\<exists>out. populate_mgmt_packet_bytes (replicate 12 9) 1 1 300 16 = Some out \<and>
    take 4 out = PACKET_GUARDBAND \<and> drop 10 out = drop 10 (replicate 12 9) \<and>
    mgmt_of_bytes (drop 4 out) =
      Some (populate_mgmt_packet_header
        \<lparr>M_SOP_EOP = 0, M_RESERVED = replicate 12 9 ! 5, M_CHANNEL = 0, M_DATA_LEN_BYTES = 0\<rparr>
        1 1 300 16)"
  by (rule mgmt_packet_bytes_roundtrip) simp

end
