(* ===== verification/Allocator.thy ===== *)
theory Allocator
  imports CBase
begin

text \<open>
  The circular buffer allocator of
  \<^verbatim>\<open>streaming/inc/intel_st_debug_if_st_dbg_ip_allocator.h\<close>: a ring of \<open>span\<close> bytes from which
  blocks are taken at the write offset and given back, oldest first, at the read offset.

  The code keeps only the offsets and the free space. Its contract, the locale \<open>fifo_ring\<close>, is
  about the queue of sizes of the blocks in use, oldest first; \<open>cbuff_rel\<close> relates a buffer to
  that queue, and the interpretation \<open>cb\<close> discharges the contract for the code. The geometry
  lemmas say where the blocks lie and that blocks in use never share a byte.
\<close>

section \<open>The code\<close>

record CIRCLE_BUFF =
  raw_buff :: u32
  span :: size_t
  write_offset :: size_t
  read_offset :: size_t
  space_available :: size_t

definition cbuff_init :: "u32 \<Rightarrow> size_t \<Rightarrow> CIRCLE_BUFF" where
  "cbuff_init raw_buf raw_buff_sz =
     \<lparr>raw_buff = raw_buf, span = raw_buff_sz, write_offset = 0, read_offset = 0,
      space_available = raw_buff_sz\<rparr>"

text \<open>The remainder by a span of 0 is undefined behaviour.\<close>

definition cbuff_free :: "CIRCLE_BUFF \<Rightarrow> size_t \<Rightarrow> CIRCLE_BUFF option" where
  "cbuff_free cbuff amt =
     (if span cbuff = 0 then None
      else Some (cbuff\<lparr>space_available := space_available cbuff + amt,
                       read_offset := (read_offset cbuff + amt) mod span cbuff\<rparr>))"

definition cbuff_alloc :: "CIRCLE_BUFF \<Rightarrow> size_t \<Rightarrow> (u32 \<times> CIRCLE_BUFF) option" where
  "cbuff_alloc cbuff amt =
     (if span cbuff = 0 then None
      else Some (ucast (ucast (raw_buff cbuff) + write_offset cbuff),
                 cbuff\<lparr>space_available := space_available cbuff - amt,
                       write_offset := (write_offset cbuff + amt) mod span cbuff\<rparr>))"

section \<open>The contract\<close>

text \<open>
  What a client of such an allocator relies on. \<open>rel c qs\<close>: the blocks in use have the sizes
  \<open>qs\<close>, oldest first; \<open>room\<close> is what the client may still take.
\<close>

locale fifo_ring =
  fixes init :: "u32 \<Rightarrow> size_t \<Rightarrow> 'c"
    and alloc :: "'c \<Rightarrow> size_t \<Rightarrow> (u32 \<times> 'c) option"
    and free :: "'c \<Rightarrow> size_t \<Rightarrow> 'c option"
    and room :: "'c \<Rightarrow> size_t"
    and cap :: "'c \<Rightarrow> nat"
    and rel :: "'c \<Rightarrow> nat list \<Rightarrow> bool"
  assumes init_rel: "0 < n \<Longrightarrow> n \<le> 2 ^ 63 \<Longrightarrow> rel (init b n) [] \<and> cap (init b n) = unat n"
    and room_cap: "rel c qs \<Longrightarrow> unat (room c) + sum_list qs = cap c"
    and alloc_rel: "rel c qs \<Longrightarrow> amt \<le> room c \<Longrightarrow>
      \<exists>a c'. alloc c amt = Some (a, c') \<and> rel c' (qs @ [unat amt]) \<and> cap c' = cap c"
    and free_rel: "rel c (ps @ qs) \<Longrightarrow> unat amt = sum_list ps \<Longrightarrow>
      \<exists>c'. free c amt = Some c' \<and> rel c' qs \<and> cap c' = cap c"
begin

lemma alloc_result:
  assumes "rel c qs" and "amt \<le> room c" and "alloc c amt = Some (a, c')"
  shows "rel c' (qs @ [unat amt])" and "cap c' = cap c"
  using alloc_rel [OF assms(1,2)] assms(3) by auto

lemma free_result:
  assumes "rel c (ps @ qs)" and "unat amt = sum_list ps" and "free c amt = Some c'"
  shows "rel c' qs" and "cap c' = cap c"
  using free_rel [OF assms(1,2)] assms(3) by auto

lemma room_after_alloc:
  assumes "rel c qs" and "amt \<le> room c" and "alloc c amt = Some (a, c')"
  shows "unat (room c') = unat (room c) - unat amt"
  using room_cap [OF assms(1)] room_cap [OF alloc_result(1) [OF assms]] alloc_result(2) [OF assms]
  by simp

text \<open>Giving every block back makes the whole ring free again.\<close>

lemma drain:
  assumes "rel c qs" and "unat amt = sum_list qs"
  shows "\<exists>c'. free c amt = Some c' \<and> rel c' [] \<and> unat (room c') = cap c"
proof -
  from assms obtain c' where c': "free c amt = Some c'" "rel c' []" "cap c' = cap c"
    using free_rel [of c qs "[]" amt] by auto
  with room_cap [of c' "[]"] show ?thesis by simp
qed

text \<open>
  The blocks of a list of requests, one after the other: they are all granted when their
  sizes together fit into the room.
\<close>

primrec alloc_many :: "'c \<Rightarrow> size_t list \<Rightarrow> 'c option" where
  "alloc_many c [] = Some c"
| "alloc_many c (n # ns) =
     (case alloc c n of Some (a, c') \<Rightarrow> alloc_many c' ns | None \<Rightarrow> None)"

lemma alloc_many_rel:
  assumes "rel c qs" and "sum_list (map unat ns) \<le> unat (room c)"
  shows "\<exists>c'. alloc_many c ns = Some c' \<and> rel c' (qs @ map unat ns) \<and> cap c' = cap c"
  using assms
proof (induction ns arbitrary: c qs)
  case Nil
  then show ?case by simp
next
  case (Cons n ns)
  then have n: "n \<le> room c" by (simp add: word_le_nat_alt)
  with Cons.prems obtain a c1 where c1: "alloc c n = Some (a, c1)"
    "rel c1 (qs @ [unat n])" "cap c1 = cap c"
    using alloc_rel by blast
  have "sum_list (map unat ns) \<le> unat (room c1)"
    using room_after_alloc [OF Cons.prems(1) n c1(1)] Cons.prems(2) by simp
  from Cons.IH [OF c1(2) this] c1 show ?case by auto
qed

end

section \<open>The code meets the contract\<close>

definition cbuff_rel :: "CIRCLE_BUFF \<Rightarrow> nat list \<Rightarrow> bool" where
  "cbuff_rel c qs \<longleftrightarrow>
     0 < unat (span c) \<and> unat (span c) \<le> 2 ^ 63 \<and>
     unat (read_offset c) < unat (span c) \<and>
     sum_list qs \<le> unat (span c) \<and>
     unat (space_available c) = unat (span c) - sum_list qs \<and>
     unat (write_offset c) = (unat (read_offset c) + sum_list qs) mod unat (span c)"

definition cbuff_cap :: "CIRCLE_BUFF \<Rightarrow> nat" where
  "cbuff_cap c = unat (span c)"

lemma cbuff_alloc_rel:
  assumes "cbuff_rel c qs" and "amt \<le> space_available c"
  shows "\<exists>a c'. cbuff_alloc c amt = Some (a, c') \<and> cbuff_rel c' (qs @ [unat amt])
           \<and> cbuff_cap c' = cbuff_cap c"
proof -
  let ?s = "unat (span c)"
  from assms have amt: "unat amt \<le> ?s - sum_list qs" and w: "unat (write_offset c) < ?s"
    by (auto simp: cbuff_rel_def word_le_nat_alt)
  have sp: "unat (space_available c - amt) = ?s - (sum_list qs + unat amt)"
    using assms by (simp add: unat_diff_le cbuff_rel_def)
  have "?s \<le> 2 ^ 63" using assms by (simp add: cbuff_rel_def)
  with amt w have "unat (write_offset c) + unat amt < 2 ^ 64" by simp
  then have "unat (write_offset c + amt) = unat (write_offset c) + unat amt"
    by (intro unat_add_below) simp
  then have "unat ((write_offset c + amt) mod span c) = (unat (read_offset c) + (sum_list qs + unat amt)) mod ?s"
    using assms by (simp add: cbuff_rel_def unat_mod mod_add_left_eq add.assoc)
  with sp assms amt show ?thesis
    by (auto simp: cbuff_alloc_def cbuff_rel_def cbuff_cap_def)
qed

lemma cbuff_free_rel:
  assumes "cbuff_rel c (ps @ qs)" and "unat amt = sum_list ps"
  shows "\<exists>c'. cbuff_free c amt = Some c' \<and> cbuff_rel c' qs \<and> cbuff_cap c' = cbuff_cap c"
proof -
  let ?s = "unat (span c)" and ?r = "unat (read_offset c)"
  have sp: "unat (space_available c + amt) = ?s - sum_list qs"
    using assms by (subst unat_add_below) (auto simp: cbuff_rel_def)
  have "unat (read_offset c + amt) = ?r + sum_list ps"
    using assms by (subst unat_add_below) (auto simp: cbuff_rel_def)
  then have r: "unat ((read_offset c + amt) mod span c) = (?r + sum_list ps) mod ?s"
    by (simp add: unat_mod)
  have w: "((?r + sum_list ps) mod ?s + sum_list qs) mod ?s = (?r + sum_list (ps @ qs)) mod ?s"
    by (simp add: mod_add_left_eq add.assoc)
  from assms have nz: "span c \<noteq> 0" and "0 < ?s"
    by (auto simp: cbuff_rel_def)
  with sp r w assms show ?thesis
    by (auto simp: cbuff_free_def cbuff_rel_def cbuff_cap_def)
qed

lemma cbuff_init_rel:
  assumes "0 < n" and "n \<le> 2 ^ 63"
  shows "cbuff_rel (cbuff_init b n) [] \<and> cbuff_cap (cbuff_init b n) = unat n"
proof -
  from assms have "0 < unat n" and "unat n \<le> 2 ^ 63"
    by (simp_all add: word_less_nat_alt word_le_nat_alt)
  then show ?thesis
    by (simp add: cbuff_rel_def cbuff_init_def cbuff_cap_def)
qed

interpretation cb: fifo_ring cbuff_init cbuff_alloc cbuff_free space_available cbuff_cap cbuff_rel
proof unfold_locales
  show "unat (space_available c) + sum_list qs = cbuff_cap c" if "cbuff_rel c qs" for c qs
    using that by (simp add: cbuff_rel_def cbuff_cap_def)
qed (rule cbuff_init_rel cbuff_alloc_rel cbuff_free_rel; assumption)+

section \<open>Where the blocks lie\<close>

text \<open>The offsets of a block of \<open>n\<close> bytes that starts at the offset \<open>start\<close> of the ring.\<close>

definition ring_cells :: "nat \<Rightarrow> nat \<Rightarrow> nat \<Rightarrow> nat set" where
  "ring_cells s start n = (\<lambda>k. (start + k) mod s) ` {..<n}"

text \<open>The start of the \<open>i\<close>-th block in use.\<close>

definition block_start :: "CIRCLE_BUFF \<Rightarrow> nat list \<Rightarrow> nat \<Rightarrow> nat" where
  "block_start c qs i = (unat (read_offset c) + sum_list (take i qs)) mod unat (span c)"

lemma mod_neq_close: "a < b \<Longrightarrow> b < a + n \<Longrightarrow> a mod n \<noteq> b mod (n::nat)"
proof
  assume "a < b" and "b < a + n" and "a mod n = b mod n"
  then have "n dvd b - a" by (metis less_imp_le_nat mod_eq_dvd_iff_nat)
  with \<open>a < b\<close> \<open>b < a + n\<close> show False
    by (auto dest: dvd_imp_le)
qed

lemma sum_list_take_mono: "i \<le> j \<Longrightarrow> sum_list (take i (qs :: nat list)) \<le> sum_list (take j qs)"
  by (metis le_add1 le_Suc_ex sum_list_append take_add)

lemma sum_list_take_le: "sum_list (take i (qs :: nat list)) \<le> sum_list qs"
  by (metis append_take_drop_id le_add1 sum_list_append)

lemma sum_list_take_Suc:
  "i < length qs \<Longrightarrow> sum_list (take (Suc i) (qs :: nat list)) = sum_list (take i qs) + qs ! i"
  by (simp add: take_Suc_conv_app_nth)

lemma blocks_disjoint:
  assumes "cbuff_rel c qs" and ij: "i < j" "j < length qs"
  shows "ring_cells (unat (span c)) (block_start c qs i) (qs ! i)
       \<inter> ring_cells (unat (span c)) (block_start c qs j) (qs ! j) = {}"
proof -
  let ?s = "unat (span c)" and ?r = "unat (read_offset c)" and ?t = "\<lambda>i. sum_list (take i qs)"
  have "((?r + ?t i) mod ?s + k) mod ?s \<noteq> ((?r + ?t j) mod ?s + l) mod ?s"
    if k: "k < qs ! i" and l: "l < qs ! j" for k l
  proof -
    have "?t (Suc i) \<le> ?t j" using ij by (intro sum_list_take_mono) simp
    with k ij have "?t i + k < ?t j + l" by (simp add: sum_list_take_Suc)
    moreover have "?t (Suc j) \<le> sum_list qs" by (rule sum_list_take_le)
    then have "?t j + l < ?s" using l ij assms(1) by (simp add: sum_list_take_Suc cbuff_rel_def)
    ultimately have "(?r + ?t i + k) mod ?s \<noteq> (?r + ?t j + l) mod ?s"
      by (intro mod_neq_close) simp_all
    then show ?thesis by (simp add: mod_add_left_eq)
  qed
  then show ?thesis
    by (force simp: ring_cells_def block_start_def)
qed

text \<open>A block that is granted starts where the last one ended.\<close>

lemma cbuff_alloc_address:
  assumes "cbuff_rel c qs" and "cbuff_alloc c amt = Some (a, c')"
  shows "a = raw_buff c + of_nat (block_start c (qs @ [unat amt]) (length qs))"
proof -
  have "block_start c (qs @ [unat amt]) (length qs) = unat (write_offset c)"
    using assms(1) by (simp add: block_start_def cbuff_rel_def)
  then have wo: "write_offset c = of_nat (block_start c (qs @ [unat amt]) (length qs))"
    by simp
  from assms(2) have "a = ucast (ucast (raw_buff c) + write_offset c)"
    by (auto simp: cbuff_alloc_def split: if_splits)
  also have "\<dots> = raw_buff c + ucast (write_offset c)"
    by (simp add: ucast_add_down ucast_down_up)
  finally show ?thesis
    unfolding wo by (simp add: ucast_of_nat_down)
qed

section \<open>Properties\<close>

text \<open>
  C18. A request for no more than the free space is granted at the offset behind the last block
  in use, shares no byte with any of them, and takes exactly its size from the free space.
\<close>

theorem cbuff_alloc_sound:
  assumes "cbuff_rel c qs" and "amt \<le> space_available c"
  shows "\<exists>a c'. cbuff_alloc c amt = Some (a, c') \<and> cbuff_rel c' (qs @ [unat amt]) \<and>
    a = raw_buff c + of_nat (block_start c' (qs @ [unat amt]) (length qs)) \<and>
    unat (space_available c') = unat (space_available c) - unat amt \<and>
    (\<forall>i < length qs. ring_cells (unat (span c)) (block_start c' (qs @ [unat amt]) i) (qs ! i) \<inter>
       ring_cells (unat (span c)) (block_start c' (qs @ [unat amt]) (length qs)) (unat amt) = {})"
proof -
  obtain a c' where c': "cbuff_alloc c amt = Some (a, c')" "cbuff_rel c' (qs @ [unat amt])"
    using cb.alloc_rel [OF assms] by blast
  then have same: "span c' = span c" "raw_buff c' = raw_buff c" "read_offset c' = read_offset c"
    by (auto simp: cbuff_alloc_def split: if_splits)
  have "a = raw_buff c + of_nat (block_start c' (qs @ [unat amt]) (length qs))"
    using cbuff_alloc_address [OF assms(1) c'(1)] same by (simp add: block_start_def)
  moreover have "\<forall>i < length qs. ring_cells (unat (span c)) (block_start c' (qs @ [unat amt]) i) (qs ! i) \<inter>
       ring_cells (unat (span c)) (block_start c' (qs @ [unat amt]) (length qs)) (unat amt) = {}"
    using blocks_disjoint [OF c'(2), where j = "length qs"] same by (auto simp: nth_append)
  ultimately show ?thesis
    using c' cb.room_after_alloc [OF assms c'(1)] by blast
qed

lemma cbuff_alloc_sound_witness:
  "cbuff_rel (cbuff_init 0x800 64) [] \<and>
   (\<exists>a c'. cbuff_alloc (cbuff_init 0x800 64) 24 = Some (a, c') \<and> cbuff_rel c' [24] \<and>
      a = 0x800 + of_nat (block_start c' [24] 0))"
proof -
  have "cbuff_rel (cbuff_init 0x800 64) []" using cbuff_init_rel [of 64 "0x800"] by simp
  moreover have "24 \<le> space_available (cbuff_init 0x800 64)" by (simp add: cbuff_init_def)
  ultimately show ?thesis
    using cbuff_alloc_sound [of "cbuff_init 0x800 64" "[]" 24] by (auto simp: cbuff_init_def)
qed

text \<open>
  C19. Giving back the sizes of the oldest blocks frees exactly them; the younger blocks stay
  where they are.
\<close>

theorem cbuff_free_sound:
  assumes "cbuff_rel c (ps @ qs)" and "unat amt = sum_list ps"
  shows "\<exists>c'. cbuff_free c amt = Some c' \<and> cbuff_rel c' qs \<and>
    unat (space_available c') = unat (space_available c) + sum_list ps \<and>
    (\<forall>i \<le> length qs. block_start c' qs i = block_start c (ps @ qs) (length ps + i))"
proof -
  obtain c' where c': "cbuff_free c amt = Some c'" "cbuff_rel c' qs" "cbuff_cap c' = cbuff_cap c"
    using cb.free_rel [OF assms] by blast
  then have same: "span c' = span c" "unat (read_offset c') = unat (read_offset c + amt) mod unat (span c)"
    by (auto simp: cbuff_free_def unat_mod split: if_splits)
  have "unat (read_offset c + amt) = unat (read_offset c) + sum_list ps"
    using assms by (subst unat_add_below) (auto simp: cbuff_rel_def)
  then have "\<forall>i \<le> length qs. block_start c' qs i = block_start c (ps @ qs) (length ps + i)"
    using same by (simp add: block_start_def mod_add_left_eq add.assoc)
  moreover have "unat (space_available c') = unat (space_available c) + sum_list ps"
    using cb.room_cap [OF c'(2)] cb.room_cap [OF assms(1)] c'(3) by simp
  ultimately show ?thesis using c' by blast
qed

lemma cbuff_free_sound_witness:
  "\<exists>c c'. cbuff_rel c ([24] @ [8]) \<and> cbuff_free c 24 = Some c' \<and> cbuff_rel c' [8]"
proof -
  have "cbuff_rel (cbuff_init 0x800 64) []" using cbuff_init_rel [of 64 "0x800"] by simp
  moreover have "sum_list (map unat [24 :: size_t, 8]) \<le> unat (space_available (cbuff_init 0x800 64))"
    by (simp add: cbuff_init_def)
  ultimately obtain c where "cbuff_rel c ([24] @ [8])"
    using cb.alloc_many_rel [of "cbuff_init 0x800 64" "[]" "[24, 8]"] by auto
  with cbuff_free_sound [of c "[24]" "[8]" 24] show ?thesis by auto
qed

end
