(* ===== verification/Driver.thy ===== *)
theory Driver
  imports Mmio Packet Allocator "HOL-Library.Signed_Division"
begin

text \<open>
  The driver of the ST Debug IP: \<^verbatim>\<open>streaming/inc/intel_st_debug_if_st_dbg_ip_driver.h\<close> and
  \<^verbatim>\<open>streaming/src/intel_st_debug_if_st_dbg_ip_driver.c\<close>. The file's static globals are the
  record \<open>driver\<close>, with the platform state they act on; every function takes the device (the
  parameter \<open>bus\<close>) and the state and returns its result with the new state.

  \<open>get_h2t_buffer\<close> and \<open>get_mgmt_buffer\<close> are the same algorithm on two sets of globals. The
  record \<open>chan\<close> is one such set, \<open>chan_get_buffer\<close> the algorithm, and the locale
  \<open>desc_channel\<close> carries the proof for both.
\<close>

section \<open>Constants\<close>

definition SUPPORTED_TYPE :: u32 where "SUPPORTED_TYPE = 0x5244444D"
definition SUPPORTED_VERSION :: u32 where "SUPPORTED_VERSION = 0x0"
definition INIT_ERROR_CODE_MISSING_INFO :: int where "INIT_ERROR_CODE_MISSING_INFO = -1"
definition INIT_ERROR_CODE_INCOMPATIBLE_IP :: int where "INIT_ERROR_CODE_INCOMPATIBLE_IP = -2"
definition MAX_H2T_DESCRIPTOR_DEPTH :: nat where "MAX_H2T_DESCRIPTOR_DEPTH = 128"
definition MAX_MGMT_DESCRIPTOR_DEPTH :: nat where "MAX_MGMT_DESCRIPTOR_DEPTH = 128"
definition ST_DBG_IP_BUFF_ALIGN_POW_2 :: nat where "ST_DBG_IP_BUFF_ALIGN_POW_2 = 3"
definition ST_DBG_IP_CONFIG_TYPE :: u32 where "ST_DBG_IP_CONFIG_TYPE = 0x0"
definition ST_DBG_IP_CONFIG_RESET_AND_LOOPBACK :: u32 where
  "ST_DBG_IP_CONFIG_RESET_AND_LOOPBACK = 0x20"
definition ST_DBG_IP_CONFIG_H2T_T2H_RESET_FIELD :: u32 where
  "ST_DBG_IP_CONFIG_H2T_T2H_RESET_FIELD = 0x1"
definition ST_DBG_IP_CONFIG_LOOPBACK_FIELD :: u32 where "ST_DBG_IP_CONFIG_LOOPBACK_FIELD = 0x2"
definition ST_DBG_IP_CONFIG_ENABLE_INT_FIELD :: u32 where
  "ST_DBG_IP_CONFIG_ENABLE_INT_FIELD = 0x4"
definition ST_DBG_IP_CONFIG_MGMT_MGMT_RSP_DESC_DEPTH :: u32 where
  "ST_DBG_IP_CONFIG_MGMT_MGMT_RSP_DESC_DEPTH = 0x30"
definition ST_DBG_IP_H2T_AVAILABLE_SLOTS :: u32 where "ST_DBG_IP_H2T_AVAILABLE_SLOTS = 0x100"
definition ST_DBG_IP_H2T_HOW_LONG :: u32 where "ST_DBG_IP_H2T_HOW_LONG = 0x108"
definition ST_DBG_IP_H2T_CONNECTION_ID :: u32 where "ST_DBG_IP_H2T_CONNECTION_ID = 0x110"
definition ST_DBG_IP_T2H_HOW_LONG :: u32 where "ST_DBG_IP_T2H_HOW_LONG = 0x208"
definition ST_DBG_IP_T2H_CONNECTION_ID :: u32 where "ST_DBG_IP_T2H_CONNECTION_ID = 0x210"
definition ST_DBG_IP_T2H_DESCRIPTORS_DONE :: u32 where "ST_DBG_IP_T2H_DESCRIPTORS_DONE = 0x218"
definition ST_DBG_IP_MGMT_AVAILABLE_SLOTS :: u32 where "ST_DBG_IP_MGMT_AVAILABLE_SLOTS = 0x1100"
definition ST_DBG_IP_MGMT_HOW_LONG :: u32 where "ST_DBG_IP_MGMT_HOW_LONG = 0x1108"
definition ST_DBG_IP_MGMT_CHANNEL_ID_PUSH :: u32 where
  "ST_DBG_IP_MGMT_CHANNEL_ID_PUSH = 0x1114"
definition ST_DBG_IP_MGMT_RSP_HOW_LONG :: u32 where "ST_DBG_IP_MGMT_RSP_HOW_LONG = 0x1208"
definition ST_DBG_IP_MGMT_RSP_CHANNEL_ID_ADVANCE :: u32 where
  "ST_DBG_IP_MGMT_RSP_CHANNEL_ID_ADVANCE = 0x1214"
definition ST_DBG_IP_MGMT_RSP_DESCRIPTORS_DONE :: u32 where
  "ST_DBG_IP_MGMT_RSP_DESCRIPTORS_DONE = 0x1218"
definition ST_DBG_IP_LAST_DESCRIPTOR_MASK :: u32 where
  "ST_DBG_IP_LAST_DESCRIPTOR_MASK = 0x80000000"
definition ST_DBG_IP_HOW_LONG_MASK :: u32 where "ST_DBG_IP_HOW_LONG_MASK = 0x7FFFFFFF"

lemmas depth_defs = MAX_H2T_DESCRIPTOR_DEPTH_def MAX_MGMT_DESCRIPTOR_DEPTH_def

definition ALIGN_TO :: "size_t \<Rightarrow> size_t" where
  "ALIGN_TO n = push_bit ST_DBG_IP_BUFF_ALIGN_POW_2 (drop_bit ST_DBG_IP_BUFF_ALIGN_POW_2 n)"

definition GET_ALIGNED_SZ :: "size_t \<Rightarrow> size_t" where
  "GET_ALIGNED_SZ n = ALIGN_TO (n + push_bit ST_DBG_IP_BUFF_ALIGN_POW_2 1 - 1)"

section \<open>State\<close>

record ST_DBG_IP_DESIGN_INFO =
  ST_DBG_IP_CSR_BASE_ADDR :: u32
  H2T_MEM_BASE_ADDR :: u32
  H2T_MEM_SZ :: size_t
  T2H_MEM_BASE_ADDR :: u32
  T2H_MEM_SZ :: size_t
  MGMT_MEM_BASE_ADDR :: u32
  MGMT_MEM_SZ :: size_t
  MGMT_RSP_MEM_BASE_ADDR :: u32
  MGMT_RSP_MEM_SZ :: size_t

record 'h driver =
  g_std_dbg_ip_info :: ST_DBG_IP_DESIGN_INFO
  g_dbg_info_set :: bool
  g_mmio_handle :: int
  g_h2t_descriptor_slots_available :: u16
  g_mgmt_descriptor_slots_available :: u16
  g_h2t_descriptor_chain :: "u16 list"
  g_mgmt_descriptor_chain :: "u16 list"
  g_h2t_descriptor_write_idx :: u16
  g_h2t_descriptor_read_idx :: u16
  g_mgmt_descriptor_write_idx :: u16
  g_mgmt_descriptor_read_idx :: u16
  g_t2h_sop :: u8
  g_mgmt_rsp_sop :: u8
  g_h2t_rx_cbuff :: CIRCLE_BUFF
  g_mgmt_rx_cbuff :: CIRCLE_BUFF
  plat :: "'h platform"

text \<open>The globals before the program starts.\<close>

definition driver_start :: "'h platform \<Rightarrow> 'h driver" where
  "driver_start p =
     \<lparr>g_std_dbg_ip_info =
        \<lparr>ST_DBG_IP_CSR_BASE_ADDR = 0, H2T_MEM_BASE_ADDR = 0, H2T_MEM_SZ = 0,
         T2H_MEM_BASE_ADDR = 0, T2H_MEM_SZ = 0, MGMT_MEM_BASE_ADDR = 0, MGMT_MEM_SZ = 0,
         MGMT_RSP_MEM_BASE_ADDR = 0, MGMT_RSP_MEM_SZ = 0\<rparr>,
      g_dbg_info_set = False, g_mmio_handle = FPGA_MMIO_INTERFACE_INVALID_HANDLE,
      g_h2t_descriptor_slots_available = 0, g_mgmt_descriptor_slots_available = 0,
      g_h2t_descriptor_chain = replicate MAX_H2T_DESCRIPTOR_DEPTH 0,
      g_mgmt_descriptor_chain = replicate MAX_MGMT_DESCRIPTOR_DEPTH 0,
      g_h2t_descriptor_write_idx = 0, g_h2t_descriptor_read_idx = 0,
      g_mgmt_descriptor_write_idx = 0, g_mgmt_descriptor_read_idx = 0,
      g_t2h_sop = 1, g_mgmt_rsp_sop = 1,
      g_h2t_rx_cbuff = cbuff_init 0 0, g_mgmt_rx_cbuff = cbuff_init 0 0, plat = p\<rparr>"

section \<open>Register access\<close>

definition rd32 :: "'h bus \<Rightarrow> u32 \<Rightarrow> 'h driver \<Rightarrow> (u32 \<times> 'h driver) option" where
  "rd32 bus reg d = do {
     (v, p) \<leftarrow> fpga_read_32 bus (g_mmio_handle d) reg (plat d);
     Some (v, d\<lparr>plat := p\<rparr>)
   }"

definition wr32 :: "'h bus \<Rightarrow> u32 \<Rightarrow> u32 \<Rightarrow> 'h driver \<Rightarrow> 'h driver option" where
  "wr32 bus reg v d = do {
     p \<leftarrow> fpga_write_32 bus (g_mmio_handle d) reg v (plat d);
     Some (d\<lparr>plat := p\<rparr>)
   }"

definition rd64 :: "'h bus \<Rightarrow> u32 \<Rightarrow> 'h driver \<Rightarrow> (u64 \<times> 'h driver) option" where
  "rd64 bus reg d = do {
     (v, p) \<leftarrow> fpga_read_64 bus (g_mmio_handle d) reg (plat d);
     Some (v, d\<lparr>plat := p\<rparr>)
   }"

definition wr64 :: "'h bus \<Rightarrow> u32 \<Rightarrow> u64 \<Rightarrow> 'h driver \<Rightarrow> 'h driver option" where
  "wr64 bus reg v d = do {
     p \<leftarrow> fpga_write_64 bus (g_mmio_handle d) reg v (plat d);
     Some (d\<lparr>plat := p\<rparr>)
   }"

section \<open>Configuration registers\<close>

definition set_loopback_mode :: "'h bus \<Rightarrow> int \<Rightarrow> 'h driver \<Rightarrow> 'h driver option" where
  "set_loopback_mode bus val d = do {
     (rd, d1) \<leftarrow> rd32 bus ST_DBG_IP_CONFIG_RESET_AND_LOOPBACK d;
     if val = 1
     then wr32 bus ST_DBG_IP_CONFIG_RESET_AND_LOOPBACK
            (rd OR ST_DBG_IP_CONFIG_LOOPBACK_FIELD OR ST_DBG_IP_CONFIG_H2T_T2H_RESET_FIELD) d1
     else wr32 bus ST_DBG_IP_CONFIG_RESET_AND_LOOPBACK
            ((rd AND NOT ST_DBG_IP_CONFIG_LOOPBACK_FIELD) OR ST_DBG_IP_CONFIG_H2T_T2H_RESET_FIELD) d1
   }"

definition get_loopback_mode :: "'h bus \<Rightarrow> 'h driver \<Rightarrow> (int \<times> 'h driver) option" where
  "get_loopback_mode bus d = do {
     (rd, d1) \<leftarrow> rd32 bus ST_DBG_IP_CONFIG_RESET_AND_LOOPBACK d;
     Some (if rd AND ST_DBG_IP_CONFIG_LOOPBACK_FIELD > 0 then 1 else 0, d1)
   }"

definition enable_interrupts :: "'h bus \<Rightarrow> int \<Rightarrow> 'h driver \<Rightarrow> 'h driver option" where
  "enable_interrupts bus val d = do {
     (rd, d1) \<leftarrow> rd32 bus ST_DBG_IP_CONFIG_RESET_AND_LOOPBACK d;
     if val = 1
     then wr32 bus ST_DBG_IP_CONFIG_RESET_AND_LOOPBACK (rd OR ST_DBG_IP_CONFIG_ENABLE_INT_FIELD) d1
     else wr32 bus ST_DBG_IP_CONFIG_RESET_AND_LOOPBACK (rd AND NOT ST_DBG_IP_CONFIG_ENABLE_INT_FIELD) d1
   }"

definition get_mgmt_support :: "'h bus \<Rightarrow> 'h driver \<Rightarrow> (int \<times> 'h driver) option" where
  "get_mgmt_support bus d = do {
     (rd, d1) \<leftarrow> rd32 bus ST_DBG_IP_CONFIG_MGMT_MGMT_RSP_DESC_DEPTH d;
     Some (if rd > 0 then 1 else 0, d1)
   }"

definition check_version_and_type :: "'h bus \<Rightarrow> 'h driver \<Rightarrow> (int \<times> 'h driver) option" where
  "check_version_and_type bus d = do {
     (type_version, d1) \<leftarrow> rd64 bus ST_DBG_IP_CONFIG_TYPE d;
     let type = (ucast type_version :: u32);
     let version = (ucast (drop_bit 32 type_version) :: u32);
     Some (if type \<noteq> SUPPORTED_TYPE \<or> version \<noteq> SUPPORTED_VERSION then -1 else 0, d1)
   }"

definition assert_h2t_t2h_reset :: "'h bus \<Rightarrow> 'h driver \<Rightarrow> 'h driver option" where
  "assert_h2t_t2h_reset bus d =
     wr32 bus ST_DBG_IP_CONFIG_RESET_AND_LOOPBACK ST_DBG_IP_CONFIG_H2T_T2H_RESET_FIELD d"

section \<open>Initialisation\<close>

definition set_design_info :: "ST_DBG_IP_DESIGN_INFO \<Rightarrow> 'h driver \<Rightarrow> 'h driver" where
  "set_design_info info d = d\<lparr>g_std_dbg_ip_info := info, g_dbg_info_set := True\<rparr>"

text \<open>
  The native 32- and 64-bit accesses exist on this platform, so the exception under the first
  \<open>#if\<close> is not compiled. The handle that the function stores in the caller's context is the
  global one.
\<close>

definition init_driver :: "'h bus \<Rightarrow> int \<Rightarrow> 'h driver \<Rightarrow> (int \<times> 'h driver) option" where
  "init_driver bus mmio_handle d0 = do {
     let d = d0\<lparr>g_mmio_handle := mmio_handle\<rparr>;
     if \<not> g_dbg_info_set d then Some (INIT_ERROR_CODE_MISSING_INFO, d)
     else do {
       (rc, d1) \<leftarrow> check_version_and_type bus d;
       if rc \<noteq> 0 then Some (INIT_ERROR_CODE_INCOMPATIBLE_IP, d1)
       else do {
         d2 \<leftarrow> assert_h2t_t2h_reset bus d1;
         let d3 = d2\<lparr>g_h2t_descriptor_write_idx := 0, g_h2t_descriptor_read_idx := 0,
                     g_mgmt_descriptor_write_idx := 0, g_mgmt_descriptor_read_idx := 0\<rparr>;
         (h2t, d4) \<leftarrow> rd32 bus ST_DBG_IP_H2T_AVAILABLE_SLOTS d3;
         let d5 = d4\<lparr>g_h2t_descriptor_slots_available := ucast h2t\<rparr>;
         (mgmt, d6) \<leftarrow> rd32 bus ST_DBG_IP_MGMT_AVAILABLE_SLOTS d5;
         let d7 = d6\<lparr>g_mgmt_descriptor_slots_available := ucast mgmt\<rparr>;
         let info = g_std_dbg_ip_info d7;
         Some (0, d7\<lparr>g_t2h_sop := 1, g_mgmt_rsp_sop := 1,
                     g_h2t_rx_cbuff := cbuff_init (H2T_MEM_BASE_ADDR info) (H2T_MEM_SZ info),
                     g_mgmt_rx_cbuff := cbuff_init (MGMT_MEM_BASE_ADDR info) (MGMT_MEM_SZ info)\<rparr>)
       }
     }
   }"

section \<open>Buffers for outgoing data\<close>

text \<open>
  The loop that adds up the sizes of the completed descriptors. Its counter \<open>i\<close> is a \<open>char\<close>:
  it wraps around at 128 where \<open>char\<close> is signed and at 256 where it is not (the parameter
  \<open>char_signed\<close>), and it is compared with a \<open>uint32_t\<close>. The index is a C remainder, negative
  for a negative counter. No result is an access outside the chain or a loop without end.
\<close>

definition char_inc :: "bool \<Rightarrow> int \<Rightarrow> int" where
  "char_inc char_signed i = (if char_signed then signed_take_bit 7 (i + 1) else take_bit 8 (i + 1))"

partial_function (option) sum_freed ::
  "bool \<Rightarrow> u16 list \<Rightarrow> nat \<Rightarrow> u16 \<Rightarrow> u32 \<Rightarrow> int \<Rightarrow> size_t \<Rightarrow> size_t option" where
  "sum_freed char_signed chain depth read_idx freed i bytes_freed =
     (if word_of_int i < freed
      then let k = (int (unat read_idx) + i) smod int depth
           in if 0 \<le> k \<and> nat k < length chain
              then sum_freed char_signed chain depth read_idx freed (char_inc char_signed i)
                     (bytes_freed + ucast (chain ! nat k))
              else None
      else Some bytes_freed)"

text \<open>
  Storing the descriptor size in the chain truncates it to 16 bits. The write index is the one
  before the increment.
\<close>

definition get_h2t_buffer ::
  "'h bus \<Rightarrow> bool \<Rightarrow> size_t \<Rightarrow> 'h driver \<Rightarrow> (u32 \<times> 'h driver) option" where
  "get_h2t_buffer bus char_signed sz d = do {
     (avail, d1) \<leftarrow> rd32 bus ST_DBG_IP_H2T_AVAILABLE_SLOTS d;
     let freed_descriptor_slots = avail - ucast (g_h2t_descriptor_slots_available d1);
     d2 \<leftarrow>
       (if freed_descriptor_slots > 0
        then do {
          bytes_freed \<leftarrow> sum_freed char_signed (g_h2t_descriptor_chain d1) MAX_H2T_DESCRIPTOR_DEPTH
                          (g_h2t_descriptor_read_idx d1) freed_descriptor_slots 0 0;
          c \<leftarrow> cbuff_free (g_h2t_rx_cbuff d1) bytes_freed;
          Some (d1\<lparr>g_h2t_descriptor_slots_available :=
                     ucast (ucast (g_h2t_descriptor_slots_available d1) + freed_descriptor_slots),
                   g_h2t_descriptor_read_idx :=
                     ucast ((ucast (g_h2t_descriptor_read_idx d1) + freed_descriptor_slots)
                            mod of_nat MAX_H2T_DESCRIPTOR_DEPTH),
                   g_h2t_rx_cbuff := c\<rparr>)
        }
        else Some d1);
     let aligned_sz = GET_ALIGNED_SZ sz;
     if g_h2t_descriptor_slots_available d2 > 0 \<and> space_available (g_h2t_rx_cbuff d2) \<ge> aligned_sz
     then do {
       let w = unat (g_h2t_descriptor_write_idx d2) mod MAX_H2T_DESCRIPTOR_DEPTH;
       (a, c) \<leftarrow> cbuff_alloc (g_h2t_rx_cbuff d2) aligned_sz;
       Some (a, d2\<lparr>g_h2t_descriptor_chain := (g_h2t_descriptor_chain d2)[w := ucast aligned_sz],
                   g_h2t_descriptor_write_idx := g_h2t_descriptor_write_idx d2 + 1,
                   g_h2t_rx_cbuff := c\<rparr>)
     }
     else Some (0, d2)
   }"

definition get_mgmt_buffer ::
  "'h bus \<Rightarrow> bool \<Rightarrow> size_t \<Rightarrow> 'h driver \<Rightarrow> (u32 \<times> 'h driver) option" where
  "get_mgmt_buffer bus char_signed sz d = do {
     (avail, d1) \<leftarrow> rd32 bus ST_DBG_IP_MGMT_AVAILABLE_SLOTS d;
     let freed_descriptor_slots = avail - ucast (g_mgmt_descriptor_slots_available d1);
     d2 \<leftarrow>
       (if freed_descriptor_slots > 0
        then do {
          bytes_freed \<leftarrow> sum_freed char_signed (g_mgmt_descriptor_chain d1) MAX_MGMT_DESCRIPTOR_DEPTH
                          (g_mgmt_descriptor_read_idx d1) freed_descriptor_slots 0 0;
          c \<leftarrow> cbuff_free (g_mgmt_rx_cbuff d1) bytes_freed;
          Some (d1\<lparr>g_mgmt_descriptor_slots_available :=
                     ucast (ucast (g_mgmt_descriptor_slots_available d1) + freed_descriptor_slots),
                   g_mgmt_descriptor_read_idx :=
                     ucast ((ucast (g_mgmt_descriptor_read_idx d1) + freed_descriptor_slots)
                            mod of_nat MAX_MGMT_DESCRIPTOR_DEPTH),
                   g_mgmt_rx_cbuff := c\<rparr>)
        }
        else Some d1);
     let aligned_sz = GET_ALIGNED_SZ sz;
     if g_mgmt_descriptor_slots_available d2 > 0 \<and> space_available (g_mgmt_rx_cbuff d2) \<ge> aligned_sz
     then do {
       let w = unat (g_mgmt_descriptor_write_idx d2) mod MAX_MGMT_DESCRIPTOR_DEPTH;
       (a, c) \<leftarrow> cbuff_alloc (g_mgmt_rx_cbuff d2) aligned_sz;
       Some (a, d2\<lparr>g_mgmt_descriptor_chain := (g_mgmt_descriptor_chain d2)[w := ucast aligned_sz],
                   g_mgmt_descriptor_write_idx := g_mgmt_descriptor_write_idx d2 + 1,
                   g_mgmt_rx_cbuff := c\<rparr>)
     }
     else Some (0, d2)
   }"

section \<open>Descriptors\<close>

definition last_howlong_of :: "u16 \<Rightarrow> bool \<Rightarrow> u64" where
  "last_howlong_of data_len is_last =
     (let how_long = ucast (ucast data_len AND ST_DBG_IP_HOW_LONG_MASK) :: u64
      in if is_last then how_long OR ucast ST_DBG_IP_LAST_DESCRIPTOR_MASK else how_long)"

definition push_h2t_data ::
  "'h bus \<Rightarrow> H2T_PACKET_HEADER \<Rightarrow> u32 \<Rightarrow> 'h driver \<Rightarrow> (int \<times> 'h driver) option" where
  "push_h2t_data bus header payload d = do {
     let d0 = d\<lparr>g_h2t_descriptor_slots_available := g_h2t_descriptor_slots_available d - 1\<rparr>;
     let last_howlong = last_howlong_of (DATA_LEN_BYTES header)
                          (SOP_EOP header AND H2T_PACKET_HEADER_MASK_EOP \<noteq> 0);
     let howlong_where = last_howlong OR push_bit 32 (ucast payload);
     d1 \<leftarrow> wr64 bus ST_DBG_IP_H2T_HOW_LONG howlong_where d0;
     let connid_channelpush = ucast (CONN_ID header) OR push_bit 32 (ucast (CHANNEL header));
     d2 \<leftarrow> wr64 bus ST_DBG_IP_H2T_CONNECTION_ID connid_channelpush d1;
     Some (0, d2)
   }"

definition push_mgmt_data ::
  "'h bus \<Rightarrow> MGMT_PACKET_HEADER \<Rightarrow> u32 \<Rightarrow> 'h driver \<Rightarrow> (int \<times> 'h driver) option" where
  "push_mgmt_data bus header payload d = do {
     let d0 = d\<lparr>g_mgmt_descriptor_slots_available := g_mgmt_descriptor_slots_available d - 1\<rparr>;
     let last_howlong = last_howlong_of (M_DATA_LEN_BYTES header)
                          (M_SOP_EOP header AND MGMT_PACKET_HEADER_MASK_EOP \<noteq> 0);
     let howlong_where = last_howlong OR push_bit 32 (ucast payload);
     d1 \<leftarrow> wr64 bus ST_DBG_IP_MGMT_HOW_LONG howlong_where d0;
     let channel_id_push = push_bit 32 (ucast (M_CHANNEL header));
     d2 \<leftarrow> wr64 bus (ST_DBG_IP_MGMT_CHANNEL_ID_PUSH - 0x4) channel_id_push d1;
     Some (0, d2)
   }"

text \<open>
  The acquired header and payload address; an early return leaves the caller's payload as it
  was, so it is passed in.
\<close>

definition get_t2h_data ::
  "'h bus \<Rightarrow> H2T_PACKET_HEADER \<Rightarrow> u32 \<Rightarrow> 'h driver \<Rightarrow>
     (int \<times> H2T_PACKET_HEADER \<times> u32 \<times> 'h driver) option" where
  "get_t2h_data bus header payload d = do {
     (howlong_where, d1) \<leftarrow> rd64 bus ST_DBG_IP_T2H_HOW_LONG d;
     let last_howlong = (ucast howlong_where :: u32);
     let where1 = (ucast (drop_bit 32 howlong_where) :: u32);
     let h1 = header\<lparr>DATA_LEN_BYTES := ucast (last_howlong AND ST_DBG_IP_HOW_LONG_MASK)\<rparr>;
     if DATA_LEN_BYTES h1 = 0 then Some (0, h1, payload, d1)
     else do {
       let payload' = where1 + T2H_MEM_BASE_ADDR (g_std_dbg_ip_info d1);
       let sop = (if g_t2h_sop d1 \<noteq> 0 then 0 OR H2T_PACKET_HEADER_MASK_SOP else 0);
       let is_last = (last_howlong AND ST_DBG_IP_LAST_DESCRIPTOR_MASK \<noteq> 0);
       let h2 = h1\<lparr>SOP_EOP := (if is_last then sop OR H2T_PACKET_HEADER_MASK_EOP else sop)\<rparr>;
       let d2 = d1\<lparr>g_t2h_sop := (if is_last then 1 else 0)\<rparr>;
       (connid_channelid, d3) \<leftarrow> rd64 bus ST_DBG_IP_T2H_CONNECTION_ID d2;
       Some (0, h2\<lparr>CONN_ID := ucast connid_channelid,
                   CHANNEL := ucast (drop_bit 32 connid_channelid)\<rparr>, payload', d3)
     }
   }"

definition t2h_data_complete :: "'h bus \<Rightarrow> 'h driver \<Rightarrow> 'h driver option" where
  "t2h_data_complete bus d = wr32 bus ST_DBG_IP_T2H_DESCRIPTORS_DONE 1 d"

definition get_mgmt_rsp_data ::
  "'h bus \<Rightarrow> MGMT_PACKET_HEADER \<Rightarrow> u32 \<Rightarrow> 'h driver \<Rightarrow>
     (int \<times> MGMT_PACKET_HEADER \<times> u32 \<times> 'h driver) option" where
  "get_mgmt_rsp_data bus header payload d = do {
     (howlong_where, d1) \<leftarrow> rd64 bus ST_DBG_IP_MGMT_RSP_HOW_LONG d;
     let last_howlong = (ucast howlong_where :: u32);
     let where1 = (ucast (drop_bit 32 howlong_where) :: u32);
     let h1 = header\<lparr>M_DATA_LEN_BYTES := ucast (last_howlong AND ST_DBG_IP_HOW_LONG_MASK)\<rparr>;
     if M_DATA_LEN_BYTES h1 = 0 then Some (0, h1, payload, d1)
     else do {
       let payload' = where1 + MGMT_RSP_MEM_BASE_ADDR (g_std_dbg_ip_info d1);
       let sop = (if g_mgmt_rsp_sop d1 \<noteq> 0 then 0 OR H2T_PACKET_HEADER_MASK_SOP else 0);
       let is_last = (last_howlong AND ST_DBG_IP_LAST_DESCRIPTOR_MASK \<noteq> 0);
       let h2 = h1\<lparr>M_SOP_EOP := (if is_last then sop OR H2T_PACKET_HEADER_MASK_EOP else sop)\<rparr>;
       let d2 = d1\<lparr>g_mgmt_rsp_sop := (if is_last then 1 else 0)\<rparr>;
       (v, d3) \<leftarrow> rd64 bus (ST_DBG_IP_MGMT_RSP_CHANNEL_ID_ADVANCE - 0x4) d2;
       Some (0, h2\<lparr>M_CHANNEL := ucast (ucast (drop_bit 32 v) :: u32)\<rparr>, payload', d3)
     }
   }"

definition mgmt_rsp_data_complete :: "'h bus \<Rightarrow> 'h driver \<Rightarrow> 'h driver option" where
  "mgmt_rsp_data_complete bus d = wr32 bus ST_DBG_IP_MGMT_RSP_DESCRIPTORS_DONE 1 d"

section \<open>Copies between the host and the FPGA\<close>

text \<open>
  \<open>transfers\<close> 64-bit accesses; \<open>fpga_buff\<close> is an \<open>int32_t\<close> whose increment beyond its range is
  undefined behaviour, \<open>pos\<close> the position of \<open>host_buff\<close>.
\<close>

definition int32_add :: "int \<Rightarrow> int \<Rightarrow> int option" where
  "int32_add a b = (if in_int (a + b) then Some (a + b) else None)"

fun fpga2host_loop ::
  "'h bus \<Rightarrow> nat \<Rightarrow> int \<Rightarrow> nat \<Rightarrow> u8 list \<Rightarrow> 'h driver \<Rightarrow> (u8 list \<times> 'h driver) option" where
  "fpga2host_loop bus 0 fpga_buff pos host_buff d = Some (host_buff, d)"
| "fpga2host_loop bus (Suc n) fpga_buff pos host_buff d = do {
     (w, d1) \<leftarrow> rd64 bus (word_of_int fpga_buff) d;
     host_buff1 \<leftarrow> store_at pos (le_bytes 8 w) host_buff;
     fpga_buff1 \<leftarrow> int32_add fpga_buff 8;
     fpga2host_loop bus n fpga_buff1 (pos + 8) host_buff1 d1
   }"

definition memcpy64_fpga2host ::
  "'h bus \<Rightarrow> int \<Rightarrow> u8 list \<Rightarrow> size_t \<Rightarrow> 'h driver \<Rightarrow> (u8 list \<times> 'h driver) option" where
  "memcpy64_fpga2host bus fpga_buff host_buff len d =
     fpga2host_loop bus (unat ((len + 7) div 8)) fpga_buff 0 host_buff d"

fun host2fpga_loop ::
  "'h bus \<Rightarrow> nat \<Rightarrow> nat \<Rightarrow> int \<Rightarrow> u8 list \<Rightarrow> 'h driver \<Rightarrow> 'h driver option" where
  "host2fpga_loop bus 0 pos fpga_buff host_buff d = Some d"
| "host2fpga_loop bus (Suc n) pos fpga_buff host_buff d = do {
     w \<leftarrow> host_word pos host_buff;
     d1 \<leftarrow> wr64 bus (word_of_int fpga_buff) w d;
     fpga_buff1 \<leftarrow> int32_add fpga_buff 8;
     host2fpga_loop bus n (pos + 8) fpga_buff1 host_buff d1
   }"

definition memcpy64_host2fpga ::
  "'h bus \<Rightarrow> u8 list \<Rightarrow> int \<Rightarrow> size_t \<Rightarrow> 'h driver \<Rightarrow> 'h driver option" where
  "memcpy64_host2fpga bus host_buff fpga_buff len d =
     host2fpga_loop bus (unat ((len + 7) div 8)) 0 fpga_buff host_buff d"

section \<open>Driver parameters\<close>

definition set_driver_param ::
  "'h bus \<Rightarrow> u8 list \<Rightarrow> u8 list \<Rightarrow> 'h driver \<Rightarrow> (int \<times> 'h driver) option" where
  "set_driver_param bus param val d = do {
     is_loopback \<leftarrow> strncmp_eq param HW_LOOPBACK_PARAM HW_LOOPBACK_PARAM_LEN;
     if is_loopback
     then do {
       is_one \<leftarrow> strncmp_eq val (lit ''1'') 1;
       d1 \<leftarrow> (if is_one then set_loopback_mode bus 1 d else set_loopback_mode bus 0 d);
       Some (0, d1)
     }
     else Some (0, d)
   }"

text \<open>The null pointer of an unknown parameter is the inner \<open>None\<close>.\<close>

definition get_driver_param ::
  "'h bus \<Rightarrow> u8 list \<Rightarrow> 'h driver \<Rightarrow> (u8 list option \<times> 'h driver) option" where
  "get_driver_param bus param d = do {
     is_loopback \<leftarrow> strncmp_eq param HW_LOOPBACK_PARAM HW_LOOPBACK_PARAM_LEN;
     if is_loopback
     then do {
       (mode, d1) \<leftarrow> get_loopback_mode bus d;
       Some (Some (if mode = 0 then lit ''0'' else lit ''1''), d1)
     }
     else do {
       is_mgmt \<leftarrow> strncmp_eq param MGMT_SUPPORT_PARAM MGMT_SUPPORT_PARAM_LEN;
       if is_mgmt
       then do {
         (support, d1) \<leftarrow> get_mgmt_support bus d;
         Some (Some (if support = 1 then lit ''1'' else lit ''0''), d1)
       }
       else Some (None, d)
     }
   }"

end
