(* ===== verification/Sockets.thy ===== *)
theory Sockets
  imports Driver
begin

text \<open>
  The socket layer: \<^verbatim>\<open>streaming/inc/intel_st_debug_if_sockets.h\<close> and the Linux branches of
  \<^verbatim>\<open>streaming/src/intel_st_debug_if_sockets.c\<close>.

  The operating system is not code of the repository. The record \<open>os\<close> is what it will answer:
  for every socket the pieces in which the peer's bytes arrive and how much every \<open>send\<close>
  takes, and the results of the other calls in order; when a list is used up, \<open>recv\<close> reports
  the end of the stream and the other calls succeed. The record also logs what the server did:
  the bytes sent, the sockets closed, the options set. The lemmas show that the transfers do
  not depend on the pieces.
\<close>

section \<open>The operating system\<close>

datatype rx_event = Data "u8 list" | Fail int

datatype sockopt = Reuseaddr int | Tcp_nodelay int | Linger int int

record os =
  rx :: "int \<Rightarrow> rx_event list"
  tx :: "int \<Rightarrow> int list"
  sent :: "int \<Rightarrow> u8 list"
  accept_results :: "int list"
  setsockopt_results :: "int list"
  options_set :: "(int \<times> sockopt) list"
  close_results :: "int list"
  closed :: "int list"
  socket_results :: "int list"
  bind_results :: "int list"
  listen_results :: "int list"
  getsockname_result :: "int \<times> u16"
  fopen_ok :: bool
  files_written :: "(u8 list \<times> u8 list) list"
  last_errno :: int

definition INVALID_SOCKET :: int where "INVALID_SOCKET = -1"

text \<open>
  \<open>recv\<close> of at most \<open>n\<close> bytes: the result and the bytes. The rest of a piece stays; a piece
  without bytes is the end of the stream.
\<close>

definition os_recv :: "int \<Rightarrow> nat \<Rightarrow> os \<Rightarrow> int \<times> u8 list \<times> os" where
  "os_recv fd n w =
     (case rx w fd of
        [] \<Rightarrow> (0, [], w)
      | Fail r # es \<Rightarrow> (if r < 0 then r else -1, [], w\<lparr>rx := (rx w)(fd := es)\<rparr>)
      | Data bs # es \<Rightarrow>
          (int (length (take n bs)), take n bs,
           w\<lparr>rx := (rx w)(fd := (if length bs \<le> n then es else Data (drop n bs) # es))\<rparr>))"

definition os_send :: "int \<Rightarrow> u8 list \<Rightarrow> os \<Rightarrow> int \<times> os" where
  "os_send fd bytes w =
     (case tx w fd of
        [] \<Rightarrow> (int (length bytes), w\<lparr>sent := (sent w)(fd := sent w fd @ bytes)\<rparr>)
      | r # rs \<Rightarrow>
          (if r \<le> 0 then (r, w\<lparr>tx := (tx w)(fd := rs)\<rparr>)
           else (min r (int (length bytes)),
                 w\<lparr>tx := (tx w)(fd := rs), sent := (sent w)(fd := sent w fd @ take (nat r) bytes)\<rparr>)))"

text \<open>The next result of a list of results, or \<open>ok\<close>.\<close>

definition pop :: "int \<Rightarrow> int list \<Rightarrow> int \<times> int list" where
  "pop ok rs = (case rs of [] \<Rightarrow> (ok, []) | r # rs' \<Rightarrow> (r, rs'))"

definition os_accept :: "os \<Rightarrow> int \<times> os" where
  "os_accept w =
     (let (r, rs) = pop INVALID_SOCKET (accept_results w) in (r, w\<lparr>accept_results := rs\<rparr>))"

definition os_setsockopt :: "int \<Rightarrow> sockopt \<Rightarrow> os \<Rightarrow> int \<times> os" where
  "os_setsockopt fd opt w =
     (let (r, rs) = pop 0 (setsockopt_results w)
      in (r, w\<lparr>setsockopt_results := rs, options_set := options_set w @ [(fd, opt)]\<rparr>))"

definition os_close :: "int \<Rightarrow> os \<Rightarrow> int \<times> os" where
  "os_close fd w =
     (let (r, rs) = pop 0 (close_results w)
      in (r, w\<lparr>close_results := rs, closed := closed w @ [fd]\<rparr>))"

definition os_socket :: "os \<Rightarrow> int \<times> os" where
  "os_socket w = (let (r, rs) = pop INVALID_SOCKET (socket_results w) in (r, w\<lparr>socket_results := rs\<rparr>))"

definition os_bind :: "os \<Rightarrow> int \<times> os" where
  "os_bind w = (let (r, rs) = pop 0 (bind_results w) in (r, w\<lparr>bind_results := rs\<rparr>))"

definition os_listen :: "os \<Rightarrow> int \<times> os" where
  "os_listen w = (let (r, rs) = pop 0 (listen_results w) in (r, w\<lparr>listen_results := rs\<rparr>))"

section \<open>Transfers\<close>

text \<open>
  The loops return the code, the number that the code stores through \<open>bytes_sent\<close> or
  \<open>bytes_recvd\<close>, and the new state; \<open>n\<close> is \<open>bytes_remaining\<close> and \<open>off\<close> the position of the
  pointer in its buffer. A region that is not inside the buffer is undefined behaviour.
\<close>

function send_loop ::
  "int \<Rightarrow> u8 list \<Rightarrow> nat \<Rightarrow> nat \<Rightarrow> os \<Rightarrow> (RETURN_CODE \<times> int \<times> os) option" where
  "send_loop fd buff len n w =
     (if n = 0 then Some (OK, int len, w)
      else if length buff < len then None
      else let (r, w') = os_send fd (take n (drop (len - n) buff)) w
           in if r \<le> 0 then Some (FAILURE, r, w') else send_loop fd buff len (n - nat r) w')"
  by pat_completeness auto
termination
  by (relation "measure (\<lambda>(fd, buff, len, n, w). n)") auto

declare send_loop.simps [simp del]

definition socket_send_all ::
  "int \<Rightarrow> u8 list \<Rightarrow> size_t \<Rightarrow> os \<Rightarrow> (RETURN_CODE \<times> int \<times> os) option" where
  "socket_send_all fd buff len w = send_loop fd buff (unat len) (unat len) w"

function recv_null_loop ::
  "int \<Rightarrow> nat \<Rightarrow> nat \<Rightarrow> nat \<Rightarrow> u8 list \<Rightarrow> os \<Rightarrow> (RETURN_CODE \<times> int \<times> u8 list \<times> os) option" where
  "recv_null_loop fd max_len n off buff w =
     (if n = 0 then Some (FAILURE, int max_len, buff, w)
      else let (r, bs, w') = os_recv fd n w
           in if r \<le> 0 then Some (FAILURE, r, buff, w')
              else case store_at off bs buff of
                     None \<Rightarrow> None
                   | Some buff' \<Rightarrow>
                       if 0 \<in> set bs then Some (OK, int max_len - (int n - r), buff', w')
                       else recv_null_loop fd max_len (n - nat r) (off + nat r) buff' w')"
  by pat_completeness auto
termination
  by (relation "measure (\<lambda>(fd, max_len, n, off, buff, w). n)") auto

declare recv_null_loop.simps [simp del]

definition socket_recv_until_null_reached ::
  "int \<Rightarrow> u8 list \<Rightarrow> size_t \<Rightarrow> os \<Rightarrow> (RETURN_CODE \<times> int \<times> u8 list \<times> os) option" where
  "socket_recv_until_null_reached fd buff max_len w =
     recv_null_loop fd (unat max_len) (unat max_len) 0 buff w"

function recv_loop ::
  "int \<Rightarrow> nat \<Rightarrow> nat \<Rightarrow> nat \<Rightarrow> u8 list \<Rightarrow> os \<Rightarrow> (RETURN_CODE \<times> int \<times> u8 list \<times> os) option" where
  "recv_loop fd len n off buff w =
     (if n = 0 then Some (OK, int len, buff, w)
      else let (r, bs, w') = os_recv fd n w
           in if r \<le> 0 then Some (FAILURE, r, buff, w')
              else case store_at off bs buff of
                     None \<Rightarrow> None
                   | Some buff' \<Rightarrow> recv_loop fd len (n - nat r) (off + nat r) buff' w')"
  by pat_completeness auto
termination
  by (relation "measure (\<lambda>(fd, len, n, off, buff, w). n)") auto

declare recv_loop.simps [simp del]

definition socket_recv_accumulate ::
  "int \<Rightarrow> u8 list \<Rightarrow> size_t \<Rightarrow> os \<Rightarrow> (RETURN_CODE \<times> int \<times> u8 list \<times> os) option" where
  "socket_recv_accumulate fd buff len w = recv_loop fd (unat len) (unat len) 0 buff w"

section \<open>The transfers do not depend on the pieces\<close>

text \<open>The bytes a peer sends before the stream ends or fails.\<close>

fun stream :: "rx_event list \<Rightarrow> u8 list" where
  "stream [] = []"
| "stream (Fail r # es) = []"
| "stream (Data bs # es) = (if bs = [] then [] else bs @ stream es)"

text \<open>The other parts of the record are left alone by receiving.\<close>

definition only_rx :: "int \<Rightarrow> os \<Rightarrow> os \<Rightarrow> bool" where
  "only_rx fd w w' \<longleftrightarrow> (\<exists>es. w' = w\<lparr>rx := (rx w)(fd := es)\<rparr>)"

lemma only_rx_refl [simp]: "only_rx fd w w"
proof -
  have "w = w\<lparr>rx := (rx w)(fd := rx w fd)\<rparr>" by simp
  then show ?thesis unfolding only_rx_def by blast
qed

lemma only_rx_trans: "only_rx fd w w1 \<Longrightarrow> only_rx fd w1 w2 \<Longrightarrow> only_rx fd w w2"
  by (auto simp: only_rx_def)

lemma os_recv_data:
  assumes "stream (rx w fd) \<noteq> []" and "0 < n"
  obtains k w' where "os_recv fd n w = (int k, take k (stream (rx w fd)), w')"
    "0 < k" "k \<le> n" "k \<le> length (stream (rx w fd))"
    "stream (rx w' fd) = drop k (stream (rx w fd))" "only_rx fd w w'"
proof -
  from assms(1) obtain bs es where bs: "rx w fd = Data bs # es" "bs \<noteq> []"
    by (cases "rx w fd" rule: stream.cases) (auto split: if_splits)
  let ?k = "min n (length bs)"
  let ?w = "w\<lparr>rx := (rx w)(fd := (if length bs \<le> n then es else Data (drop n bs) # es))\<rparr>"
  show ?thesis
  proof (rule that [of ?k ?w])
    show "os_recv fd n w = (int ?k, take ?k (stream (rx w fd)), ?w)"
      using bs by (simp add: os_recv_def min_def)
    show "stream (rx ?w fd) = drop ?k (stream (rx w fd))"
      using bs by (simp add: min_def)
    show "0 < ?k" using bs assms(2) by simp
    show "?k \<le> length (stream (rx w fd))" using bs by simp
    show "only_rx fd w ?w" by (auto simp: only_rx_def)
  qed simp
qed

lemma os_recv_end:
  assumes "stream (rx w fd) = []"
  obtains r w' where "os_recv fd n w = (r, [], w')" "r \<le> 0" "only_rx fd w w'"
proof (cases "rx w fd" rule: stream.cases)
  case 1
  then show ?thesis by (intro that [of 0 w]) (simp_all add: os_recv_def)
next
  case (2 r es)
  then show ?thesis
    by (intro that [of "if r < 0 then r else -1" "w\<lparr>rx := (rx w)(fd := es)\<rparr>"])
       (auto simp: os_recv_def only_rx_def)
next
  case (3 bs es)
  with assms have "bs = []" by (auto split: if_splits)
  with 3 show ?thesis
    by (intro that [of 0 "w\<lparr>rx := (rx w)(fd := es)\<rparr>"]) (auto simp: os_recv_def only_rx_def)
qed

text \<open>Two pieces stored one behind the other are their concatenation, stored once.\<close>

lemma pieces_join:
  assumes "k \<le> length s" and "off + k \<le> length buff"
  shows "take (off + k) (take off buff @ take k s @ drop (off + k) buff) @ take j (drop k s) @
      drop (off + k + j) (take off buff @ take k s @ drop (off + k) buff) =
    take off buff @ take (k + j) s @ drop (off + (k + j)) buff"
proof -
  have "take (off + k) (take off buff @ take k s @ drop (off + k) buff) = take off buff @ take k s"
    "drop (off + k + j) (take off buff @ take k s @ drop (off + k) buff) = drop (off + (k + j)) buff"
    using assms by (simp_all add: min_def ac_simps)
  then show ?thesis by (simp only: take_add append_assoc)
qed

lemma recv_loop_ok:
  assumes "n \<le> length (stream (rx w fd))" and "off + n \<le> length buff"
  shows "\<exists>w'. recv_loop fd len n off buff w =
      Some (OK, int len, take off buff @ take n (stream (rx w fd)) @ drop (off + n) buff, w') \<and>
    stream (rx w' fd) = drop n (stream (rx w fd)) \<and> only_rx fd w w'"
  using assms
proof (induction n arbitrary: off buff w rule: less_induct)
  case (less n)
  let ?s = "stream (rx w fd)"
  show ?case
  proof (cases "n = 0")
    case True
    then show ?thesis by (subst recv_loop.simps) simp
  next
    case False
    with less.prems have "?s \<noteq> []" and "0 < n" by auto
    then obtain k w1 where r: "os_recv fd n w = (int k, take k ?s, w1)" "0 < k" "k \<le> n"
      "k \<le> length ?s" "stream (rx w1 fd) = drop k ?s" "only_rx fd w w1"
      by (rule os_recv_data)
    let ?b = "take off buff @ take k ?s @ drop (off + k) buff"
    have st: "store_at off (take k ?s) buff = Some ?b"
      using r less.prems by (simp add: store_at_fits)
    have "\<exists>w'. recv_loop fd len (n - k) (off + k) ?b w1 =
        Some (OK, int len, take (off + k) ?b @ take (n - k) (drop k ?s) @ drop (off + k + (n - k)) ?b, w') \<and>
      stream (rx w' fd) = drop (n - k) (drop k ?s) \<and> only_rx fd w1 w'"
      using less.IH [of "n - k" w1 "off + k" ?b] less.prems r by simp
    then obtain w' where w': "recv_loop fd len (n - k) (off + k) ?b w1 =
        Some (OK, int len, take (off + k) ?b @ take (n - k) (drop k ?s) @ drop (off + k + (n - k)) ?b, w')"
      "stream (rx w' fd) = drop (n - k) (drop k ?s)" "only_rx fd w1 w'" by blast
    have "take (off + k) ?b @ take (n - k) (drop k ?s) @ drop (off + k + (n - k)) ?b
        = take off buff @ take n ?s @ drop (off + n) buff"
      using pieces_join [of k ?s off buff "n - k"] r(3,4) less.prems by simp
    with w' r st False show ?thesis
      by (subst recv_loop.simps) (auto intro: only_rx_trans)
  qed
qed

lemma recv_loop_short:
  assumes "length (stream (rx w fd)) < n" and "off + n \<le> length buff"
  shows "\<exists>r buff' w'. recv_loop fd len n off buff w = Some (FAILURE, r, buff', w') \<and> r \<le> 0 \<and>
    length buff' = length buff \<and> only_rx fd w w'"
  using assms
proof (induction n arbitrary: off buff w rule: less_induct)
  case (less n)
  let ?s = "stream (rx w fd)"
  show ?case
  proof (cases "?s = []")
    case True
    then obtain r w1 where "os_recv fd n w = (r, [], w1)" "r \<le> 0" "only_rx fd w w1"
      by (rule os_recv_end)
    with less.prems show ?thesis by (subst recv_loop.simps) simp
  next
    case False
    from less.prems have "0 < n" by simp
    with False obtain k w1 where r: "os_recv fd n w = (int k, take k ?s, w1)" "0 < k" "k \<le> n"
      "k \<le> length ?s" "stream (rx w1 fd) = drop k ?s" "only_rx fd w w1"
      by (rule os_recv_data)
    let ?b = "take off buff @ take k ?s @ drop (off + k) buff"
    have st: "store_at off (take k ?s) buff = Some ?b"
      using r less.prems by (simp add: store_at_fits)
    have "\<exists>r' buff' w'. recv_loop fd len (n - k) (off + k) ?b w1 = Some (FAILURE, r', buff', w') \<and>
        r' \<le> 0 \<and> length buff' = length ?b \<and> only_rx fd w1 w'"
      using less.IH [of "n - k" w1 "off + k" ?b] less.prems r by simp
    with r st \<open>0 < n\<close> less.prems show ?thesis
      by (subst recv_loop.simps) (auto intro: only_rx_trans)
  qed
qed

text \<open>One turn of the loop that waits for a terminator.\<close>

lemma recv_null_stops:
  "os_recv fd n w = (r, bs, w1) \<Longrightarrow> r \<le> 0 \<Longrightarrow> 0 < n \<Longrightarrow> recv_null_loop fd mx n off buff w = Some (FAILURE, r, buff, w1)"
  by (subst recv_null_loop.simps) simp

lemma recv_null_piece:
  assumes "os_recv fd n w = (int k, bs, w1)" and "length bs = k" and "0 < k" and "k \<le> n" and "off + n \<le> length buff"
  shows "recv_null_loop fd mx n off buff w =
    (if 0 \<in> set bs then Some (OK, int mx - (int n - int k), take off buff @ bs @ drop (off + k) buff, w1)
     else recv_null_loop fd mx (n - k) (off + k) (take off buff @ bs @ drop (off + k) buff) w1)"
proof -
  have "store_at off bs buff = Some (take off buff @ bs @ drop (off + k) buff)" using assms(2,4,5) by (simp add: store_at_fits)
  with assms(1-4) show ?thesis by (subst recv_null_loop.simps) simp
qed

text \<open>
  A message up to its terminator: it is found however it arrives, but whatever arrives in the
  same piece behind the terminator is taken from the stream too. \<open>k\<close> bytes are taken.
\<close>

lemma recv_null_loop_result:
  assumes "off + n \<le> length buff"
  shows "\<exists>rc r k w'. recv_null_loop fd max_len n off buff w =
      Some (rc, r, take off buff @ take k (stream (rx w fd)) @ drop (off + k) buff, w') \<and>
    k \<le> n \<and> k \<le> length (stream (rx w fd)) \<and> only_rx fd w w' \<and>
    (if 0 \<in> set (take n (stream (rx w fd)))
     then rc = OK \<and> r = int max_len - (int n - int k) \<and> 0 \<in> set (take k (stream (rx w fd))) \<and>
       stream (rx w' fd) = drop k (stream (rx w fd))
     else rc = FAILURE)"
  using assms
proof (induction n arbitrary: off buff w rule: less_induct)
  case (less n)
  let ?s = "stream (rx w fd)"
  consider "n = 0" | "0 < n" "?s = []" | "0 < n" "?s \<noteq> []" by blast
  then show ?case
  proof cases
    case 1
    then show ?thesis by (subst recv_null_loop.simps) (auto intro: exI [of _ 0])
  next
    case 2
    from 2(2) obtain r w1 where "os_recv fd n w = (r, [], w1)" "r \<le> 0" "only_rx fd w w1"
      by (rule os_recv_end)
    with 2 recv_null_stops show ?thesis by (fastforce intro: exI [of _ 0])
  next
    case 3
    from 3(2,1) obtain k w1 where r: "os_recv fd n w = (int k, take k ?s, w1)" "0 < k" "k \<le> n"
      "k \<le> length ?s" "stream (rx w1 fd) = drop k ?s" "only_rx fd w w1"
      by (rule os_recv_data)
    let ?b = "take off buff @ take k ?s @ drop (off + k) buff"
    from recv_null_piece [OF r(1) _ r(2,3) less.prems] r(4) have turn: "recv_null_loop fd max_len n off buff w =
        (if 0 \<in> set (take k ?s) then Some (OK, int max_len - (int n - int k), ?b, w1)
         else recv_null_loop fd max_len (n - k) (off + k) ?b w1)" by simp
    have split: "take n ?s = take k ?s @ take (n - k) (drop k ?s)"
      using r(3) by (metis le_add_diff_inverse take_add)
    show ?thesis
    proof (cases "0 \<in> set (take k ?s)")
      case True
      with r split show ?thesis unfolding turn by auto
    next
      case False
      have "n - k < n" "off + k + (n - k) \<le> length ?b" using r 3 less.prems by simp_all
      from less.IH [OF this, of w1, unfolded r(5)] obtain rc r' j w' where
        j: "recv_null_loop fd max_len (n - k) (off + k) ?b w1 =
            Some (rc, r', take (off + k) ?b @ take j (drop k ?s) @ drop (off + k + j) ?b, w')"
        "j \<le> n - k" "j \<le> length (drop k ?s)" "only_rx fd w1 w'"
        "if 0 \<in> set (take (n - k) (drop k ?s))
         then rc = OK \<and> r' = int max_len - (int (n - k) - int j) \<and> 0 \<in> set (take j (drop k ?s)) \<and>
           stream (rx w' fd) = drop j (drop k ?s)
         else rc = FAILURE" by blast
      have whole: "take (off + k) ?b @ take j (drop k ?s) @ drop (off + k + j) ?b =
          take off buff @ take (k + j) ?s @ drop (off + (k + j)) buff"
        using r(3,4) less.prems by (intro pieces_join) simp_all
      have "recv_null_loop fd max_len n off buff w =
          Some (rc, r', take off buff @ take (k + j) ?s @ drop (off + (k + j)) buff, w')"
        using j(1) False unfolding whole turn by simp
      moreover have "if 0 \<in> set (take n ?s) then rc = OK \<and> r' = int max_len - (int n - int (k + j)) \<and>
          0 \<in> set (take (k + j) ?s) \<and> stream (rx w' fd) = drop (k + j) ?s else rc = FAILURE"
        using j(5) r(3) False unfolding split take_add by (auto simp: of_nat_diff add.commute split: if_splits)
      moreover have "k + j \<le> n" "k + j \<le> length ?s" using j(2,3) r(3,4) by simp_all
      ultimately show ?thesis using only_rx_trans [OF r(6) j(4)] by blast
    qed
  qed
qed

lemma recv_null_loop_ok:
  assumes "stream (rx w fd) = msg @ 0 # rest" and "0 \<notin> set msg" and "length msg < n"
    and "off + n \<le> length buff"
  shows "\<exists>k w'. recv_null_loop fd max_len n off buff w =
      Some (OK, int max_len - (int n - int k),
            take off buff @ take k (stream (rx w fd)) @ drop (off + k) buff, w') \<and>
    length msg < k \<and> k \<le> n \<and> k \<le> length (stream (rx w fd)) \<and>
    stream (rx w' fd) = drop k (stream (rx w fd)) \<and> only_rx fd w w'"
proof -
  have found: "0 \<in> set (take k (msg @ 0 # rest)) \<longleftrightarrow> length msg < k" for k
    using assms(2) by (auto simp: take_Cons' dest: in_set_takeD)
  show ?thesis
    using recv_null_loop_result [OF assms(4), of fd max_len w] unfolding assms(1) found if_P [OF assms(3)] by blast
qed

text \<open>Sending: the bytes that leave are a prefix of the message, the whole of it on success.\<close>

definition only_tx :: "int \<Rightarrow> os \<Rightarrow> os \<Rightarrow> bool" where
  "only_tx fd w w' \<longleftrightarrow> (\<exists>ts bs. w' = w\<lparr>tx := (tx w)(fd := ts), sent := (sent w)(fd := bs)\<rparr>)"

lemma only_tx_refl [simp]: "only_tx fd w w"
proof -
  have "w = w\<lparr>tx := (tx w)(fd := tx w fd), sent := (sent w)(fd := sent w fd)\<rparr>" by simp
  then show ?thesis unfolding only_tx_def by blast
qed

lemma only_tx_trans: "only_tx fd w w1 \<Longrightarrow> only_tx fd w1 w2 \<Longrightarrow> only_tx fd w w2"
  by (auto simp: only_tx_def) blast

lemma os_send_cases:
  assumes "bytes \<noteq> []"
  obtains k w' where "os_send fd bytes w = (int k, w')" "0 < k" "k \<le> length bytes"
      "sent w' fd = sent w fd @ take k bytes" "only_tx fd w w'"
  | r w' where "os_send fd bytes w = (r, w')" "r \<le> 0" "sent w' fd = sent w fd" "only_tx fd w w'"
proof (cases "tx w fd")
  case Nil
  let ?w = "w\<lparr>sent := (sent w)(fd := sent w fd @ bytes)\<rparr>"
  have "?w = w\<lparr>tx := (tx w)(fd := tx w fd), sent := (sent w)(fd := sent w fd @ bytes)\<rparr>" by simp
  then have "only_tx fd w ?w" unfolding only_tx_def by blast
  with Nil assms show ?thesis
    by (intro that(1) [of "length bytes" ?w]) (simp_all add: os_send_def)
next
  case (Cons r rs)
  show ?thesis
  proof (cases "r \<le> 0")
    case True
    let ?w = "w\<lparr>tx := (tx w)(fd := rs)\<rparr>"
    have "?w = w\<lparr>tx := (tx w)(fd := rs), sent := (sent w)(fd := sent w fd)\<rparr>" by simp
    then have "only_tx fd w ?w" unfolding only_tx_def by blast
    with Cons True show ?thesis
      by (intro that(2) [of r ?w]) (simp_all add: os_send_def)
  next
    case False
    let ?k = "min (nat r) (length bytes)"
    let ?w = "w\<lparr>tx := (tx w)(fd := rs), sent := (sent w)(fd := sent w fd @ take (nat r) bytes)\<rparr>"
    have "only_tx fd w ?w" unfolding only_tx_def by blast
    moreover have "take (nat r) bytes = take ?k bytes" by (simp add: min_def)
    moreover have "min r (int (length bytes)) = int ?k" using False by linarith
    ultimately show ?thesis
      using Cons False assms
      by (intro that(1) [of ?k ?w]) (simp_all add: os_send_def)
  qed
qed

lemma send_loop_result:
  assumes "n \<le> len" and "len \<le> length buff"
  shows "\<exists>rc r w' k. send_loop fd buff len n w = Some (rc, r, w') \<and>
    sent w' fd = sent w fd @ take k (drop (len - n) buff) \<and> only_tx fd w w' \<and>
    (rc = OK \<and> k = n \<and> r = int len \<or> rc = FAILURE \<and> k < n \<and> r \<le> 0)"
  using assms
proof (induction n arbitrary: w rule: less_induct)
  case (less n)
  let ?bs = "take n (drop (len - n) buff)"
  show ?case
  proof (cases "n = 0")
    case True
    then show ?thesis by (subst send_loop.simps) simp
  next
    case False
    with less.prems have "?bs \<noteq> []" by auto
    then show ?thesis
    proof (cases rule: os_send_cases [of ?bs fd w])
      case (2 r w1)
      with False less.prems show ?thesis
        by (subst send_loop.simps) (auto intro: exI [of _ 0])
    next
      case (1 k w1)
      have len_bs: "length ?bs = n" using less.prems by simp
      have "\<exists>rc r w' j. send_loop fd buff len (n - k) w1 = Some (rc, r, w') \<and>
        sent w' fd = sent w1 fd @ take j (drop (len - (n - k)) buff) \<and> only_tx fd w1 w' \<and>
        (rc = OK \<and> j = n - k \<and> r = int len \<or> rc = FAILURE \<and> j < n - k \<and> r \<le> 0)"
        using less.IH [of "n - k" w1] 1 less.prems by simp
      then obtain rc r w' j where j: "send_loop fd buff len (n - k) w1 = Some (rc, r, w')"
        "sent w' fd = sent w1 fd @ take j (drop (len - (n - k)) buff)" "only_tx fd w1 w'"
        "rc = OK \<and> j = n - k \<and> r = int len \<or> rc = FAILURE \<and> j < n - k \<and> r \<le> 0"
        by blast
      have k: "k \<le> n" using 1(3) len_bs by simp
      have "send_loop fd buff len n w = Some (rc, r, w')"
        using 1 j False less.prems by (subst send_loop.simps) simp
      moreover have "sent w' fd = sent w fd @ take (k + j) (drop (len - n) buff)"
      proof -
        have "len - (n - k) = k + (len - n)" using k less.prems by simp
        then show ?thesis using 1(4) j(2) k by (simp add: take_add min_def)
      qed
      moreover have "only_tx fd w w'" using 1(5) j(3) by (rule only_tx_trans)
      moreover have "rc = OK \<and> k + j = n \<and> r = int len \<or> rc = FAILURE \<and> k + j < n \<and> r \<le> 0"
        using j(4) k by auto
      ultimately show ?thesis by blast
    qed
  qed
qed

section \<open>Sets of descriptors\<close>

text \<open>
  \<open>FD_SET\<close> writes a bit of an array of \<open>FD_SETSIZE\<close> bits; for any other descriptor it is undefined
  behaviour. Waiting for input ends when there is some or the time is over, which makes no difference
  to the code.
\<close>

definition FD_SETSIZE :: int where "FD_SETSIZE = 1024"

definition fd_settable :: "int \<Rightarrow> bool" where
  "fd_settable fd \<longleftrightarrow> 0 \<le> fd \<and> fd < FD_SETSIZE"

definition wait_for_read_event :: "int \<Rightarrow> unit option" where
  "wait_for_read_event socket_fd = (if fd_settable socket_fd then Some () else None)"

section \<open>The state of the server process\<close>

text \<open>
  The driver, the operating system and the two static buffers of the socket layer. A buffer that
  is not allocated is a null pointer: no byte can be accessed through it.
\<close>

record 'h machine =
  drv :: "'h driver"
  osys :: os
  g_socket_recv_buff :: "u8 list option"
  g_socket_send_buff :: "u8 list option"

definition pointee :: "u8 list option \<Rightarrow> u8 list" where
  "pointee b = (case b of None \<Rightarrow> [] | Some bs \<Rightarrow> bs)"

text \<open>A call of the operating system.\<close>

definition on_os :: "(os \<Rightarrow> 'a \<times> os) \<Rightarrow> 'h machine \<Rightarrow> 'a \<times> 'h machine" where
  "on_os f m = (let (r, w) = f (osys m) in (r, m\<lparr>osys := w\<rparr>))"

definition PACKET_HEADER_SIZE :: size_t where "PACKET_HEADER_SIZE = 64"

definition free_tcpip_recv_send_buffer :: "'h machine \<Rightarrow> 'h machine" where
  "free_tcpip_recv_send_buffer m = m\<lparr>g_socket_recv_buff := None, g_socket_send_buff := None\<rparr>"

text \<open>
  \<open>mem1\<close> and \<open>mem2\<close> are what the two calls of \<open>malloc\<close> return for the requested size: nothing,
  or that many bytes of unknown content.
\<close>

definition alloc_tcpip_recv_send_buffer ::
  "(size_t \<Rightarrow> u8 list option) \<Rightarrow> (size_t \<Rightarrow> u8 list option) \<Rightarrow> size_t \<Rightarrow> 'h machine \<Rightarrow>
     RETURN_CODE \<times> 'h machine" where
  "alloc_tcpip_recv_send_buffer mem1 mem2 sz m =
     (let m1 = m\<lparr>g_socket_recv_buff := mem1 (sz + PACKET_HEADER_SIZE),
                 g_socket_send_buff := mem2 (sz + PACKET_HEADER_SIZE)\<rparr>
      in if g_socket_recv_buff m1 = None \<or> g_socket_send_buff m1 = None
         then (FAILURE, free_tcpip_recv_send_buffer m1)
         else (OK, m1))"

fun max_of_loop :: "int \<Rightarrow> int list \<Rightarrow> int" where
  "max_of_loop result [] = result"
| "max_of_loop result (s # ss) = max_of_loop (if s > result then s else result) ss"

definition max_of :: "int list \<Rightarrow> int" where
  "max_of ss = max_of_loop 0 ss"

text \<open>The conversion of an \<open>uint64_t\<close> address to the \<open>int32_t\<close> parameter of the copies.\<close>

definition int32_of :: "u64 \<Rightarrow> int" where
  "int32_of a = sint (ucast a :: u32)"

definition socket_send_all_t2h_data ::
  "'h bus \<Rightarrow> int \<Rightarrow> u64 \<Rightarrow> size_t \<Rightarrow> 'h machine \<Rightarrow> (RETURN_CODE \<times> int \<times> 'h machine) option" where
  "socket_send_all_t2h_data bus fd buff len m = do {
     (host, d) \<leftarrow> memcpy64_fpga2host bus (int32_of buff) (pointee (g_socket_send_buff m)) len (drv m);
     let m1 = m\<lparr>drv := d, g_socket_send_buff := map_option (\<lambda>_. host) (g_socket_send_buff m)\<rparr>;
     (ret, n, w) \<leftarrow> socket_send_all fd (pointee (g_socket_send_buff m1)) len (osys m1);
     Some (ret, n, m1\<lparr>osys := w\<rparr>)
   }"

definition socket_recv_accumulate_h2t_data ::
  "'h bus \<Rightarrow> int \<Rightarrow> u64 \<Rightarrow> size_t \<Rightarrow> 'h machine \<Rightarrow> (RETURN_CODE \<times> int \<times> 'h machine) option" where
  "socket_recv_accumulate_h2t_data bus fd buff len m = do {
     (rc, n, host, w) \<leftarrow> socket_recv_accumulate fd (pointee (g_socket_recv_buff m)) len (osys m);
     let m1 = m\<lparr>osys := w, g_socket_recv_buff := map_option (\<lambda>_. host) (g_socket_recv_buff m)\<rparr>;
     d \<leftarrow> (if rc \<noteq> FAILURE
          then memcpy64_host2fpga bus (pointee (g_socket_recv_buff m1)) (int32_of buff) len (drv m1)
          else Some (drv m1));
     Some (OK, n, m1\<lparr>drv := d\<rparr>)
   }"

definition initialize_sockets_library :: RETURN_CODE where
  "initialize_sockets_library = OK"

definition set_boolean_socket_option :: "int \<Rightarrow> (int \<Rightarrow> sockopt) \<Rightarrow> int \<Rightarrow> os \<Rightarrow> int \<times> os" where
  "set_boolean_socket_option fd option option_val w = os_setsockopt fd (option option_val) w"

definition set_tcp_no_delay :: "int \<Rightarrow> int \<Rightarrow> os \<Rightarrow> int \<times> os" where
  "set_tcp_no_delay fd no_delay w = os_setsockopt fd (Tcp_nodelay no_delay) w"

definition set_linger_socket_option :: "int \<Rightarrow> int \<Rightarrow> int \<Rightarrow> os \<Rightarrow> int \<times> os" where
  "set_linger_socket_option fd l_onoff l_linger w = os_setsockopt fd (Linger l_onoff l_linger) w"

definition close_socket_fd :: "int \<Rightarrow> os \<Rightarrow> int \<times> os" where
  "close_socket_fd fd w = os_close fd w"

definition get_last_socket_error :: "os \<Rightarrow> int" where
  "get_last_socket_error w = last_errno w"

text \<open>\<open>EAGAIN\<close> of Linux is 11.\<close>

definition is_last_socket_error_would_block :: "os \<Rightarrow> int" where
  "is_last_socket_error_would_block w = (if get_last_socket_error w = 11 then 1 else 0)"

definition get_last_socket_error_msg :: "(int \<Rightarrow> u8 list) \<Rightarrow> os \<Rightarrow> u8 list option" where
  "get_last_socket_error_msg strerror w =
     (if last_errno w > 0 then Some (strerror (last_errno w)) else None)"

lemma max_of_loop_bound:
  "result \<le> max_of_loop result ss \<and> (\<forall>s \<in> set ss. s \<le> max_of_loop result ss) \<and>
   max_of_loop result ss \<in> set (result # ss)"
proof (induction ss arbitrary: result)
  case Nil
  then show ?case by simp
next
  case (Cons s ss)
  from Cons.IH [of "if s > result then s else result"] show ?case
    by (auto split: if_splits)
qed

section \<open>Properties\<close>

text \<open>
  C36. \<open>socket_recv_accumulate\<close> does not depend on how the peer's bytes are cut into pieces: when
  the stream has \<open>len\<close> more bytes, exactly these are stored at the front of the buffer and taken
  from the stream, and no other socket is touched.
\<close>

theorem recv_accumulate_exact:
  assumes "unat len \<le> length (stream (rx w fd))" and "unat len \<le> length buff"
  shows "\<exists>w'. socket_recv_accumulate fd buff len w =
      Some (OK, int (unat len), take (unat len) (stream (rx w fd)) @ drop (unat len) buff, w') \<and>
    stream (rx w' fd) = drop (unat len) (stream (rx w fd)) \<and> (\<forall>f. f \<noteq> fd \<longrightarrow> rx w' f = rx w f) \<and>
    sent w' = sent w"
proof -
  from assms recv_loop_ok [of "unat len" w fd 0 buff "unat len"] obtain w' where
    "socket_recv_accumulate fd buff len w =
      Some (OK, int (unat len), take (unat len) (stream (rx w fd)) @ drop (unat len) buff, w')"
    "stream (rx w' fd) = drop (unat len) (stream (rx w fd))" "only_rx fd w w'"
    by (auto simp: socket_recv_accumulate_def)
  then show ?thesis by (auto simp: only_rx_def)
qed

text \<open>An operating system where nothing is pending, for the witnesses.\<close>

definition quiet_os :: os where
  "quiet_os =
     \<lparr>rx = (\<lambda>_. []), tx = (\<lambda>_. []), sent = (\<lambda>_. []), accept_results = [], setsockopt_results = [],
      options_set = [], close_results = [], closed = [], socket_results = [], bind_results = [],
      listen_results = [], getsockname_result = (0, 0), fopen_ok = True, files_written = [],
      last_errno = 0\<rparr>"

lemma recv_accumulate_exact_witness:
  "\<exists>w'. socket_recv_accumulate 5 [9, 9, 9, 9] 3 (quiet_os\<lparr>rx := (\<lambda>_. [Data [1], Data [2, 3, 4]])\<rparr>) =
      Some (OK, 3, [1, 2, 3, 9], w') \<and> stream (rx w' 5) = [4]"
  using recv_accumulate_exact
    [of 3 "quiet_os\<lparr>rx := (\<lambda>_. [Data [1], Data [2, 3, 4]])\<rparr>" 5 "[9, 9, 9, 9]"]
  by auto

text \<open>
  C37. A message up to its terminator is found however it arrives, within the given bound; the
  code also swallows whatever came in the same piece behind the terminator.
\<close>

theorem recv_until_null_finds_message:
  assumes "stream (rx w fd) = msg @ 0 # rest" and "0 \<notin> set msg" and "length msg < unat max_len"
    and "unat max_len \<le> length buff"
  shows "\<exists>n buff' w'. socket_recv_until_null_reached fd buff max_len w = Some (OK, n, buff', w') \<and>
    cstr buff' = Some msg \<and> length buff' = length buff \<and>
    (\<exists>lost. rest = lost @ stream (rx w' fd) \<and> n = int (length msg + 1 + length lost))"
proof -
  from recv_null_loop_ok [OF assms(1,2,3), of 0 buff "unat max_len"] assms(4) obtain k w' where
    k: "socket_recv_until_null_reached fd buff max_len w =
      Some (OK, int k, take k (stream (rx w fd)) @ drop k buff, w')" "length msg < k"
    "k \<le> unat max_len" "k \<le> length (stream (rx w fd))" "stream (rx w' fd) = drop k (stream (rx w fd))"
    by (auto simp: socket_recv_until_null_reached_def)
  let ?lost = "take (k - length msg - 1) rest"
  have split: "take k (msg @ 0 # rest) = msg @ 0 # ?lost" "drop k (msg @ 0 # rest) = drop (k - length msg - 1) rest"
    using k(2) by (simp_all add: take_Cons' drop_Cons')
  then have "cstr (take k (stream (rx w fd)) @ drop k buff) = Some msg"
    using assms(1,2) by (simp add: cstr_append_nul)
  moreover have "rest = ?lost @ stream (rx w' fd)"
    unfolding k(5) assms(1) split by simp
  moreover have "int k = int (length msg + 1 + length ?lost)"
    using k(2,4) assms(1) by simp
  moreover have "length (take k (stream (rx w fd)) @ drop k buff) = length buff"
    using k(3,4) assms(4) by simp
  ultimately show ?thesis
    using k(1) by blast
qed

lemma recv_until_null_finds_message_witness:
  "\<exists>n buff' w'. socket_recv_until_null_reached 5 (replicate 4 7) 4
      (quiet_os\<lparr>rx := (\<lambda>_. [Data [65], Data [66, 0, 67]])\<rparr>) = Some (OK, n, buff', w') \<and>
    cstr buff' = Some [65, 66]"
  using recv_until_null_finds_message
    [of "quiet_os\<lparr>rx := (\<lambda>_. [Data [65], Data [66, 0, 67]])\<rparr>" 5 "[65, 66]" "[67]" 4 "replicate 4 7"]
  by auto

text \<open>
  C38. \<open>socket_send_all\<close> either sends the whole message and says so, or reports the failing call
  and has sent a proper prefix; it never sends a byte twice or out of order, whatever every
  \<open>send\<close> takes.
\<close>

theorem send_all_prefix:
  assumes "unat len \<le> length buff"
  shows "\<exists>rc n w' k. socket_send_all fd buff len w = Some (rc, n, w') \<and>
    sent w' fd = sent w fd @ take k buff \<and> (\<forall>f. f \<noteq> fd \<longrightarrow> sent w' f = sent w f) \<and> rx w' = rx w \<and>
    (rc = OK \<and> k = unat len \<and> n = int (unat len) \<or> rc = FAILURE \<and> k < unat len \<and> n \<le> 0)"
proof -
  from send_loop_result [OF order_refl assms, of fd w] obtain rc n w' k where
    "socket_send_all fd buff len w = Some (rc, n, w')" "sent w' fd = sent w fd @ take k buff"
    "only_tx fd w w'"
    "rc = OK \<and> k = unat len \<and> n = int (unat len) \<or> rc = FAILURE \<and> k < unat len \<and> n \<le> 0"
    by (auto simp: socket_send_all_def)
  then show ?thesis by (auto simp: only_tx_def)
qed

lemma send_all_prefix_witness:
  "\<exists>rc n w' k. socket_send_all 5 [1, 2, 3] 3 (quiet_os\<lparr>tx := (\<lambda>_. [2, -1])\<rparr>) = Some (rc, n, w') \<and>
    sent w' 5 = take k [1, 2, 3]"
  using send_all_prefix [of 3 "[1, 2, 3]" 5 "quiet_os\<lparr>tx := (\<lambda>_. [2, -1])\<rparr>"]
  by (auto simp: quiet_os_def)

text \<open>
  C39. When the peer ends the stream or the connection breaks in the middle of a payload,
  \<open>socket_recv_accumulate_h2t_data\<close> still returns \<open>OK\<close>: nothing was copied to the FPGA, and the
  caller cannot tell.
\<close>

theorem h2t_recv_failure_reported_as_ok:
  assumes "length (stream (rx (osys m) fd)) < unat len" and "g_socket_recv_buff m = Some host"
    and "unat len \<le> length host"
  shows "\<exists>n m'. socket_recv_accumulate_h2t_data bus fd buff len m = Some (OK, n, m') \<and> n \<le> 0 \<and>
    drv m' = drv m"
  using recv_loop_short [OF assms(1), of 0 host "unat len"] assms(2,3)
  by (auto simp: socket_recv_accumulate_h2t_data_def socket_recv_accumulate_def pointee_def Let_def)

lemma h2t_recv_failure_reported_as_ok_witness:
  "\<exists>n m'. socket_recv_accumulate_h2t_data ram_bus 5 0x800 8
      \<lparr>drv = driver_start \<lparr>interfaces = empty_vec, device = (\<lambda>_. 0)\<rparr>, osys = quiet_os,
       g_socket_recv_buff = Some (replicate 64 0), g_socket_send_buff = None\<rparr> = Some (OK, n, m') \<and> n \<le> 0"
  using h2t_recv_failure_reported_as_ok
    [of "\<lparr>drv = driver_start \<lparr>interfaces = empty_vec, device = (\<lambda>_. 0)\<rparr>, osys = quiet_os,
       g_socket_recv_buff = Some (replicate 64 0), g_socket_send_buff = None\<rparr>" 5 8 "replicate 64 0"
       ram_bus "0x800"]
  by (auto simp: quiet_os_def)

end
