(* ===== verification/Server_State.thy ===== *)
theory Server_State
  imports Sockets
begin

text \<open>
  The data of the TCP server (\<^verbatim>\<open>streaming/inc/intel_st_debug_if_server.h\<close>), the default values of
  \<^verbatim>\<open>streaming/src/intel_st_debug_if_server.c\<close> and the start-up code of
  \<^verbatim>\<open>streaming/src/intel_st_debug_if_stream_dbg.c\<close> that fills them in.

  The callbacks are functions on the driver state, absent where the pointer is null. The server
  owns one \<open>SERVER_BUFFERS\<close> and one \<open>SERVER_CONN\<close>; the pointer between them is the field
  \<open>s_buff\<close>. The state \<open>srv\<close> holds them beside the process state \<open>machine\<close>.
\<close>

section \<open>Structures\<close>

datatype SERVER_LIFESPAN = SINGLE_CLIENT | MULTIPLE_CLIENTS

record SERVER_BUFFERS =
  ctrl_rx_buff :: "u8 list"
  ctrl_rx_buff_sz :: size_t
  ctrl_tx_buff :: "u8 list"
  ctrl_tx_buff_sz :: size_t
  h2t_header_buff :: "u8 list"
  t2h_header_buff :: "u8 list"
  mgmt_header_buff :: "u8 list"
  mgmt_rsp_header_buff :: "u8 list"
  use_wrapping_data_buffers :: bool
  h2t_rx_buff :: u32
  h2t_rx_buff_sz :: size_t
  mgmt_rx_buff :: u32
  mgmt_rx_buff_sz :: size_t
  t2h_tx_buff :: u32
  t2h_tx_buff_sz :: size_t
  mgmt_rsp_tx_buff :: u32
  mgmt_rsp_tx_buff_sz :: size_t

text \<open>A callback with outputs gets what they held before and returns what they hold after.\<close>

record 'h SERVER_HW_CALLBACKS =
  cb_init_driver :: "(int \<Rightarrow> 'h driver \<Rightarrow> (int \<times> 'h driver) option) option"
  cb_get_h2t_buffer :: "(size_t \<Rightarrow> 'h driver \<Rightarrow> (u32 \<times> 'h driver) option) option"
  cb_h2t_data_received ::
    "(H2T_PACKET_HEADER \<Rightarrow> u32 \<Rightarrow> 'h driver \<Rightarrow> (int \<times> 'h driver) option) option"
  cb_get_mgmt_buffer :: "(size_t \<Rightarrow> 'h driver \<Rightarrow> (u32 \<times> 'h driver) option) option"
  cb_mgmt_data_received ::
    "(MGMT_PACKET_HEADER \<Rightarrow> u32 \<Rightarrow> 'h driver \<Rightarrow> (int \<times> 'h driver) option) option"
  cb_acquire_t2h_data ::
    "(H2T_PACKET_HEADER \<Rightarrow> u32 \<Rightarrow> 'h driver \<Rightarrow>
        (int \<times> H2T_PACKET_HEADER \<times> u32 \<times> 'h driver) option) option"
  cb_t2h_data_complete :: "('h driver \<Rightarrow> 'h driver option) option"
  cb_acquire_mgmt_rsp_data ::
    "(MGMT_PACKET_HEADER \<Rightarrow> u32 \<Rightarrow> 'h driver \<Rightarrow>
        (int \<times> MGMT_PACKET_HEADER \<times> u32 \<times> 'h driver) option) option"
  cb_mgmt_rsp_data_complete :: "('h driver \<Rightarrow> 'h driver option) option"
  cb_has_mgmt_support :: "('h driver \<Rightarrow> (int \<times> 'h driver) option) option"
  cb_set_param :: "(u8 list \<Rightarrow> u8 list \<Rightarrow> 'h driver \<Rightarrow> (int \<times> 'h driver) option) option"
  cb_get_param :: "(u8 list \<Rightarrow> 'h driver \<Rightarrow> (u8 list option \<times> 'h driver) option) option"

record SERVER_PKT_STATS =
  h2t_cnt :: size_t
  t2h_cnt :: size_t
  mgmt_cnt :: size_t
  mgmt_rsp_cnt :: size_t

record 'h SERVER_CONN =
  s_buff :: SERVER_BUFFERS
  h2t_waiting :: bool
  mgmt_waiting :: bool
  hw_callbacks :: "'h SERVER_HW_CALLBACKS"
  loopback_mode :: int
  server_fd :: int
  server_port :: u16
  t2h_nagle :: int
  mgmt_rsp_nagle :: int
  pkt_stats :: SERVER_PKT_STATS

record CLIENT_CONN =
  ctrl_fd :: int
  mgmt_fd :: int
  mgmt_rsp_fd :: int
  h2t_data_fd :: int
  t2h_data_fd :: int

record 'h srv =
  mach :: "'h machine"
  conn :: "'h SERVER_CONN"

section \<open>Default values\<close>

definition SERVER_BUFFERS_default :: SERVER_BUFFERS where
  "SERVER_BUFFERS_default =
     \<lparr>ctrl_rx_buff = [], ctrl_rx_buff_sz = 0, ctrl_tx_buff = [], ctrl_tx_buff_sz = 0,
      h2t_header_buff = replicate (SIZEOF_PACKET_GUARDBAND + SIZEOF_H2T_PACKET_HEADER) 0,
      t2h_header_buff = replicate (SIZEOF_PACKET_GUARDBAND + SIZEOF_H2T_PACKET_HEADER) 0,
      mgmt_header_buff = replicate (SIZEOF_PACKET_GUARDBAND + SIZEOF_MGMT_PACKET_HEADER) 0,
      mgmt_rsp_header_buff = replicate (SIZEOF_PACKET_GUARDBAND + SIZEOF_MGMT_PACKET_HEADER) 0,
      use_wrapping_data_buffers = False,
      h2t_rx_buff = 0, h2t_rx_buff_sz = 0, mgmt_rx_buff = 0, mgmt_rx_buff_sz = 0,
      t2h_tx_buff = 0, t2h_tx_buff_sz = 0, mgmt_rsp_tx_buff = 0, mgmt_rsp_tx_buff_sz = 0\<rparr>"

definition SERVER_HW_CALLBACKS_default :: "'h SERVER_HW_CALLBACKS" where
  "SERVER_HW_CALLBACKS_default =
     \<lparr>cb_init_driver = None, cb_get_h2t_buffer = None, cb_h2t_data_received = None,
      cb_get_mgmt_buffer = None, cb_mgmt_data_received = None, cb_acquire_t2h_data = None,
      cb_t2h_data_complete = None, cb_acquire_mgmt_rsp_data = None,
      cb_mgmt_rsp_data_complete = None, cb_has_mgmt_support = None, cb_set_param = None,
      cb_get_param = None\<rparr>"

definition SERVER_PKT_STATS_default :: SERVER_PKT_STATS where
  "SERVER_PKT_STATS_default = \<lparr>h2t_cnt = 0, t2h_cnt = 0, mgmt_cnt = 0, mgmt_rsp_cnt = 0\<rparr>"

definition SERVER_CONN_default :: "'h SERVER_CONN" where
  "SERVER_CONN_default =
     \<lparr>s_buff = SERVER_BUFFERS_default, h2t_waiting = False, mgmt_waiting = False,
      hw_callbacks = SERVER_HW_CALLBACKS_default, loopback_mode = 0, server_fd = INVALID_SOCKET,
      server_port = 0, t2h_nagle = 0, mgmt_rsp_nagle = 0, pkt_stats = SERVER_PKT_STATS_default\<rparr>"

definition CLIENT_CONN_default :: CLIENT_CONN where
  "CLIENT_CONN_default =
     \<lparr>ctrl_fd = INVALID_SOCKET, mgmt_fd = INVALID_SOCKET, mgmt_rsp_fd = INVALID_SOCKET,
      h2t_data_fd = INVALID_SOCKET, t2h_data_fd = INVALID_SOCKET\<rparr>"

section \<open>Start-up\<close>

record intel_remote_debug_server_context =
  cxt_mmio_handle :: int
  h2t_t2h_mem_size :: size_t
  cxt_port :: int

definition JOP_MEM_SIZE_2K :: size_t where "JOP_MEM_SIZE_2K = 2048"
definition H2T_MEM_BASE_2K :: u32 where "H2T_MEM_BASE_2K = 0x800"
definition T2H_MEM_BASE_4K :: u32 where "T2H_MEM_BASE_4K = 0x1000"
definition ST_DBG_IF_BASE :: u32 where "ST_DBG_IF_BASE = 0"
definition CTRL_RX_BUFF_SZ :: nat where "CTRL_RX_BUFF_SZ = 512"
definition CTRL_TX_BUFF_SZ :: nat where "CTRL_TX_BUFF_SZ = 512"

text \<open>With \<open>ENABLE_MGMT\<close> 0, as the repository builds it.\<close>

definition get_hw_callbacks :: "'h bus \<Rightarrow> bool \<Rightarrow> 'h SERVER_HW_CALLBACKS" where
  "get_hw_callbacks bus char_signed =
     SERVER_HW_CALLBACKS_default
     \<lparr>cb_init_driver := Some (init_driver bus),
      cb_has_mgmt_support := Some (get_mgmt_support bus),
      cb_set_param := Some (set_driver_param bus),
      cb_get_param := Some (get_driver_param bus),
      cb_get_h2t_buffer := Some (get_h2t_buffer bus char_signed),
      cb_h2t_data_received := Some (push_h2t_data bus),
      cb_acquire_t2h_data := Some (get_t2h_data bus),
      cb_t2h_data_complete := Some (t2h_data_complete bus)\<rparr>"

text \<open>The conversion of a \<open>size_t\<close> to the \<open>uint32_t\<close> base addresses truncates.\<close>

definition get_design_info :: "intel_remote_debug_server_context \<Rightarrow> ST_DBG_IP_DESIGN_INFO" where
  "get_design_info context =
     (let sz = h2t_t2h_mem_size context; large = (sz > JOP_MEM_SIZE_2K)
      in \<lparr>ST_DBG_IP_CSR_BASE_ADDR = ST_DBG_IF_BASE,
          H2T_MEM_BASE_ADDR = (if large then ucast sz else H2T_MEM_BASE_2K), H2T_MEM_SZ = sz,
          T2H_MEM_BASE_ADDR = (if large then ucast (2 * sz) else T2H_MEM_BASE_4K), T2H_MEM_SZ = sz,
          MGMT_MEM_BASE_ADDR = 0, MGMT_MEM_SZ = 0,
          MGMT_RSP_MEM_BASE_ADDR = 0, MGMT_RSP_MEM_SZ = 0\<rparr>)"

definition init_st_dbg_transport_server_over_tcpip ::
  "int \<Rightarrow> size_t \<Rightarrow> int \<Rightarrow> intel_remote_debug_server_context \<Rightarrow> intel_remote_debug_server_context" where
  "init_st_dbg_transport_server_over_tcpip mmio_handle sz port context =
     context\<lparr>cxt_port := port, h2t_t2h_mem_size := sz, cxt_mmio_handle := mmio_handle\<rparr>"

text \<open>The buffers and the connection that \<open>start_st_dbg_transport_server_over_tcpip\<close> sets up.\<close>

definition start_buffers :: "ST_DBG_IP_DESIGN_INFO \<Rightarrow> SERVER_BUFFERS" where
  "start_buffers info =
     SERVER_BUFFERS_default
     \<lparr>use_wrapping_data_buffers := True,
      ctrl_rx_buff := replicate CTRL_RX_BUFF_SZ 0, ctrl_rx_buff_sz := of_nat CTRL_RX_BUFF_SZ,
      ctrl_tx_buff := replicate CTRL_TX_BUFF_SZ 0, ctrl_tx_buff_sz := of_nat CTRL_TX_BUFF_SZ,
      h2t_rx_buff := H2T_MEM_BASE_ADDR info, h2t_rx_buff_sz := H2T_MEM_SZ info,
      t2h_tx_buff := T2H_MEM_BASE_ADDR info, t2h_tx_buff_sz := T2H_MEM_SZ info,
      mgmt_rx_buff := MGMT_MEM_BASE_ADDR info, mgmt_rx_buff_sz := MGMT_MEM_SZ info,
      mgmt_rsp_tx_buff := MGMT_RSP_MEM_BASE_ADDR info,
      mgmt_rsp_tx_buff_sz := MGMT_RSP_MEM_SZ info\<rparr>"

definition start_conn :: "'h bus \<Rightarrow> bool \<Rightarrow> ST_DBG_IP_DESIGN_INFO \<Rightarrow> 'h SERVER_CONN" where
  "start_conn bus char_signed info =
     SERVER_CONN_default
     \<lparr>s_buff := start_buffers info, hw_callbacks := get_hw_callbacks bus char_signed\<rparr>"

section \<open>Access to the state\<close>

definition upd_buff :: "(SERVER_BUFFERS \<Rightarrow> SERVER_BUFFERS) \<Rightarrow> 'h srv \<Rightarrow> 'h srv" where
  "upd_buff f s = s\<lparr>conn := (conn s)\<lparr>s_buff := f (s_buff (conn s))\<rparr>\<rparr>"

definition upd_stats :: "(SERVER_PKT_STATS \<Rightarrow> SERVER_PKT_STATS) \<Rightarrow> 'h srv \<Rightarrow> 'h srv" where
  "upd_stats f s = s\<lparr>conn := (conn s)\<lparr>pkt_stats := f (pkt_stats (conn s))\<rparr>\<rparr>"

abbreviation bufs :: "'h srv \<Rightarrow> SERVER_BUFFERS" where
  "bufs s \<equiv> s_buff (conn s)"

definition world :: "'h srv \<Rightarrow> os" where
  "world s = osys (mach s)"

definition set_world :: "os \<Rightarrow> 'h srv \<Rightarrow> 'h srv" where
  "set_world w s = s\<lparr>mach := (mach s)\<lparr>osys := w\<rparr>\<rparr>"

text \<open>A call of a callback, and of the operating system, from the server.\<close>

definition on_drv :: "('h driver \<Rightarrow> ('a \<times> 'h driver) option) \<Rightarrow> 'h srv \<Rightarrow> ('a \<times> 'h srv) option" where
  "on_drv f s = do {
     (r, d) \<leftarrow> f (drv (mach s));
     Some (r, s\<lparr>mach := (mach s)\<lparr>drv := d\<rparr>\<rparr>)
   }"

definition sys :: "(os \<Rightarrow> 'a \<times> os) \<Rightarrow> 'h srv \<Rightarrow> 'a \<times> 'h srv" where
  "sys f s = (let (r, w) = f (world s) in (r, set_world w s))"

definition send_all :: "int \<Rightarrow> u8 list \<Rightarrow> size_t \<Rightarrow> 'h srv \<Rightarrow> (RETURN_CODE \<times> 'h srv) option" where
  "send_all fd bytes len s = do {
     (rc, n, w) \<leftarrow> socket_send_all fd bytes len (world s);
     Some (rc, set_world w s)
   }"

end
