(* ===== verification/Data_Path.thy ===== *)
theory Data_Path
  imports Server_State
begin

text \<open>
  The four data channels of the server: the \<^verbatim>\<open>process_*_data\<close> functions of
  \<^verbatim>\<open>streaming/src/intel_st_debug_if_server.c\<close>. A packet from a client is a header of ten bytes
  and a payload; the payload goes to a buffer of the IP's memory, which is a ring, so that it is
  split in two where it crosses the end of the ring.

  The management functions use FPGA addresses as host pointers (the code has a \<open>TODO\<close> about
  it): any byte accessed through such a pointer is undefined behaviour, the buffer \<open>wild_mem\<close>.
\<close>

section \<open>The wrap-around\<close>

definition buff_len_to_wrap_boundary :: "u64 \<Rightarrow> size_t \<Rightarrow> u64 \<Rightarrow> size_t \<Rightarrow> u64" where
  "buff_len_to_wrap_boundary buff_sa buff_sz buff payload_sz =
     (let mem_base = buff_sa; end_addr = mem_base + buff_sz
      in if buff + payload_sz > end_addr then end_addr - buff else 0)"

section \<open>From the client to the IP\<close>

definition header_len :: size_t where
  "header_len = of_nat (SIZEOF_PACKET_GUARDBAND + SIZEOF_H2T_PACKET_HEADER)"

definition mgmt_header_len :: size_t where
  "mgmt_header_len = of_nat (SIZEOF_PACKET_GUARDBAND + SIZEOF_MGMT_PACKET_HEADER)"

definition update_curr_h2t_header :: "CLIENT_CONN \<Rightarrow> 'h srv \<Rightarrow> (RETURN_CODE \<times> 'h srv) option" where
  "update_curr_h2t_header client s =
     (if \<not> h2t_waiting (conn s)
      then do {
        (rc, n, hb, w) \<leftarrow> socket_recv_accumulate (h2t_data_fd client) (h2t_header_buff (bufs s)) header_len (world s);
        Some (rc, upd_buff (\<lambda>b. b\<lparr>h2t_header_buff := hb\<rparr>) (set_world w s))
      }
      else Some (OK, s))"

definition recv_h2t ::
  "'h bus \<Rightarrow> int \<Rightarrow> u64 \<Rightarrow> size_t \<Rightarrow> 'h srv \<Rightarrow> (RETURN_CODE \<times> 'h srv) option" where
  "recv_h2t bus fd buff len s = do {
     (rc, n, m) \<leftarrow> socket_recv_accumulate_h2t_data bus fd buff len (mach s);
     Some (rc, s\<lparr>mach := m\<rparr>)
   }"

definition send_t2h ::
  "'h bus \<Rightarrow> int \<Rightarrow> u64 \<Rightarrow> size_t \<Rightarrow> 'h srv \<Rightarrow> (RETURN_CODE \<times> 'h srv) option" where
  "send_t2h bus fd buff len s = do {
     (rc, n, m) \<leftarrow> socket_send_all_t2h_data bus fd buff len (mach s);
     Some (rc, s\<lparr>mach := m\<rparr>)
   }"

text \<open>The buffer for a payload: the driver's, or the start of the memory in loopback mode.\<close>

definition h2t_target :: "size_t \<Rightarrow> 'h srv \<Rightarrow> (u64 \<times> 'h srv) option" where
  "h2t_target len s =
     (case cb_get_h2t_buffer (hw_callbacks (conn s)) of
        Some get_buffer \<Rightarrow>
          if loopback_mode (conn s) = 0
          then do { (a, s1) \<leftarrow> on_drv (get_buffer len) s; Some (ucast a, s1) }
          else Some (ucast (h2t_rx_buff (bufs s)), s)
      | None \<Rightarrow> Some (ucast (h2t_rx_buff (bufs s)), s))"

text \<open>Receiving a payload, in two parts where it wraps around.\<close>

definition recv_h2t_payload ::
  "'h bus \<Rightarrow> int \<Rightarrow> u64 \<Rightarrow> size_t \<Rightarrow> 'h srv \<Rightarrow> (RETURN_CODE \<times> 'h srv) option" where
  "recv_h2t_payload bus fd buff len s =
     (let b = bufs s;
          first_len = buff_len_to_wrap_boundary (ucast (h2t_rx_buff b)) (h2t_rx_buff_sz b) buff len
      in if use_wrapping_data_buffers b \<and> first_len \<noteq> 0
         then do {
           (rc, s1) \<leftarrow> recv_h2t bus fd buff first_len s;
           if rc = OK then recv_h2t bus fd (ucast (h2t_rx_buff b)) (len - first_len) s1
           else Some (rc, s1)
         }
         else recv_h2t bus fd buff len s)"

definition process_h2t_data :: "'h bus \<Rightarrow> CLIENT_CONN \<Rightarrow> 'h srv \<Rightarrow> (RETURN_CODE \<times> 'h srv) option" where
  "process_h2t_data bus client s0 = do {
     (rc, s) \<leftarrow> update_curr_h2t_header client s0;
     if rc \<noteq> OK then Some (rc, s)
     else do {
       header \<leftarrow> h2t_of_bytes (drop SIZEOF_PACKET_GUARDBAND (h2t_header_buff (bufs s)));
       let bytes_to_transfer = (ucast (DATA_LEN_BYTES header) :: size_t);
       (h2t_buff, s1) \<leftarrow> h2t_target bytes_to_transfer s;
       if h2t_buff \<noteq> 0
       then do {
         let s2 = upd_stats (\<lambda>st. st\<lparr>h2t_cnt := h2t_cnt st + 1\<rparr>) s1;
         let s3 = s2\<lparr>conn := (conn s2)\<lparr>h2t_waiting := False\<rparr>\<rparr>;
         (rc1, s4) \<leftarrow> recv_h2t_payload bus (h2t_data_fd client) h2t_buff bytes_to_transfer s3;
         if rc1 \<noteq> OK then Some (rc1, s4)
         else if loopback_mode (conn s4) = 0
         then (case cb_h2t_data_received (hw_callbacks (conn s4)) of
                 None \<Rightarrow> Some (OK, s4)
               | Some received \<Rightarrow> do {
                   (r, s5) \<leftarrow> on_drv (received header (ucast h2t_buff)) s4;
                   Some (return_code_of_int r, s5)
                 })
         else do {
           (rc2, s5) \<leftarrow> send_all (t2h_data_fd client) (h2t_header_buff (bufs s4)) header_len s4;
           if rc2 = OK then send_t2h bus (t2h_data_fd client) h2t_buff bytes_to_transfer s5
           else Some (rc2, s5)
         }
       }
       else Some (rc, s1\<lparr>conn := (conn s1)\<lparr>h2t_waiting := True\<rparr>\<rparr>)
     }
   }"

section \<open>From the IP to the client\<close>

text \<open>
  The header that the driver fills in lies in the server's own buffer, behind the guard band;
  the payload address is a local variable, \<open>pay0\<close> what it holds before.
\<close>

definition store_h2t_header :: "H2T_PACKET_HEADER \<Rightarrow> u8 list \<Rightarrow> u8 list option" where
  "store_h2t_header header bytes = store_at SIZEOF_PACKET_GUARDBAND (h2t_to_bytes header) bytes"

definition send_t2h_payload ::
  "'h bus \<Rightarrow> int \<Rightarrow> u64 \<Rightarrow> size_t \<Rightarrow> 'h srv \<Rightarrow> (RETURN_CODE \<times> 'h srv) option" where
  "send_t2h_payload bus fd buff len s =
     (let b = bufs s;
          first_len = buff_len_to_wrap_boundary (ucast (t2h_tx_buff b)) (t2h_tx_buff_sz b) buff len
      in if use_wrapping_data_buffers b \<and> first_len \<noteq> 0
         then do {
           (rc, s1) \<leftarrow> send_t2h bus fd buff first_len s;
           if rc = OK then send_t2h bus fd (ucast (t2h_tx_buff b)) (len - first_len) s1
           else Some (rc, s1)
         }
         else send_t2h bus fd buff len s)"

definition process_t2h_data ::
  "'h bus \<Rightarrow> u32 \<Rightarrow> CLIENT_CONN \<Rightarrow> 'h srv \<Rightarrow> (RETURN_CODE \<times> 'h srv) option" where
  "process_t2h_data bus pay0 client s = do {
     header0 \<leftarrow> h2t_of_bytes (drop SIZEOF_PACKET_GUARDBAND (t2h_header_buff (bufs s)));
     acquire \<leftarrow> cb_acquire_t2h_data (hw_callbacks (conn s));
     (r, header, t2h_buff, d) \<leftarrow> acquire header0 pay0 (drv (mach s));
     hb \<leftarrow> store_h2t_header header (t2h_header_buff (bufs s));
     let s1 = upd_buff (\<lambda>b. b\<lparr>t2h_header_buff := hb\<rparr>) (s\<lparr>mach := (mach s)\<lparr>drv := d\<rparr>\<rparr>);
     if r \<noteq> 0 then Some (FAILURE, s1)
     else if DATA_LEN_BYTES header = 0 then Some (OK, s1)
     else do {
       let s2 = upd_stats (\<lambda>st. st\<lparr>t2h_cnt := t2h_cnt st + 1\<rparr>) s1;
       (rc, s3) \<leftarrow> send_all (t2h_data_fd client) (t2h_header_buff (bufs s2)) header_len s2;
       if rc \<noteq> OK then Some (rc, s3)
       else do {
         (rc1, s4) \<leftarrow> send_t2h_payload bus (t2h_data_fd client) (ucast t2h_buff)
                        (ucast (DATA_LEN_BYTES header)) s3;
         if rc1 = OK
         then (case cb_t2h_data_complete (hw_callbacks (conn s4)) of
                 None \<Rightarrow> Some (rc1, s4)
               | Some complete \<Rightarrow> do {
                   d4 \<leftarrow> complete (drv (mach s4));
                   Some (rc1, s4\<lparr>mach := (mach s4)\<lparr>drv := d4\<rparr>\<rparr>)
                 })
         else Some (rc1, s4)
       }
     }
   }"

section \<open>Management\<close>

definition wild_mem :: "u8 list" where "wild_mem = []"

definition recv_wild :: "int \<Rightarrow> size_t \<Rightarrow> 'h srv \<Rightarrow> (RETURN_CODE \<times> 'h srv) option" where
  "recv_wild fd len s = do {
     (rc, n, mem, w) \<leftarrow> socket_recv_accumulate fd wild_mem len (world s);
     Some (rc, set_world w s)
   }"

definition update_curr_mgmt_header :: "CLIENT_CONN \<Rightarrow> 'h srv \<Rightarrow> (RETURN_CODE \<times> 'h srv) option" where
  "update_curr_mgmt_header client s =
     (if \<not> mgmt_waiting (conn s)
      then do {
        (rc, n, hb, w) \<leftarrow> socket_recv_accumulate (mgmt_fd client) (mgmt_header_buff (bufs s)) mgmt_header_len (world s);
        Some (rc, upd_buff (\<lambda>b. b\<lparr>mgmt_header_buff := hb\<rparr>) (set_world w s))
      }
      else Some (OK, s))"

definition mgmt_target :: "size_t \<Rightarrow> 'h srv \<Rightarrow> (u64 \<times> 'h srv) option" where
  "mgmt_target len s =
     (case cb_get_mgmt_buffer (hw_callbacks (conn s)) of
        Some get_buffer \<Rightarrow>
          if loopback_mode (conn s) = 0
          then do { (a, s1) \<leftarrow> on_drv (get_buffer len) s; Some (ucast a, s1) }
          else Some (ucast (mgmt_rx_buff (bufs s)), s)
      | None \<Rightarrow> Some (ucast (mgmt_rx_buff (bufs s)), s))"

definition recv_mgmt_payload :: "int \<Rightarrow> u64 \<Rightarrow> size_t \<Rightarrow> 'h srv \<Rightarrow> (RETURN_CODE \<times> 'h srv) option" where
  "recv_mgmt_payload fd buff len s =
     (let b = bufs s;
          first_len = buff_len_to_wrap_boundary (ucast (mgmt_rx_buff b)) (mgmt_rx_buff_sz b) buff len
      in if use_wrapping_data_buffers b \<and> first_len \<noteq> 0
         then do {
           (rc, s1) \<leftarrow> recv_wild fd first_len s;
           if rc = OK then recv_wild fd (len - first_len) s1 else Some (rc, s1)
         }
         else recv_wild fd len s)"

definition process_mgmt_data :: "CLIENT_CONN \<Rightarrow> 'h srv \<Rightarrow> (RETURN_CODE \<times> 'h srv) option" where
  "process_mgmt_data client s0 = do {
     (rc, s) \<leftarrow> update_curr_mgmt_header client s0;
     if rc \<noteq> OK then Some (rc, s)
     else do {
       header \<leftarrow> mgmt_of_bytes (drop SIZEOF_PACKET_GUARDBAND (mgmt_header_buff (bufs s)));
       let bytes_to_transfer = (ucast (M_DATA_LEN_BYTES header) :: size_t);
       (mgmt_buff, s1) \<leftarrow> mgmt_target bytes_to_transfer s;
       if mgmt_buff \<noteq> 0
       then do {
         let s2 = upd_stats (\<lambda>st. st\<lparr>mgmt_cnt := mgmt_cnt st + 1\<rparr>) s1;
         let s3 = s2\<lparr>conn := (conn s2)\<lparr>mgmt_waiting := False\<rparr>\<rparr>;
         (rc1, s4) \<leftarrow> recv_mgmt_payload (mgmt_fd client) mgmt_buff bytes_to_transfer s3;
         if rc1 \<noteq> OK then Some (rc1, s4)
         else if loopback_mode (conn s4) = 0
         then (case cb_mgmt_data_received (hw_callbacks (conn s4)) of
                 None \<Rightarrow> Some (OK, s4)
               | Some received \<Rightarrow> do {
                   (r, s5) \<leftarrow> on_drv (received header (ucast mgmt_buff)) s4;
                   Some (return_code_of_int r, s5)
                 })
         else do {
           (rc2, s5) \<leftarrow> send_all (mgmt_rsp_fd client) (mgmt_header_buff (bufs s4)) mgmt_header_len s4;
           if rc2 = OK then send_all (mgmt_rsp_fd client) wild_mem bytes_to_transfer s5
           else Some (rc2, s5)
         }
       }
       else Some (rc, s1\<lparr>conn := (conn s1)\<lparr>mgmt_waiting := True\<rparr>\<rparr>)
     }
   }"

definition send_mgmt_rsp_payload :: "int \<Rightarrow> u64 \<Rightarrow> size_t \<Rightarrow> 'h srv \<Rightarrow> (RETURN_CODE \<times> 'h srv) option" where
  "send_mgmt_rsp_payload fd buff len s =
     (let b = bufs s;
          first_len = buff_len_to_wrap_boundary (ucast (mgmt_rsp_tx_buff b)) (mgmt_rsp_tx_buff_sz b) buff len
      in if use_wrapping_data_buffers b \<and> first_len \<noteq> 0
         then do {
           (rc, s1) \<leftarrow> send_all fd wild_mem first_len s;
           if rc = OK then send_all fd wild_mem (len - first_len) s1 else Some (rc, s1)
         }
         else send_all fd wild_mem len s)"

definition process_mgmt_rsp_data :: "u32 \<Rightarrow> CLIENT_CONN \<Rightarrow> 'h srv \<Rightarrow> (RETURN_CODE \<times> 'h srv) option" where
  "process_mgmt_rsp_data pay0 client s = do {
     header0 \<leftarrow> mgmt_of_bytes (drop SIZEOF_PACKET_GUARDBAND (mgmt_rsp_header_buff (bufs s)));
     acquire \<leftarrow> cb_acquire_mgmt_rsp_data (hw_callbacks (conn s));
     (r, header, mgmt_rsp_buff, d) \<leftarrow> acquire header0 pay0 (drv (mach s));
     hb \<leftarrow> store_at SIZEOF_PACKET_GUARDBAND (mgmt_to_bytes header) (mgmt_rsp_header_buff (bufs s));
     let s1 = upd_buff (\<lambda>b. b\<lparr>mgmt_rsp_header_buff := hb\<rparr>) (s\<lparr>mach := (mach s)\<lparr>drv := d\<rparr>\<rparr>);
     if r \<noteq> 0 then Some (FAILURE, s1)
     else if M_DATA_LEN_BYTES header = 0 then Some (OK, s1)
     else do {
       let s2 = upd_stats (\<lambda>st. st\<lparr>mgmt_rsp_cnt := mgmt_rsp_cnt st + 1\<rparr>) s1;
       (rc, s3) \<leftarrow> send_all (mgmt_rsp_fd client) (mgmt_rsp_header_buff (bufs s2)) mgmt_header_len s2;
       if rc \<noteq> OK then Some (rc, s3)
       else do {
         (rc1, s4) \<leftarrow> send_mgmt_rsp_payload (mgmt_rsp_fd client) (ucast mgmt_rsp_buff)
                        (ucast (M_DATA_LEN_BYTES header)) s3;
         if rc1 = OK
         then (case cb_mgmt_rsp_data_complete (hw_callbacks (conn s4)) of
                 None \<Rightarrow> Some (rc1, s4)
               | Some complete \<Rightarrow> do {
                   d4 \<leftarrow> complete (drv (mach s4));
                   Some (rc1, s4\<lparr>mach := (mach s4)\<lparr>drv := d4\<rparr>\<rparr>)
                 })
         else Some (rc1, s4)
       }
     }
   }"

end
