(* ===== verification/Server_Laws.thy ===== *)
theory Server_Laws
  imports Server_State
begin

text \<open>
  Facts that the proofs about the server share: the parts of the state an access touches, and
  sending to a peer that takes what it is sent.
\<close>

section \<open>Access to the state\<close>

lemma world_set_mach: "world (s\<lparr>mach := m\<rparr>) = osys m"
  by (simp add: world_def)

lemma bufs_upd [simp]: "bufs (upd_buff f s) = f (bufs s)"
  by (simp add: upd_buff_def)

lemma mach_upd [simp]: "mach (upd_buff f s) = mach s" "mach (upd_stats g s) = mach s"
  by (simp_all add: upd_buff_def upd_stats_def)

lemma world_upd [simp]: "world (upd_buff f s) = world s" "world (upd_stats g s) = world s"
  "world (set_world w s) = w" "world (s\<lparr>conn := c\<rparr>) = world s"
  by (simp_all add: world_def set_world_def)

lemma set_world_other [simp]: "conn (set_world w s) = conn s" "drv (mach (set_world w s)) = drv (mach s)"
  by (simp_all add: set_world_def)

lemma set_world_twice [simp]: "set_world w (set_world w' s) = set_world w s"
  by (simp add: set_world_def)

lemma conn_upd_buff [simp]: "h2t_waiting (conn (upd_buff f s)) = h2t_waiting (conn s)"
  "loopback_mode (conn (upd_buff f s)) = loopback_mode (conn s)"
  "hw_callbacks (conn (upd_buff f s)) = hw_callbacks (conn s)"
  "server_fd (conn (upd_buff f s)) = server_fd (conn s)"
  by (simp_all add: upd_buff_def)

text \<open>The calls that answer from a list of results.\<close>

lemma pop_eq: "pop ok rs = (if rs = [] then ok else hd rs, tl rs)"
  by (cases rs) (simp_all add: pop_def)

lemma sys_setsockopt:
  "sys (os_setsockopt fd opt) s = (if setsockopt_results (world s) = [] then 0 else hd (setsockopt_results (world s)),
     set_world ((world s)\<lparr>setsockopt_results := tl (setsockopt_results (world s)),
       options_set := options_set (world s) @ [(fd, opt)]\<rparr>) s)"
  by (simp add: sys_def os_setsockopt_def pop_eq)

lemma sys_close:
  "sys (close_socket_fd fd) s = (if close_results (world s) = [] then 0 else hd (close_results (world s)),
     set_world ((world s)\<lparr>close_results := tl (close_results (world s)), closed := closed (world s) @ [fd]\<rparr>) s)"
  by (simp add: sys_def close_socket_fd_def os_close_def pop_eq)

lemma sys_accept:
  "sys os_accept s = (if accept_results (world s) = [] then INVALID_SOCKET else hd (accept_results (world s)),
     set_world ((world s)\<lparr>accept_results := tl (accept_results (world s))\<rparr>) s)"
  by (simp add: sys_def os_accept_def pop_eq)

lemma sys_linger: "sys (set_linger_socket_option fd a b) = sys (os_setsockopt fd (Linger a b))"
  by (simp add: set_linger_socket_option_def fun_eq_iff sys_def)

lemma sys_no_delay: "sys (set_tcp_no_delay fd n) = sys (os_setsockopt fd (Tcp_nodelay n))"
  by (simp add: set_tcp_no_delay_def fun_eq_iff sys_def)

lemmas sys_calls = sys_setsockopt sys_close sys_accept sys_linger sys_no_delay

section \<open>Sending to a peer that takes all\<close>

text \<open>A peer that takes something of everything that is sent, and never fails.\<close>

definition takes_all :: "int \<Rightarrow> os \<Rightarrow> bool" where
  "takes_all fd w \<longleftrightarrow> (\<forall>r \<in> set (tx w fd). 0 < r)"

lemma os_send_takes:
  assumes "takes_all fd w" and "bytes \<noteq> []"
  obtains k w' where "os_send fd bytes w = (int k, w')" "0 < k" "k \<le> length bytes"
    "sent w' fd = sent w fd @ take k bytes" "only_tx fd w w'" "takes_all fd w'"
proof (cases rule: os_send_cases [OF assms(2), of fd w])
  case (1 k w')
  have "takes_all fd w'"
    using assms(1) 1(1) by (auto simp: takes_all_def os_send_def split: list.splits if_splits)
  with 1 show ?thesis by (intro that)
next
  case (2 r w')
  then have False
    using assms by (auto simp: takes_all_def os_send_def min_def split: list.splits if_splits)
  then show ?thesis by simp
qed

lemma send_loop_takes:
  assumes "takes_all fd w" and "n \<le> len" and "len \<le> length buff"
  shows "\<exists>w'. send_loop fd buff len n w = Some (OK, int len, w') \<and>
    sent w' fd = sent w fd @ take n (drop (len - n) buff) \<and> only_tx fd w w' \<and> takes_all fd w'"
  using assms
proof (induction n arbitrary: w rule: less_induct)
  case (less n)
  let ?bs = "take n (drop (len - n) buff)"
  show ?case
  proof (cases "n = 0")
    case True
    with less.prems show ?thesis by (subst send_loop.simps) simp
  next
    case False
    with less.prems have "?bs \<noteq> []" by auto
    with less.prems(1) obtain k w1 where k: "os_send fd ?bs w = (int k, w1)" "0 < k" "k \<le> length ?bs"
      "sent w1 fd = sent w fd @ take k ?bs" "only_tx fd w w1" "takes_all fd w1"
      by (rule os_send_takes)
    have kn: "k \<le> n" using k(3) less.prems by simp
    have "n - k < n" "n - k \<le> len" using k(2) False less.prems by simp_all
    from less.IH [OF this(1) k(6) this(2) less.prems(3)] obtain w' where
      w': "send_loop fd buff len (n - k) w1 = Some (OK, int len, w')"
      "sent w' fd = sent w1 fd @ take (n - k) (drop (len - (n - k)) buff)" "only_tx fd w1 w'"
      "takes_all fd w'" by blast
    have pos: "len - (n - k) = k + (len - n)" using kn less.prems by simp
    have "take k ?bs = take k (drop (len - n) buff)" using kn by (simp add: min_absorb1)
    then have "take k ?bs @ take (n - k) (drop (len - (n - k)) buff) = ?bs"
      unfolding pos by (metis kn drop_drop le_add_diff_inverse take_add)
    then have "sent w' fd = sent w fd @ ?bs" using w'(2) k(4) by simp
    moreover have "send_loop fd buff len n w = Some (OK, int len, w')"
      using k w'(1) False less.prems by (subst send_loop.simps) simp
    ultimately show ?thesis using w'(3,4) k(5) by (blast intro: only_tx_trans)
  qed
qed

lemma send_all_takes:
  assumes "takes_all fd (world s)" and "unat len \<le> length bytes"
  shows "\<exists>w. send_all fd bytes len s = Some (OK, set_world w s) \<and>
    sent w fd = sent (world s) fd @ take (unat len) bytes \<and> only_tx fd (world s) w \<and> takes_all fd w"
  using send_loop_takes [OF assms(1) order_refl assms(2)]
  by (auto simp: send_all_def socket_send_all_def)

section \<open>What receiving leaves alone\<close>

lemma os_recv_only_rx: "os_recv fd n w = (r, bs, w') \<Longrightarrow> only_rx fd w w'"
  by (auto simp: os_recv_def only_rx_def split: list.splits rx_event.splits) (metis only_rx_def only_rx_refl)

lemma recv_loop_only_rx:
  "recv_loop fd len n off buff w = Some (rc, r, buff', w') \<Longrightarrow> only_rx fd w w'"
proof (induction fd len n off buff w rule: recv_loop.induct)
  case (1 fd len n off buff w)
  obtain k bs w1 where os: "os_recv fd n w = (k, bs, w1)" by (cases "os_recv fd n w") auto
  note first = os_recv_only_rx [OF os]
  show ?case
  proof (cases "n = 0 \<or> k \<le> 0")
    case True
    with 1(2) os first show ?thesis
      by (subst (asm) recv_loop.simps) (auto split: if_splits)
  next
    case False
    with 1(2) os obtain buff1 where st: "store_at off bs buff = Some buff1"
      "recv_loop fd len (n - nat k) (off + nat k) buff1 w1 = Some (rc, r, buff', w')"
      by (subst (asm) recv_loop.simps) (auto split: option.splits)
    with 1(1) [OF _ os [symmetric] refl refl _ st(1)] False have "only_rx fd w1 w'" by auto
    with first show ?thesis by (rule only_rx_trans)
  qed
qed

section \<open>Receiving a text\<close>

text \<open>What is in the buffer afterwards: the text, its terminator, and bytes of no meaning.\<close>

lemma recv_text:
  assumes "stream (rx w fd) = msg @ 0 # rest" and "0 \<notin> set msg" and "length msg < unat max_len"
    and "unat max_len \<le> length buff"
  obtains n junk w' where
    "socket_recv_until_null_reached fd buff max_len w = Some (OK, n, msg @ 0 # junk, w')"
    "length msg + Suc (length junk) = length buff" "only_rx fd w w'"
proof -
  from recv_null_loop_ok [OF assms(1,2,3), of 0 buff "unat max_len"] assms(4) obtain k w' where
    k: "socket_recv_until_null_reached fd buff max_len w =
      Some (OK, int k, take k (stream (rx w fd)) @ drop k buff, w')" "length msg < k"
    "k \<le> unat max_len" "k \<le> length (stream (rx w fd))" "only_rx fd w w'"
    by (auto simp: socket_recv_until_null_reached_def)
  let ?junk = "take (k - length msg - 1) rest @ drop k buff"
  have "take k (msg @ 0 # rest) = msg @ 0 # take (k - length msg - 1) rest"
    using k(2) by (simp add: take_Cons')
  then have "take k (stream (rx w fd)) @ drop k buff = msg @ 0 # ?junk"
    unfolding assms(1) by (simp only: append_assoc append_Cons)
  moreover have "length msg + Suc (length ?junk) = length buff"
    using k(2,3,4) assms(1,4) by simp
  ultimately show thesis using k(1,5) that by metis
qed

end
