(* ===== verification/Descriptor_Ring.thy ===== *)
theory Descriptor_Ring
  imports Driver
begin

text \<open>
  The outgoing descriptor channels of \<^verbatim>\<open>streaming/src/intel_st_debug_if_st_dbg_ip_driver.c\<close>.

  The driver and the IP share a ring of at most 128 descriptors and a circular buffer of
  memory. The driver learns that descriptors are done from a register that counts the free
  slots, adds up the sizes it noted for them and gives that much memory back. It notes a size in
  16 bits, so that what a size has in multiples of 65536 is lost when its descriptor is done.
  \<open>chan_ok\<close> says when its bookkeeping is right: it is the queue of the sizes in flight, oldest
  first, with the bytes lost so far. The lemmas show that \<open>get_h2t_buffer\<close> and \<open>get_mgmt_buffer\<close> are always defined, that they
  implement the queue and keep the bookkeeping right.
\<close>

section \<open>One channel\<close>

record chan =
  slots :: u16
  chain :: "u16 list"
  wr_idx :: u16
  rd_idx :: u16
  ring :: CIRCLE_BUFF

definition chan_free :: "bool \<Rightarrow> u32 \<Rightarrow> chan \<Rightarrow> chan option" where
  "chan_free char_signed avail c = do {
     let freed = avail - ucast (slots c);
     if freed > 0
     then do {
       bytes \<leftarrow> sum_freed char_signed (chain c) 128 (rd_idx c) freed 0 0;
       r \<leftarrow> cbuff_free (ring c) bytes;
       Some (c\<lparr>slots := ucast (ucast (slots c) + freed),
               rd_idx := ucast ((ucast (rd_idx c) + freed) mod 128), ring := r\<rparr>)
     }
     else Some c
   }"

definition chan_take :: "size_t \<Rightarrow> chan \<Rightarrow> (u32 \<times> chan) option" where
  "chan_take sz c =
     (if slots c > 0 \<and> space_available (ring c) \<ge> GET_ALIGNED_SZ sz
      then do {
        (a, r) \<leftarrow> cbuff_alloc (ring c) (GET_ALIGNED_SZ sz);
        Some (a, c\<lparr>chain := (chain c)[unat (wr_idx c) mod 128 := ucast (GET_ALIGNED_SZ sz)],
                   wr_idx := wr_idx c + 1, ring := r\<rparr>)
      }
      else Some (0, c))"

definition chan_get_buffer :: "bool \<Rightarrow> u32 \<Rightarrow> size_t \<Rightarrow> chan \<Rightarrow> (u32 \<times> chan) option" where
  "chan_get_buffer char_signed avail sz c = do {
     c1 \<leftarrow> chan_free char_signed avail c;
     chan_take sz c1
   }"

text \<open>
  \<open>n\<close> is the number of descriptors the IP has, \<open>r\<close> the buffers taken but not yet pushed. The lost
  bytes lie before the oldest block in flight, and the driver takes them to be in use.
\<close>

definition chan_ok :: "nat \<Rightarrow> nat \<Rightarrow> chan \<Rightarrow> nat \<Rightarrow> nat list \<Rightarrow> bool" where
  "chan_ok n r c lost qs \<longleftrightarrow>
     cbuff_rel (ring c) (lost # qs) \<and> n \<le> 128 \<and> length (chain c) = 128 \<and>
     unat (slots c) + length qs = n + r \<and> unat (rd_idx c) < 128 \<and>
     unat (wr_idx c) mod 128 = (unat (rd_idx c) + length qs) mod 128 \<and>
     (\<forall>k < length qs. unat (chain c ! ((unat (rd_idx c) + k) mod 128)) = qs ! k mod 65536)"

text \<open>What is lost when the descriptors of the sizes \<open>qs\<close> are done.\<close>

definition unnoted :: "nat list \<Rightarrow> nat" where
  "unnoted qs = (\<Sum>q\<leftarrow>qs. q - q mod 65536)"

lemma noted_unnoted: "(\<Sum>q\<leftarrow>qs. q mod 65536) + unnoted qs = sum_list qs"
  by (induction qs) (simp_all add: unnoted_def)

lemma unnoted_dvd: "65536 dvd unnoted qs"
  by (induction qs) (auto simp: unnoted_def minus_mod_eq_mult_div)

lemma cbuff_rel_sum: "sum_list ps = sum_list qs \<Longrightarrow> cbuff_rel c ps = cbuff_rel c qs"
  by (simp add: cbuff_rel_def)

section \<open>Alignment\<close>

definition align8 :: "nat \<Rightarrow> nat" where
  "align8 n = 8 * ((n + 7) div 8)"

lemma align8_bounds: "n \<le> align8 n" "align8 n < n + 8"
  by (simp_all add: align8_def)

lemma GET_ALIGNED_SZ_unat:
  assumes "unat n + 7 < 2 ^ 64"
  shows "unat (GET_ALIGNED_SZ n) = align8 (unat n)"
proof -
  have "push_bit ST_DBG_IP_BUFF_ALIGN_POW_2 1 = (8 :: size_t)"
    by (simp add: ST_DBG_IP_BUFF_ALIGN_POW_2_def)
  then have "n + push_bit ST_DBG_IP_BUFF_ALIGN_POW_2 1 - 1 = n + 7"
    by simp
  moreover have "unat (n + 7) = unat n + 7"
    using assms by (subst unat_add_below) simp_all
  then have "unat (drop_bit 3 (n + 7)) = (unat n + 7) div 8"
    by (simp add: drop_bit_eq_div unat_div)
  then have d: "drop_bit 3 (n + 7) = of_nat ((unat n + 7) div 8)"
    by (metis word_nat_cases word_of_nat_eq_iff of_nat_unat ucast_id)
  have "push_bit 3 (of_nat ((unat n + 7) div 8) :: size_t) = of_nat (align8 (unat n))"
    by (simp add: push_bit_eq_mult align8_def mult.commute)
  moreover have "align8 (unat n) < 2 ^ 64"
    using assms by (simp add: align8_def)
  then have "unat (of_nat (align8 (unat n)) :: size_t) = align8 (unat n)"
    by (intro unat_of_nat_small) simp
  ultimately show ?thesis
    using d by (simp only: GET_ALIGNED_SZ_def ALIGN_TO_def ST_DBG_IP_BUFF_ALIGN_POW_2_def)
qed

section \<open>Adding up the completed descriptors\<close>

text \<open>The value of the loop counter after \<open>i\<close> increments, for \<open>i\<close> up to 128.\<close>

definition counter :: "bool \<Rightarrow> nat \<Rightarrow> int" where
  "counter char_signed i = (if i < 128 then int i else if char_signed then - 128 else 128)"

lemma char_inc_counter:
  assumes "i < 128"
  shows "char_inc cs (int i) = counter cs (Suc i)"
proof (cases "i = 127")
  case True
  then show ?thesis by (simp add: char_inc_def counter_def)
next
  case False
  with assms have "int i + 1 < 128" by simp
  then have "signed_take_bit 7 (int i + 1) = int i + 1" and "take_bit 8 (int i + 1) = int i + 1"
    by (simp_all add: signed_take_bit_int_eq_self take_bit_int_eq_self)
  then show ?thesis
    using False assms by (simp add: char_inc_def counter_def)
qed

lemma counter_less:
  assumes "i \<le> 128" and "k \<le> 128"
  shows "(word_of_int (counter cs i) :: u32) < of_nat k \<longleftrightarrow> i < k"
proof -
  have "unat (of_nat k :: u32) = k"
    using assms by (intro unat_of_nat_small) simp
  moreover have "unat (word_of_int (int i) :: u32) = i" if "i < 128"
    using that by (simp add: unat_of_nat_small)
  ultimately show ?thesis
    using assms by (auto simp: counter_def word_less_nat_alt)
qed

lemma smod_nat: "int a smod int b = int (a mod b)"
  by (cases "a = 0") (simp_all add: smod_int_alt_def zmod_int)

lemma sum_freed_result:
  assumes "i \<le> k" and "k \<le> 128" and "length ch = 128" and "unat rd < 128"
  shows "sum_freed cs ch 128 rd (of_nat k) (counter cs i) acc =
    Some (acc + of_nat (\<Sum>j\<leftarrow>[i..<k]. unat (ch ! ((unat rd + j) mod 128))))"
  using assms
proof (induction "k - i" arbitrary: i acc)
  case 0
  then have "i = k" by simp
  with 0 show ?case
    by (subst sum_freed.simps) (simp add: counter_less)
next
  case (Suc m)
  then have i: "i < k" "i < 128" by simp_all
  let ?j = "(unat rd + i) mod 128"
  have idx: "(int (unat rd) + counter cs i) smod int 128 = int ?j"
    using i smod_nat [of "unat rd + i" 128] by (simp only: counter_def if_True of_nat_add)
  have lt: "(word_of_int (counter cs i) :: u32) < of_nat k"
    using i Suc.prems by (simp add: counter_less)
  have inc: "char_inc cs (counter cs i) = counter cs (Suc i)"
    using i char_inc_counter [of i cs] by (simp add: counter_def)
  have "sum_freed cs ch 128 rd (of_nat k) (counter cs i) acc =
    sum_freed cs ch 128 rd (of_nat k) (counter cs (Suc i)) (acc + ucast (ch ! ?j))"
    using Suc.prems lt inc idx by (subst sum_freed.simps) (simp add: Let_def)
  also have "\<dots> = Some (acc + ucast (ch ! ?j)
      + of_nat (\<Sum>j\<leftarrow>[Suc i..<k]. unat (ch ! ((unat rd + j) mod 128))))"
    using Suc i by (intro Suc.hyps(1)) simp_all
  also have "(ucast (ch ! ?j) :: size_t) = of_nat (unat (ch ! ?j))"
    by simp
  finally show ?case
    using i by (simp add: upt_conv_Cons add.assoc)
qed

section \<open>The operations on the queue\<close>

lemma chan_ok_sum:
  assumes "chan_ok n r c lost qs" and "k \<le> length qs"
  shows "(\<Sum>j\<leftarrow>[0..<k]. unat (chain c ! ((unat (rd_idx c) + j) mod 128))) = (\<Sum>q\<leftarrow>take k qs. q mod 65536)"
proof -
  have "map (\<lambda>j. unat (chain c ! ((unat (rd_idx c) + j) mod 128))) [0..<k] = map (\<lambda>q. q mod 65536) (take k qs)"
    using assms by (intro nth_equalityI) (auto simp: chan_ok_def)
  then show ?thesis by simp
qed

lemma mod_pass: "k \<le> m \<Longrightarrow> ((a + k) mod n + m - k) mod n = (a + m) mod (n :: nat)"
  by (auto simp: le_iff_add mod_add_left_eq add.assoc)

text \<open>The 16-bit counters go through 32-bit arithmetic.\<close>

lemma slots_advance:
  assumes "unat (x :: u16) + k < 2 ^ 16"
  shows "unat (ucast (ucast x + of_nat k :: u32) :: u16) = unat x + k"
proof -
  have "(ucast x + of_nat k :: u32) = of_nat (unat x + k)" by simp
  then have "(ucast (ucast x + of_nat k :: u32) :: u16) = of_nat (unat x + k)"
    by (simp only:) (rule ucast_of_nat_down, simp)
  moreover have "unat (of_nat (unat x + k) :: u16) = unat x + k" using assms by (intro unat_of_nat_small) simp
  ultimately show ?thesis by (simp only:)
qed

lemma index_advance:
  assumes "unat (x :: u16) < 128" and "k \<le> 128"
  shows "unat (ucast ((ucast x + of_nat k :: u32) mod 128) :: u16) = (unat x + k) mod 128"
proof -
  have "(ucast x + of_nat k :: u32) = of_nat (unat x + k)" by simp
  moreover have "unat (of_nat (unat x + k) :: u32) = unat x + k"
    using assms by (intro unat_of_nat_small) simp
  ultimately have "unat ((ucast x + of_nat k :: u32) mod 128) = (unat x + k) mod 128"
    by (simp only: unat_mod) simp
  then show ?thesis by (simp add: unsigned_ucast_eq take_bit_nat_eq_self)
qed

lemma index_next:
  assumes "unat (x :: u16) mod 128 = m mod 128"
  shows "unat (x + 1) mod 128 = Suc m mod 128"
proof -
  have "unat (x + 1) mod 128 = (unat x + 1) mod 65536 mod 128" by (simp add: unat_word_ariths)
  also have "\<dots> = (unat x + 1) mod 128" by (simp add: mod_mod_cancel)
  also have "\<dots> = (m + 1) mod 128" using assms by (metis mod_add_left_eq)
  finally show ?thesis by simp
qed

text \<open>\<open>k\<close> more descriptors are reported done: the memory that was noted for them is given back.\<close>

lemma chan_free_ok:
  assumes ok: "chan_ok n 0 c lost qs" and v: "unat avail = unat (slots c) + k" and k: "k \<le> length qs"
  shows "\<exists>c'. chan_free cs avail c = Some c' \<and> chan_ok n 0 c' (lost + unnoted (take k qs)) (drop k qs) \<and>
    unat (slots c') = unat avail \<and> span (ring c') = span (ring c) \<and>
    raw_buff (ring c') = raw_buff (ring c)"
proof (cases "k = 0")
  case True
  with v have "avail = ucast (slots c)"
    by (simp add: word_unat_eq_iff unat_ucast_up)
  with True ok v show ?thesis by (simp add: chan_free_def unnoted_def)
next
  case False
  from ok k have n: "n \<le> 128" "length qs \<le> 128" "unat (slots c) + length qs = n"
    and len: "length (chain c) = 128" and rd: "unat (rd_idx c) < 128"
    and rel: "cbuff_rel (ring c) (lost # qs)"
    by (auto simp: chan_ok_def)
  have "avail = of_nat (unat (slots c) + k)" using v by (metis of_nat_unat ucast_id)
  then have freed: "avail - ucast (slots c) = of_nat k" by simp
  have "unat (of_nat k :: u32) = k"
    using k n by (intro unat_of_nat_small) simp
  with False have pos: "(of_nat k :: u32) > 0"
    by (simp add: word_less_nat_alt)
  let ?given = "\<Sum>q\<leftarrow>take k qs. q mod 65536" and ?lost = "lost + unnoted (take k qs)"
  have sum: "sum_freed cs (chain c) 128 (rd_idx c) (of_nat k) 0 0 = Some (of_nat ?given)"
    using sum_freed_result [of 0 k "chain c" "rd_idx c" cs 0] k n len rd
    by (simp add: counter_def chan_ok_sum [OF ok k])
  have split: "sum_list (lost # qs) = ?given + (?lost + sum_list (drop k qs))"
    using noted_unnoted [of "take k qs"] sum_list_append [of "take k qs" "drop k qs"] by simp
  then have rel': "cbuff_rel (ring c) ([?given] @ ?lost # drop k qs)"
    using rel cbuff_rel_sum [of "lost # qs" "[?given] @ ?lost # drop k qs"] by simp
  have "?given \<le> sum_list (lost # qs)" using split by simp
  also have "\<dots> \<le> 2 ^ 63" using rel by (simp add: cbuff_rel_def)
  finally have "unat (of_nat ?given :: size_t) = ?given" by (intro unat_of_nat_small) simp
  then obtain r where r: "cbuff_free (ring c) (of_nat ?given) = Some r" "cbuff_rel r (?lost # drop k qs)"
    using cb.free_rel [OF rel'] by auto
  then have same: "span r = span (ring c)" "raw_buff r = raw_buff (ring c)"
    by (auto simp: cbuff_free_def split: if_splits)
  let ?c = "c\<lparr>slots := ucast (ucast (slots c) + (of_nat k :: u32)),
              rd_idx := ucast ((ucast (rd_idx c) + (of_nat k :: u32)) mod 128), ring := r\<rparr>"
  have s': "unat (slots ?c) = unat (slots c) + k" using n k by (simp del: of_nat_add add: slots_advance)
  have rd': "unat (rd_idx ?c) = (unat (rd_idx c) + k) mod 128" using rd n k by (simp add: index_advance)
  have w: "((unat (rd_idx c) + k) mod 128 + length qs - k) mod 128 = (unat (rd_idx c) + length qs) mod 128"
    using k by (rule mod_pass)
  have "chan_ok n 0 ?c ?lost (drop k qs)"
    using ok r k n s' rd' w
    by (simp add: chan_ok_def mod_add_left_eq add.assoc)
  moreover have "chan_free cs avail c = Some ?c"
    using pos sum r by (simp add: chan_free_def freed Let_def)
  ultimately show ?thesis
    using s' v same by auto
qed

text \<open>
  A buffer is granted when a slot is free and the aligned size fits into the memory beside the sizes
  in flight and what is lost.
\<close>

definition grants :: "nat \<Rightarrow> size_t \<Rightarrow> chan \<Rightarrow> nat \<Rightarrow> nat list \<Rightarrow> bool" where
  "grants v sz c lost qs \<longleftrightarrow> 0 < v \<and> align8 (unat sz) + (lost + sum_list qs) \<le> unat (span (ring c))"

lemma chain_append:
  assumes "\<forall>k < length qs. unat (ch ! ((rd + k) mod 128)) = qs ! k mod 65536" and "length ch = 128" and "length qs < 128"
    and "unat (v :: u16) = q mod 65536" and "k < Suc (length qs)"
  shows "unat (ch[(rd + length qs) mod 128 := v] ! ((rd + k) mod 128)) = (qs @ [q]) ! k mod 65536"
proof (cases "k = length qs")
  case False
  with assms(5) have "k < length qs" by simp
  then have "(rd + k) mod 128 \<noteq> (rd + length qs) mod 128"
    using assms(3) by (intro mod_neq_close) simp_all
  with assms(1) \<open>k < length qs\<close> show ?thesis by (simp add: nth_append)
qed (use assms in simp)

lemma chan_take_ok:
  assumes ok: "chan_ok n 0 c lost qs" and sz: "unat sz < 2 ^ 63"
  shows "\<exists>a c'. chan_take sz c = Some (a, c') \<and>
    span (ring c') = span (ring c) \<and> raw_buff (ring c') = raw_buff (ring c) \<and>
    (if grants (unat (slots c)) sz c lost qs
     then chan_ok n 1 c' lost (qs @ [align8 (unat sz)]) \<and>
          a = raw_buff (ring c) + of_nat (block_start (ring c') (lost # qs @ [align8 (unat sz)]) (Suc (length qs)))
     else a = 0 \<and> c' = c)"
proof -
  let ?q = "align8 (unat sz)" and ?sz = "GET_ALIGNED_SZ sz" and ?w = "unat (wr_idx c) mod 128"
  have al: "unat ?sz = ?q" using sz by (intro GET_ALIGNED_SZ_unat) simp
  from ok have rel: "cbuff_rel (ring c) (lost # qs)" and n: "n \<le> 128" "unat (slots c) + length qs = n"
    by (auto simp: chan_ok_def)
  have room: "unat (space_available (ring c)) + (lost + sum_list qs) = unat (span (ring c))"
    using cb.room_cap [OF rel] by (simp add: cbuff_cap_def)
  have iff: "slots c > 0 \<and> space_available (ring c) \<ge> ?sz \<longleftrightarrow> grants (unat (slots c)) sz c lost qs"
    using room al by (auto simp: grants_def word_less_nat_alt word_le_nat_alt)
  show ?thesis
  proof (cases "grants (unat (slots c)) sz c lost qs")
    case False
    with iff show ?thesis by (auto simp: chan_take_def)
  next
    case True
    with iff obtain a r where r: "cbuff_alloc (ring c) ?sz = Some (a, r)" "cbuff_rel r (lost # qs @ [?q])"
      using cb.alloc_rel [OF rel, of ?sz] al by auto
    then have same: "span r = span (ring c)" "raw_buff r = raw_buff (ring c)"
        "read_offset r = read_offset (ring c)"
      by (auto simp: cbuff_alloc_def split: if_splits)
    have a: "a = raw_buff (ring c) + of_nat (block_start r (lost # qs @ [?q]) (Suc (length qs)))"
      using cbuff_alloc_address [OF rel r(1)] al same by (simp add: block_start_def)
    have lt: "length qs < 128" and rd: "unat (rd_idx c) < 128" and len: "length (chain c) = 128"
      and w: "?w = (unat (rd_idx c) + length qs) mod 128"
      using True ok n by (auto simp: grants_def chan_ok_def)
    let ?c = "c\<lparr>chain := (chain c)[?w := ucast ?sz], wr_idx := wr_idx c + 1, ring := r\<rparr>"
    have wr: "unat (wr_idx c + 1) mod 128 = Suc (unat (rd_idx c) + length qs) mod 128"
      using w by (rule index_next)
    have cast: "unat (ucast ?sz :: u16) = ?q mod 65536"
      using al by (simp add: unsigned_ucast_eq take_bit_eq_mod)
    have "unat ((chain c)[?w := ucast ?sz] ! ((unat (rd_idx c) + k) mod 128)) = (qs @ [?q]) ! k mod 65536"
      if "k < Suc (length qs)" for k
      unfolding w using ok lt len cast that by (intro chain_append) (auto simp: chan_ok_def)
    then have "chan_ok n 1 ?c lost (qs @ [?q])"
      using ok r same wr by (simp add: chan_ok_def)
    moreover have "chan_take sz c = Some (a, ?c)"
      using True iff r by (simp add: chan_take_def)
    ultimately show ?thesis
      using True a same by simp
  qed
qed

text \<open>
  What a request for \<open>sz\<close> bytes does when \<open>k\<close> more descriptors are done: \<open>c\<close> and \<open>c'\<close> are the channel
  before and after it, \<open>v\<close> the free slots and \<open>a\<close> the result.
\<close>

definition request_done :: "nat \<Rightarrow> nat \<Rightarrow> nat \<Rightarrow> size_t \<Rightarrow> nat \<Rightarrow> nat list \<Rightarrow> chan \<Rightarrow> u32 \<Rightarrow> chan \<Rightarrow> bool" where
  "request_done n v k sz lost qs c a c' \<longleftrightarrow>
     (let lost' = lost + unnoted (take k qs); qs' = drop k qs; q = align8 (unat sz)
      in span (ring c') = span (ring c) \<and> raw_buff (ring c') = raw_buff (ring c) \<and>
         (if grants v sz c lost' qs'
          then chan_ok n 1 c' lost' (qs' @ [q]) \<and>
               a = raw_buff (ring c) + of_nat (block_start (ring c') (lost' # qs' @ [q]) (Suc (length qs')))
          else a = 0 \<and> chan_ok n 0 c' lost' qs'))"

lemma chan_get_buffer_ok:
  assumes ok: "chan_ok n 0 c lost qs" and v: "unat avail = unat (slots c) + k" and k: "k \<le> length qs"
    and sz: "unat sz < 2 ^ 63"
  shows "\<exists>a c'. chan_get_buffer cs avail sz c = Some (a, c') \<and> request_done n (unat avail) k sz lost qs c a c'"
proof -
  from chan_free_ok [OF ok v k] obtain c1 where
    c1: "chan_free cs avail c = Some c1" "chan_ok n 0 c1 (lost + unnoted (take k qs)) (drop k qs)"
      "unat (slots c1) = unat avail" "span (ring c1) = span (ring c)" "raw_buff (ring c1) = raw_buff (ring c)"
    by blast
  from chan_take_ok [OF c1(2) sz] c1 show ?thesis
    by (fastforce simp: chan_get_buffer_def request_done_def grants_def Let_def split: if_splits)
qed

lemma chan_push_ok:
  assumes "chan_ok n 1 c lost qs" and "length qs \<le> n"
  shows "chan_ok n 0 (c\<lparr>slots := slots c - 1\<rparr>) lost qs"
proof -
  from assms have "1 \<le> unat (slots c)" by (auto simp: chan_ok_def)
  then have "unat (slots c - 1) = unat (slots c) - 1"
    by (subst unat_diff_le) (simp_all add: word_le_nat_alt)
  with assms \<open>1 \<le> unat (slots c)\<close> show ?thesis
    by (simp add: chan_ok_def)
qed

section \<open>The contract of a channel\<close>

text \<open>
  A part \<open>view\<close> of a larger state is a channel: taking a buffer acts on it as
  \<open>chan_get_buffer\<close> does with what the register \<open>avail\<close> says, and pushing takes one slot.
\<close>

locale desc_channel =
  fixes view :: "'d \<Rightarrow> chan"
    and avail :: "'d \<Rightarrow> (u32 \<times> 'd) option"
    and get_buffer :: "bool \<Rightarrow> size_t \<Rightarrow> 'd \<Rightarrow> (u32 \<times> 'd) option"
    and push :: "'p \<Rightarrow> u32 \<Rightarrow> 'd \<Rightarrow> (int \<times> 'd) option"
  assumes get_view: "avail d = Some (v, dv) \<Longrightarrow>
      map_option (map_prod id view) (get_buffer cs sz d) = chan_get_buffer cs v sz (view d)"
    and push_view: "push h a d = Some (r, d') \<Longrightarrow>
      view d' = (view d)\<lparr>slots := slots (view d) - 1\<rparr>"
begin

lemma get_buffer_ok:
  assumes "chan_ok n 0 (view d) lost qs" and "avail d = Some (v, dv)"
    and "unat v = unat (slots (view d)) + k" and "k \<le> length qs" and "unat sz < 2 ^ 63"
  shows "\<exists>a d'. get_buffer cs sz d = Some (a, d') \<and> request_done n (unat v) k sz lost qs (view d) a (view d')"
proof -
  from chan_get_buffer_ok [OF assms(1,3,4,5)] obtain a c' where
    c': "chan_get_buffer cs v sz (view d) = Some (a, c')" "request_done n (unat v) k sz lost qs (view d) a c'"
    by blast
  from c' get_view [OF assms(2), of cs sz] obtain d' where
    "get_buffer cs sz d = Some (a, d')" "view d' = c'"
    by auto
  with c'(2) show ?thesis by auto
qed

text \<open>Taking a buffer and pushing it leaves the bookkeeping right.\<close>

lemma send_ok:
  assumes "chan_ok n 0 (view d) lost qs" and "avail d = Some (v, dv)"
    and "unat v = unat (slots (view d)) + k" and "k \<le> length qs" and "unat sz < 2 ^ 63"
    and "get_buffer cs sz d = Some (a, d1)" and g: "grants (unat v) sz (view d) (lost + unnoted (take k qs)) (drop k qs)"
    and "push h a d1 = Some (r, d')"
  shows "chan_ok n 0 (view d') (lost + unnoted (take k qs)) (drop k qs @ [align8 (unat sz)])"
proof -
  have 1: "chan_ok n 1 (view d1) (lost + unnoted (take k qs)) (drop k qs @ [align8 (unat sz)])"
    using get_buffer_ok [OF assms(1-5), of cs] assms(6) g by (simp add: request_done_def Let_def)
  have "length (drop k qs @ [align8 (unat sz)]) \<le> n"
    using assms(1,3,4) g by (auto simp: chan_ok_def grants_def)
  from chan_push_ok [OF 1 this] show ?thesis
    by (simp add: push_view [OF assms(8)])
qed

lemma wait_ok:
  assumes "chan_ok n 0 (view d) lost qs" and "avail d = Some (v, dv)"
    and "unat v = unat (slots (view d)) + k" and "k \<le> length qs" and "unat sz < 2 ^ 63"
    and "get_buffer cs sz d = Some (a, d')" and "\<not> grants (unat v) sz (view d) (lost + unnoted (take k qs)) (drop k qs)"
  shows "chan_ok n 0 (view d') (lost + unnoted (take k qs)) (drop k qs)"
  using get_buffer_ok [OF assms(1-5), of cs] assms(6,7) by (simp add: request_done_def Let_def)

end

section \<open>The two channels of the driver\<close>

definition h2t_chan :: "'h driver \<Rightarrow> chan" where
  "h2t_chan d =
     \<lparr>slots = g_h2t_descriptor_slots_available d, chain = g_h2t_descriptor_chain d,
      wr_idx = g_h2t_descriptor_write_idx d, rd_idx = g_h2t_descriptor_read_idx d,
      ring = g_h2t_rx_cbuff d\<rparr>"

definition mgmt_chan :: "'h driver \<Rightarrow> chan" where
  "mgmt_chan d =
     \<lparr>slots = g_mgmt_descriptor_slots_available d, chain = g_mgmt_descriptor_chain d,
      wr_idx = g_mgmt_descriptor_write_idx d, rd_idx = g_mgmt_descriptor_read_idx d,
      ring = g_mgmt_rx_cbuff d\<rparr>"

lemma register_access_plat:
  "rd32 bus a d = Some (v, d') \<Longrightarrow> \<exists>p. d' = d\<lparr>plat := p\<rparr>"
  "wr32 bus a w d = Some d' \<Longrightarrow> \<exists>p. d' = d\<lparr>plat := p\<rparr>"
  "rd64 bus a d = Some (x, d') \<Longrightarrow> \<exists>p. d' = d\<lparr>plat := p\<rparr>"
  "wr64 bus a y d = Some d' \<Longrightarrow> \<exists>p. d' = d\<lparr>plat := p\<rparr>"
  by (auto simp: rd32_def wr32_def rd64_def wr64_def split: bind_splits)

lemma h2t_chan_plat [simp]: "h2t_chan (d\<lparr>plat := p\<rparr>) = h2t_chan d"
  by (simp add: h2t_chan_def)

lemma mgmt_chan_plat [simp]: "mgmt_chan (d\<lparr>plat := p\<rparr>) = mgmt_chan d"
  by (simp add: mgmt_chan_def)

interpretation h2t: desc_channel h2t_chan "rd32 bus ST_DBG_IP_H2T_AVAILABLE_SLOTS"
  "get_h2t_buffer bus" "push_h2t_data bus"
proof
  fix d :: "'a driver" and v dv cs sz
  assume rd: "rd32 bus ST_DBG_IP_H2T_AVAILABLE_SLOTS d = Some (v, dv)"
  then obtain p where dv: "dv = d\<lparr>plat := p\<rparr>" using register_access_plat(1) by blast
  show "map_option (map_prod id h2t_chan) (get_h2t_buffer bus cs sz d)
      = chan_get_buffer cs v sz (h2t_chan d)"
    unfolding get_h2t_buffer_def chan_get_buffer_def chan_free_def chan_take_def rd dv
    by (simp add: h2t_chan_def depth_defs Let_def split: bind_splits)
next
  fix h a and d :: "'a driver" and r d'
  assume "push_h2t_data bus h a d = Some (r, d')"
  then show "h2t_chan d' = (h2t_chan d)\<lparr>slots := slots (h2t_chan d) - 1\<rparr>"
    by (auto simp: push_h2t_data_def h2t_chan_def Let_def split: bind_splits
        dest!: register_access_plat)
qed

interpretation mgmt: desc_channel mgmt_chan "rd32 bus ST_DBG_IP_MGMT_AVAILABLE_SLOTS"
  "get_mgmt_buffer bus" "push_mgmt_data bus"
proof
  fix d :: "'a driver" and v dv cs sz
  assume rd: "rd32 bus ST_DBG_IP_MGMT_AVAILABLE_SLOTS d = Some (v, dv)"
  then obtain p where dv: "dv = d\<lparr>plat := p\<rparr>" using register_access_plat(1) by blast
  show "map_option (map_prod id mgmt_chan) (get_mgmt_buffer bus cs sz d)
      = chan_get_buffer cs v sz (mgmt_chan d)"
    unfolding get_mgmt_buffer_def chan_get_buffer_def chan_free_def chan_take_def rd dv
    by (simp add: mgmt_chan_def depth_defs Let_def split: bind_splits)
next
  fix h a and d :: "'a driver" and r d'
  assume "push_mgmt_data bus h a d = Some (r, d')"
  then show "mgmt_chan d' = (mgmt_chan d)\<lparr>slots := slots (mgmt_chan d) - 1\<rparr>"
    by (auto simp: push_mgmt_data_def mgmt_chan_def Let_def split: bind_splits
        dest!: register_access_plat)
qed

section \<open>Every use of the H2T channel\<close>

text \<open>
  The states of the driver the server can bring about, with the bytes lost and the sizes in flight,
  for an IP with \<open>n\<close> descriptors: after \<open>init_driver\<close>; after a request that is refused; after a
  request that is granted and pushed; after anything that leaves the channel alone. Before each
  request the IP may have finished any number \<open>k\<close> of the descriptors in flight; the request is for any
  size that the 16 bits of a packet's header can hold, and for larger ones.
\<close>

inductive h2t_reach :: "'h bus \<Rightarrow> bool \<Rightarrow> nat \<Rightarrow> 'h driver \<Rightarrow> nat \<Rightarrow> nat list \<Rightarrow> bool"
  for bus cs n where
  start: "init_driver bus h d0 = Some (0, d) \<Longrightarrow> length (g_h2t_descriptor_chain d0) = 128 \<Longrightarrow>
    0 < H2T_MEM_SZ (g_std_dbg_ip_info d) \<Longrightarrow> H2T_MEM_SZ (g_std_dbg_ip_info d) \<le> 2 ^ 63 \<Longrightarrow>
    unat (g_h2t_descriptor_slots_available d) = n \<Longrightarrow> n \<le> 128 \<Longrightarrow> h2t_reach bus cs n d 0 []"
| refused: "h2t_reach bus cs n d lost qs \<Longrightarrow> rd32 bus ST_DBG_IP_H2T_AVAILABLE_SLOTS d = Some (v, dv) \<Longrightarrow>
    unat v = unat (g_h2t_descriptor_slots_available d) + k \<Longrightarrow> k \<le> length qs \<Longrightarrow>
    unat sz < 2 ^ 63 \<Longrightarrow> \<not> grants (unat v) sz (h2t_chan d) (lost + unnoted (take k qs)) (drop k qs) \<Longrightarrow>
    get_h2t_buffer bus cs sz d = Some (a, d') \<Longrightarrow> h2t_reach bus cs n d' (lost + unnoted (take k qs)) (drop k qs)"
| sent: "h2t_reach bus cs n d lost qs \<Longrightarrow> rd32 bus ST_DBG_IP_H2T_AVAILABLE_SLOTS d = Some (v, dv) \<Longrightarrow>
    unat v = unat (g_h2t_descriptor_slots_available d) + k \<Longrightarrow> k \<le> length qs \<Longrightarrow>
    unat sz < 2 ^ 63 \<Longrightarrow> grants (unat v) sz (h2t_chan d) (lost + unnoted (take k qs)) (drop k qs) \<Longrightarrow>
    get_h2t_buffer bus cs sz d = Some (a, d1) \<Longrightarrow> push_h2t_data bus hdr a d1 = Some (r, d') \<Longrightarrow>
    h2t_reach bus cs n d' (lost + unnoted (take k qs)) (drop k qs @ [align8 (unat sz)])"
| other: "h2t_reach bus cs n d lost qs \<Longrightarrow> h2t_chan d' = h2t_chan d \<Longrightarrow> h2t_reach bus cs n d' lost qs"

lemma init_driver_chan:
  assumes "init_driver bus h d0 = Some (0, d)"
  shows "h2t_chan d = \<lparr>slots = g_h2t_descriptor_slots_available d, chain = g_h2t_descriptor_chain d0,
    wr_idx = 0, rd_idx = 0,
    ring = cbuff_init (H2T_MEM_BASE_ADDR (g_std_dbg_ip_info d)) (H2T_MEM_SZ (g_std_dbg_ip_info d))\<rparr>"
  using assms
  by (auto simp: init_driver_def check_version_and_type_def assert_h2t_t2h_reset_def Let_def
      h2t_chan_def INIT_ERROR_CODE_MISSING_INFO_def INIT_ERROR_CODE_INCOMPATIBLE_IP_def
      split: bind_splits if_splits dest!: register_access_plat)

lemma h2t_reach_ok:
  assumes "h2t_reach bus cs n d lost qs"
  shows "chan_ok n 0 (h2t_chan d) lost qs"
  using assms
proof (induction rule: h2t_reach.induct)
  case (start h d0 d)
  then show ?case
    using cb.init_rel [of "H2T_MEM_SZ (g_std_dbg_ip_info d)" "H2T_MEM_BASE_ADDR (g_std_dbg_ip_info d)"]
    by (simp add: chan_ok_def init_driver_chan cbuff_rel_sum [of "[0]" "[]"])
next
  case (refused d lost qs v dv k sz a d')
  then show ?case
    by (intro h2t.wait_ok [OF refused.IH refused.hyps(2)]) (simp_all add: h2t_chan_def)
next
  case (sent d lost qs v dv k sz a d1 hdr r d')
  then show ?case
    by (intro h2t.send_ok [OF sent.IH sent.hyps(2)]) (simp_all add: h2t_chan_def)
next
  case (other d lost qs d')
  then show ?case by simp
qed

lemma h2t_reach_lost: "h2t_reach bus cs n d lost qs \<Longrightarrow> 65536 dvd lost"
  by (induction rule: h2t_reach.induct) (simp_all add: unnoted_dvd)

section \<open>Properties\<close>

text \<open>
  C1. Sending to the IP, in every state the server can bring about with an IP of up to 128 descriptors
  and a memory that is not empty, and for packets of any length: whatever number \<open>k\<close> of the descriptors in flight the IP reports as done, \<open>get_h2t_buffer\<close> is defined.
  When a descriptor slot is free and the size, rounded up to 8 bytes, fits beside the sizes still in
  flight and the bytes that were lost, it returns the address behind the youngest block in flight, and
  the new block shares no byte with a block in flight; else it returns 0.
\<close>

theorem h2t_buffer_sound:
  assumes "h2t_reach bus cs n d lost qs" and "rd32 bus ST_DBG_IP_H2T_AVAILABLE_SLOTS d = Some (v, dv)"
    and "unat v = unat (g_h2t_descriptor_slots_available d) + k" and "k \<le> length qs"
    and "unat sz < 2 ^ 63" and "qs' = (lost + unnoted (take k qs)) # drop k qs @ [align8 (unat sz)]"
  shows "\<exists>a d'. get_h2t_buffer bus cs sz d = Some (a, d') \<and>
    (if 0 < unat v \<and> sum_list qs' \<le> unat (span (g_h2t_rx_cbuff d'))
     then a = raw_buff (g_h2t_rx_cbuff d') + of_nat (block_start (g_h2t_rx_cbuff d') qs' (Suc (length qs - k))) \<and>
       (\<forall>j \<le> length qs - k.
          ring_cells (unat (span (g_h2t_rx_cbuff d'))) (block_start (g_h2t_rx_cbuff d') qs' j) (qs' ! j) \<inter>
          ring_cells (unat (span (g_h2t_rx_cbuff d')))
            (block_start (g_h2t_rx_cbuff d') qs' (Suc (length qs - k))) (align8 (unat sz)) = {})
     else a = 0)"
proof -
  let ?lost = "lost + unnoted (take k qs)"
  from h2t_reach_ok [OF assms(1)] have ok: "chan_ok n 0 (h2t_chan d) lost qs" .
  have v: "unat v = unat (slots (h2t_chan d)) + k"
    using assms(3) by (simp add: h2t_chan_def)
  obtain a d' where get: "get_h2t_buffer bus cs sz d = Some (a, d')"
    and post: "request_done n (unat v) k sz lost qs (h2t_chan d) a (h2t_chan d')"
    using h2t.get_buffer_ok [OF ok assms(2) v assms(4,5)] by blast
  have r: "ring (h2t_chan d') = g_h2t_rx_cbuff d'" by (simp add: h2t_chan_def)
  have same: "span (ring (h2t_chan d)) = span (g_h2t_rx_cbuff d')" "raw_buff (ring (h2t_chan d)) = raw_buff (g_h2t_rx_cbuff d')"
    using post r by (simp_all add: request_done_def Let_def)
  have g: "grants (unat v) sz (h2t_chan d) ?lost (drop k qs) \<longleftrightarrow>
      0 < unat v \<and> sum_list qs' \<le> unat (span (g_h2t_rx_cbuff d'))"
    using same assms(6) by (auto simp: grants_def)
  have "cbuff_rel (g_h2t_rx_cbuff d') qs'" if "grants (unat v) sz (h2t_chan d) ?lost (drop k qs)"
    using that post r assms(6) by (simp add: chan_ok_def request_done_def Let_def)
  moreover have "qs' ! Suc (length qs - k) = align8 (unat sz)" "length qs' = Suc (Suc (length qs - k))"
    using assms(6) by (simp_all add: nth_append)
  ultimately show ?thesis
    using get post same r g assms(6) blocks_disjoint [of "g_h2t_rx_cbuff d'" qs' _ "Suc (length qs - k)"]
    by (simp add: request_done_def Let_def le_imp_less_Suc)
qed

text \<open>A device for the witness: every 32-bit register reads 2, the identification is right.\<close>

definition idle_bus :: "unit bus" where
  "idle_bus =
     \<lparr>bus_mapped = \<lambda>a. True, bus_rd8 = \<lambda>a h. (0, h), bus_rd16 = \<lambda>a h. (0, h), bus_rd32 = \<lambda>a h. (2, h),
      bus_rd64 = \<lambda>a h. (0x5244444D, h), bus_wr8 = \<lambda>a v h. h, bus_wr16 = \<lambda>a v h. h,
      bus_wr32 = \<lambda>a v h. h, bus_wr64 = \<lambda>a v h. h\<rparr>"

definition idle_driver :: "unit driver" where
  "idle_driver = set_design_info
     \<lparr>ST_DBG_IP_CSR_BASE_ADDR = 0, H2T_MEM_BASE_ADDR = 0x800, H2T_MEM_SZ = 64,
      T2H_MEM_BASE_ADDR = 0x1000, T2H_MEM_SZ = 64, MGMT_MEM_BASE_ADDR = 0, MGMT_MEM_SZ = 0,
      MGMT_RSP_MEM_BASE_ADDR = 0, MGMT_RSP_MEM_SZ = 0\<rparr>
     (driver_start \<lparr>interfaces = \<lparr>vec_elems = [zero_info], vec_size = 1\<rparr>, device = ()\<rparr>)"

lemma idle_access:
  assumes "fpga_uio_get_base_address (g_mmio_handle d) (plat d) = Some b"
  shows "rd32 idle_bus a d = Some (2, d)" "rd64 idle_bus a d = Some (0x5244444D, d)"
    "wr32 idle_bus a v d = Some d"
  using assms
  by (simp_all add: rd32_def rd64_def wr32_def fpga_read_32_def fpga_read_64_def fpga_write_32_def
      mmio_load_def mmio_store_def idle_bus_def)

lemma idle_init:
  "\<exists>d. init_driver idle_bus 0 idle_driver = Some (0, d) \<and> H2T_MEM_SZ (g_std_dbg_ip_info d) = 64 \<and>
     g_h2t_descriptor_slots_available d = 2 \<and>
     fpga_uio_get_base_address (g_mmio_handle d) (plat d) = Some 0"
  by (simp add: init_driver_def idle_driver_def set_design_info_def driver_start_def idle_access
      fpga_uio_get_base_address_def vec_at_def handle_index_def zero_info_def Let_def
      check_version_and_type_def assert_h2t_t2h_reset_def SUPPORTED_TYPE_def SUPPORTED_VERSION_def)

lemma h2t_buffer_sound_witness:
  "\<exists>d a d'. h2t_reach idle_bus True 2 d 0 [] \<and> get_h2t_buffer idle_bus True 20 d = Some (a, d')"
proof -
  obtain d where d: "init_driver idle_bus 0 idle_driver = Some (0, d)"
    "H2T_MEM_SZ (g_std_dbg_ip_info d) = 64" "g_h2t_descriptor_slots_available d = 2"
    "fpga_uio_get_base_address (g_mmio_handle d) (plat d) = Some 0"
    using idle_init by blast
  have "length (g_h2t_descriptor_chain idle_driver) = 128"
    by (simp add: idle_driver_def set_design_info_def driver_start_def depth_defs)
  with d have "h2t_reach idle_bus True 2 d 0 []"
    by (intro h2t_reach.start [OF d(1)]) simp_all
  with h2t_buffer_sound [of idle_bus True 2 d 0 "[]" 2 d 0 20 "[0, 24]"] d idle_access(1) [OF d(4)]
  show ?thesis by (auto simp: align8_def unnoted_def)
qed

text \<open>
  C2. The bookkeeping of the H2T channel in every state the server can bring about with an IP that
  reports only descriptors in flight as done, after packets of any length: free slots and descriptors in flight add up to the descriptors of the IP; free memory,
  the sizes in flight and the bytes lost add up to the memory. What is lost is a multiple of 65536, so
  that a memory of less than 65536 bytes loses nothing.
\<close>

theorem h2t_accounting:
  assumes "h2t_reach bus cs n d lost qs"
  shows "unat (g_h2t_descriptor_slots_available d) + length qs = n \<and> n \<le> 128 \<and>
    unat (space_available (g_h2t_rx_cbuff d)) + sum_list qs + lost = unat (span (g_h2t_rx_cbuff d)) \<and>
    65536 dvd lost \<and> (lost = 0 \<or> 65536 \<le> unat (span (g_h2t_rx_cbuff d)))"
proof -
  have ok: "chan_ok n 0 (h2t_chan d) lost qs" using assms by (rule h2t_reach_ok)
  then have rel: "cbuff_rel (g_h2t_rx_cbuff d) (lost # qs)" by (simp add: chan_ok_def h2t_chan_def)
  have "65536 dvd lost" using assms by (rule h2t_reach_lost)
  moreover from this have "lost = 0 \<or> 65536 \<le> lost" by (auto dest: dvd_imp_le)
  ultimately show ?thesis
    using ok cb.room_cap [OF rel] by (auto simp: chan_ok_def h2t_chan_def cbuff_cap_def)
qed

lemma h2t_accounting_witness:
  "\<exists>d. h2t_reach idle_bus False 2 d 0 [] \<and> unat (g_h2t_descriptor_slots_available d) + 0 = 2"
proof -
  obtain d where d: "init_driver idle_bus 0 idle_driver = Some (0, d)"
    "H2T_MEM_SZ (g_std_dbg_ip_info d) = 64" "g_h2t_descriptor_slots_available d = 2"
    using idle_init by blast
  have "length (g_h2t_descriptor_chain idle_driver) = 128"
    by (simp add: idle_driver_def set_design_info_def driver_start_def depth_defs)
  with d have "h2t_reach idle_bus False 2 d 0 []"
    by (intro h2t_reach.start [OF d(1)]) simp_all
  with h2t_accounting [OF this] show ?thesis by auto
qed

text \<open>
  One request on the management channel, whose bookkeeping is right for the sizes \<open>qs\<close> in
  flight and \<open>lost\<close> bytes: it is defined, gives back what was noted for the \<open>k\<close> oldest blocks and
  either grants the aligned size at the end of the queue or returns 0 and takes nothing.
\<close>

theorem mgmt_buffer_step:
  assumes "chan_ok n 0 (mgmt_chan d) lost qs" and "rd32 bus ST_DBG_IP_MGMT_AVAILABLE_SLOTS d = Some (v, dv)"
    and "unat v = unat (g_mgmt_descriptor_slots_available d) + k" and "k \<le> length qs"
    and "unat sz < 2 ^ 63"
  shows "\<exists>a d'. get_mgmt_buffer bus cs sz d = Some (a, d') \<and>
    request_done n (unat v) k sz lost qs (mgmt_chan d) a (mgmt_chan d')"
proof -
  have "unat v = unat (slots (mgmt_chan d)) + k"
    using assms(3) by (simp add: mgmt_chan_def)
  from mgmt.get_buffer_ok [OF assms(1,2) this assms(4,5), of cs] show ?thesis by auto
qed

lemma mgmt_buffer_step_witness:
  "\<exists>d a d'. chan_ok 2 0 (mgmt_chan d) 0 [] \<and> get_mgmt_buffer idle_bus True 20 d = Some (a, d')"
proof -
  let ?d = "(driver_start \<lparr>interfaces = \<lparr>vec_elems = [zero_info], vec_size = 1\<rparr>, device = ()\<rparr>)
      \<lparr>g_mmio_handle := 0, g_mgmt_descriptor_slots_available := 2, g_mgmt_rx_cbuff := cbuff_init 0x2000 64\<rparr>"
  have ok: "chan_ok 2 0 (mgmt_chan ?d) 0 []"
    using cbuff_init_rel [of 64 "0x2000"] cbuff_rel_sum [of "[0]" "[]"]
    by (simp add: chan_ok_def mgmt_chan_def driver_start_def depth_defs)
  have rd: "rd32 idle_bus ST_DBG_IP_MGMT_AVAILABLE_SLOTS ?d = Some (2, ?d)"
    by (rule idle_access [where b = 0])
       (simp add: driver_start_def fpga_uio_get_base_address_def vec_at_def handle_index_def zero_info_def)
  from mgmt_buffer_step [OF ok rd, of 0 20 True] ok show ?thesis by auto
qed

end
