(* ===== verification/Driver_Laws.thy ===== *)
theory Driver_Laws
  imports Descriptor_Ring
begin

text \<open>
  What the rest of the driver of \<^verbatim>\<open>streaming/src/intel_st_debug_if_st_dbg_ip_driver.c\<close> does:
  its initialisation, the framing of incoming packets, the descriptor words it exchanges with
  the IP, the loopback parameter and the copies between host buffers and FPGA memory.
\<close>

section \<open>Framing of incoming packets\<close>

definition has_sop :: "H2T_PACKET_HEADER \<Rightarrow> bool" where
  "has_sop h \<longleftrightarrow> SOP_EOP h AND H2T_PACKET_HEADER_MASK_SOP \<noteq> 0"

definition has_eop :: "H2T_PACKET_HEADER \<Rightarrow> bool" where
  "has_eop h \<longleftrightarrow> SOP_EOP h AND H2T_PACKET_HEADER_MASK_EOP \<noteq> 0"

text \<open>
  A stream of headers whose start flags are where the packets start: the first one when
  \<open>fresh\<close>, every other one exactly after an end flag.
\<close>

fun framed :: "bool \<Rightarrow> H2T_PACKET_HEADER list \<Rightarrow> bool" where
  "framed fresh [] = True"
| "framed fresh (h # hs) \<longleftrightarrow> has_sop h = fresh \<and> SOP_EOP h < 4 \<and> framed (has_eop h) hs"

text \<open>
  The headers the server forwards when it polls \<open>n\<close> times: a header without data is dropped
  and its storage reused, one with data is acknowledged.
\<close>

fun t2h_polls ::
  "'h bus \<Rightarrow> nat \<Rightarrow> H2T_PACKET_HEADER \<Rightarrow> u32 \<Rightarrow> 'h driver \<Rightarrow> (H2T_PACKET_HEADER list \<times> 'h driver) option"
where
  "t2h_polls bus 0 h pay d = Some ([], d)"
| "t2h_polls bus (Suc n) h pay d = do {
     (r, h1, pay1, d1) \<leftarrow> get_t2h_data bus h pay d;
     if DATA_LEN_BYTES h1 = 0 then t2h_polls bus n h1 pay1 d1
     else do {
       d2 \<leftarrow> t2h_data_complete bus d1;
       (hs, d3) \<leftarrow> t2h_polls bus n h1 pay1 d2;
       Some (h1 # hs, d3)
     }
   }"

lemma register_access_sop:
  "rd32 bus a d = Some (v, d') \<Longrightarrow> g_t2h_sop d' = g_t2h_sop d"
  "wr32 bus a w d = Some d' \<Longrightarrow> g_t2h_sop d' = g_t2h_sop d"
  "rd64 bus a d = Some (x, d') \<Longrightarrow> g_t2h_sop d' = g_t2h_sop d"
  by (auto dest!: register_access_plat)

lemma get_t2h_data_sop:
  assumes "get_t2h_data bus h pay d = Some (r, h', pay', d')"
  shows "DATA_LEN_BYTES h' = 0 \<Longrightarrow> g_t2h_sop d' = g_t2h_sop d"
    and "DATA_LEN_BYTES h' \<noteq> 0 \<Longrightarrow>
      has_sop h' = (g_t2h_sop d \<noteq> 0) \<and> SOP_EOP h' < 4 \<and> (g_t2h_sop d' \<noteq> 0) = has_eop h'"
  using assms
  by (auto simp: get_t2h_data_def Let_def has_sop_def has_eop_def H2T_PACKET_HEADER_MASK_SOP_def
      H2T_PACKET_HEADER_MASK_EOP_def register_access_sop split: bind_splits if_splits)

lemma t2h_polls_framed_aux:
  "t2h_polls bus n h pay d = Some (hs, d') \<Longrightarrow> framed (g_t2h_sop d \<noteq> 0) hs"
proof (induction n arbitrary: h pay d hs)
  case 0
  then show ?case by simp
next
  case (Suc n)
  then obtain r h1 pay1 d1 where get: "get_t2h_data bus h pay d = Some (r, h1, pay1, d1)"
    by (auto split: bind_splits)
  show ?case
  proof (cases "DATA_LEN_BYTES h1 = 0")
    case True
    with Suc.prems get have "t2h_polls bus n h1 pay1 d1 = Some (hs, d')" by simp
    from Suc.IH [OF this] show ?thesis
      by (simp add: get_t2h_data_sop(1) [OF get True])
  next
    case False
    with Suc.prems get obtain d2 hs' where
      d2: "t2h_data_complete bus d1 = Some d2" and
      hs': "t2h_polls bus n h1 pay1 d2 = Some (hs', d')" "hs = h1 # hs'"
      by (auto split: bind_splits)
    have "g_t2h_sop d2 = g_t2h_sop d1"
      using d2 by (simp add: t2h_data_complete_def register_access_sop)
    with Suc.IH [OF hs'(1)] hs'(2) get_t2h_data_sop(2) [OF get False] show ?thesis
      by simp
  qed
qed

section \<open>The words of a descriptor\<close>

lemma ucast_or_push_low:
  fixes a :: "'a::len word" and b :: "'b::len word"
  assumes "LENGTH('a) \<le> 32" and "LENGTH('c) \<le> 32"
  shows "(ucast ((ucast a :: u64) OR push_bit 32 (ucast b)) :: 'c::len word) = ucast a"
  by (rule bit_word_eqI) (use assms in \<open>auto simp: bit_ucast_iff bit_or_iff bit_push_bit_iff\<close>)

lemma ucast_or_push_high:
  fixes a :: "'a::len word" and b :: "'b::len word"
  assumes "LENGTH('a) \<le> 32" and "LENGTH('b) \<le> 32" and "LENGTH('c) \<le> 32"
  shows "(ucast (drop_bit 32 ((ucast a :: u64) OR push_bit 32 (ucast b))) :: 'c::len word) = ucast b"
  by (rule bit_word_eqI)
     (use assms in \<open>auto simp: bit_ucast_iff bit_or_iff bit_push_bit_iff bit_drop_bit_eq
        dest: bit_imp_le_length\<close>)

definition how_long_word :: "u16 \<Rightarrow> bool \<Rightarrow> u32" where
  "how_long_word len is_last = (if is_last then ucast len OR 0x80000000 else ucast len)"

lemma how_long_mask: "ST_DBG_IP_HOW_LONG_MASK = mask 31"
  by (simp add: ST_DBG_IP_HOW_LONG_MASK_def mask_eq_exp_minus_1)

lemma bit_how_long_mask: "bit ST_DBG_IP_HOW_LONG_MASK i \<longleftrightarrow> i < 31"
  unfolding how_long_mask bit_mask_iff by auto

lemma last_mask: "ST_DBG_IP_LAST_DESCRIPTOR_MASK = 2 ^ 31"
  by (simp add: ST_DBG_IP_LAST_DESCRIPTOR_MASK_def)

lemma bit_last_mask: "bit ST_DBG_IP_LAST_DESCRIPTOR_MASK i \<longleftrightarrow> i = 31"
  unfolding last_mask bit_exp_iff by auto

lemma last_howlong_word: "last_howlong_of len is_last = ucast (how_long_word len is_last)"
proof -
  have last: "(0x80000000 :: u32) = ST_DBG_IP_LAST_DESCRIPTOR_MASK"
    by (simp add: ST_DBG_IP_LAST_DESCRIPTOR_MASK_def)
  show ?thesis
    unfolding last_howlong_of_def how_long_word_def last Let_def
    by (rule bit_word_eqI)
       (auto simp: bit_ucast_iff bit_or_iff bit_and_iff bit_how_long_mask bit_last_mask
          dest: bit_imp_le_length)
qed

lemma how_long_fields:
  "(ucast (how_long_word len is_last AND ST_DBG_IP_HOW_LONG_MASK) :: u16) = len"
  "how_long_word len is_last AND ST_DBG_IP_LAST_DESCRIPTOR_MASK \<noteq> 0 \<longleftrightarrow> is_last"
proof -
  have last: "(0x80000000 :: u32) = ST_DBG_IP_LAST_DESCRIPTOR_MASK"
    by (simp add: ST_DBG_IP_LAST_DESCRIPTOR_MASK_def)
  show "(ucast (how_long_word len is_last AND ST_DBG_IP_HOW_LONG_MASK) :: u16) = len"
    unfolding how_long_word_def last
    by (rule bit_word_eqI)
       (auto simp: bit_ucast_iff bit_or_iff bit_and_iff bit_how_long_mask bit_last_mask)
  have "how_long_word len is_last AND 2 ^ 31 \<noteq> 0 \<longleftrightarrow> bit (how_long_word len is_last) 31"
    by (simp only: and_exp_eq_0_iff_not_bit not_not)
  also have "\<dots> \<longleftrightarrow> is_last"
    unfolding how_long_word_def last
    by (auto simp: bit_ucast_iff bit_or_iff bit_last_mask dest: bit_imp_le_length)
  finally show "how_long_word len is_last AND ST_DBG_IP_LAST_DESCRIPTOR_MASK \<noteq> 0 \<longleftrightarrow> is_last"
    by (simp add: ST_DBG_IP_LAST_DESCRIPTOR_MASK_def)
qed

text \<open>
  The registers of the IP that the driver uses lie in the first 0x1220 bytes; where these are mapped,
  every access to one of them is defined.
\<close>

definition register_space :: nat where "register_space = 0x1220"

lemma registers_mapped:
  assumes "mapped_bytes bus base lim" and "register_space \<le> lim"
  shows "mapped_bytes bus (base + ucast ST_DBG_IP_CONFIG_TYPE) 8"
    "mapped_bytes bus (base + ucast ST_DBG_IP_CONFIG_RESET_AND_LOOPBACK) 4"
    "mapped_bytes bus (base + ucast ST_DBG_IP_CONFIG_MGMT_MGMT_RSP_DESC_DEPTH) 4"
    "mapped_bytes bus (base + ucast ST_DBG_IP_H2T_AVAILABLE_SLOTS) 4"
    "mapped_bytes bus (base + ucast ST_DBG_IP_H2T_HOW_LONG) 8"
    "mapped_bytes bus (base + ucast ST_DBG_IP_H2T_CONNECTION_ID) 8"
    "mapped_bytes bus (base + ucast ST_DBG_IP_T2H_HOW_LONG) 8"
    "mapped_bytes bus (base + ucast ST_DBG_IP_T2H_CONNECTION_ID) 8"
    "mapped_bytes bus (base + ucast ST_DBG_IP_T2H_DESCRIPTORS_DONE) 4"
    "mapped_bytes bus (base + ucast ST_DBG_IP_MGMT_AVAILABLE_SLOTS) 4"
  using assms(2)
  by (intro mapped_bytes_within [OF assms(1)]; simp add: register_space_def ST_DBG_IP_CONFIG_TYPE_def
      ST_DBG_IP_CONFIG_RESET_AND_LOOPBACK_def ST_DBG_IP_CONFIG_MGMT_MGMT_RSP_DESC_DEPTH_def ST_DBG_IP_H2T_AVAILABLE_SLOTS_def
      ST_DBG_IP_H2T_HOW_LONG_def ST_DBG_IP_H2T_CONNECTION_ID_def ST_DBG_IP_T2H_HOW_LONG_def ST_DBG_IP_T2H_CONNECTION_ID_def
      ST_DBG_IP_T2H_DESCRIPTORS_DONE_def ST_DBG_IP_MGMT_AVAILABLE_SLOTS_def)+

text \<open>The type is the lower half of the first 64-bit word and the version the upper half.\<close>

lemma identification:
  "ucast (w :: u64) \<noteq> SUPPORTED_TYPE \<or> (ucast (drop_bit 32 w) :: u32) \<noteq> SUPPORTED_VERSION \<longleftrightarrow> w \<noteq> 0x5244444D"
proof -
  have "w = 0x5244444D" if "ucast w = SUPPORTED_TYPE" "(ucast (drop_bit 32 w) :: u32) = SUPPORTED_VERSION"
  proof -
    from that have lo: "ucast w = (0x5244444D :: u32)" and hi: "(ucast (drop_bit 32 w) :: u32) = 0"
      by (simp_all add: SUPPORTED_TYPE_def SUPPORTED_VERSION_def)
    have "w = (ucast (ucast w :: u32) :: u64) OR push_bit 32 (ucast (ucast (drop_bit 32 w) :: u32))"
      by (rule bit_word_eqI) (auto simp: bit_simps)
    then show ?thesis unfolding lo hi by simp
  qed
  then show ?thesis by (auto simp: SUPPORTED_TYPE_def SUPPORTED_VERSION_def)
qed

text \<open>With plain memory as the device.\<close>

definition mapped :: "u64 \<Rightarrow> 'h driver \<Rightarrow> bool" where
  "mapped base d \<longleftrightarrow> fpga_uio_get_base_address (g_mmio_handle d) (plat d) = Some base"

definition reg64 :: "u64 \<Rightarrow> u32 \<Rightarrow> ram driver \<Rightarrow> u64" where
  "reg64 base a d = ram_word base a (plat d)"

lemma rd64_ram: "mapped base d \<Longrightarrow> fits a \<Longrightarrow> rd64 ram_bus a d = Some (reg64 base a d, d)"
  by (simp add: rd64_def mapped_def reg64_def native.get_word)

lemma wr64_ram:
  assumes "mapped base d" and "fits a"
  shows "\<exists>d'. wr64 ram_bus a w d = Some d' \<and> mapped base d' \<and> reg64 base a d' = w \<and>
    (\<forall>b. fits b \<and> apart a b \<longrightarrow> reg64 base b d' = reg64 base b d)"
  using native.put_word [of "g_mmio_handle d" "plat d" base a w] assms
  by (auto simp: wr64_def mapped_def reg64_def)

lemma mapped_ghosts [simp]:
  "mapped base (d\<lparr>g_h2t_descriptor_slots_available := s\<rparr>) = mapped base d"
  "mapped base (d\<lparr>g_t2h_sop := x\<rparr>) = mapped base d"
  "reg64 base a (d'\<lparr>g_h2t_descriptor_slots_available := s\<rparr>) = reg64 base a d'"
  "reg64 base a (d'\<lparr>g_t2h_sop := x\<rparr>) = reg64 base a d'"
  by (simp_all add: mapped_def reg64_def)

lemma push_h2t_words:
  assumes "mapped base d" and "push_h2t_data ram_bus hdr pay d = Some (r, d1)"
  shows "reg64 base ST_DBG_IP_H2T_HOW_LONG d1 =
      ucast (how_long_word (DATA_LEN_BYTES hdr) (has_eop hdr)) OR push_bit 32 (ucast pay)"
    and "reg64 base ST_DBG_IP_H2T_CONNECTION_ID d1 =
      ucast (CONN_ID hdr) OR push_bit 32 (ucast (CHANNEL hdr))"
proof -
  let ?d = "d\<lparr>g_h2t_descriptor_slots_available := g_h2t_descriptor_slots_available d - 1\<rparr>"
  let ?w1 = "ucast (how_long_word (DATA_LEN_BYTES hdr) (has_eop hdr)) OR push_bit 32 (ucast pay) :: u64"
  let ?w2 = "ucast (CONN_ID hdr) OR push_bit 32 (ucast (CHANNEL hdr)) :: u64"
  have f: "fits ST_DBG_IP_H2T_HOW_LONG" "fits ST_DBG_IP_H2T_CONNECTION_ID"
    "apart ST_DBG_IP_H2T_CONNECTION_ID ST_DBG_IP_H2T_HOW_LONG"
    by (simp_all add: fits_def apart_def ST_DBG_IP_H2T_HOW_LONG_def ST_DBG_IP_H2T_CONNECTION_ID_def)
  have "mapped base ?d" using assms(1) by simp
  from wr64_ram [OF this f(1), of ?w1] obtain d2 where
    d2: "wr64 ram_bus ST_DBG_IP_H2T_HOW_LONG ?w1 ?d = Some d2" "mapped base d2"
      "reg64 base ST_DBG_IP_H2T_HOW_LONG d2 = ?w1" by blast
  from wr64_ram [OF d2(2) f(2), of ?w2] obtain d3 where
    d3: "wr64 ram_bus ST_DBG_IP_H2T_CONNECTION_ID ?w2 d2 = Some d3"
      "reg64 base ST_DBG_IP_H2T_CONNECTION_ID d3 = ?w2"
      "reg64 base ST_DBG_IP_H2T_HOW_LONG d3 = reg64 base ST_DBG_IP_H2T_HOW_LONG d2"
    using f by blast
  have "push_h2t_data ram_bus hdr pay d = Some (0, d3)"
    using d2(1) d3(1) by (simp add: push_h2t_data_def last_howlong_word has_eop_def Let_def)
  with assms(2) have "d1 = d3" by simp
  with d2 d3 show "reg64 base ST_DBG_IP_H2T_HOW_LONG d1 = ?w1"
    and "reg64 base ST_DBG_IP_H2T_CONNECTION_ID d1 = ?w2" by simp_all
qed

lemma get_t2h_words:
  assumes "mapped base d" and "len \<noteq> 0"
    and "reg64 base ST_DBG_IP_T2H_HOW_LONG d = ucast (how_long_word len eop) OR push_bit 32 (ucast pay)"
    and "reg64 base ST_DBG_IP_T2H_CONNECTION_ID d = ucast conn OR push_bit 32 (ucast chan)"
  shows "get_t2h_data ram_bus h0 p0 d =
    Some (0, \<lparr>SOP_EOP = (if g_t2h_sop d \<noteq> 0 then H2T_PACKET_HEADER_MASK_SOP else 0) OR
                (if eop then H2T_PACKET_HEADER_MASK_EOP else 0),
              CONN_ID = conn, CHANNEL = chan, DATA_LEN_BYTES = len\<rparr>,
          pay + T2H_MEM_BASE_ADDR (g_std_dbg_ip_info d), d\<lparr>g_t2h_sop := (if eop then 1 else 0)\<rparr>)"
proof -
  let ?d = "d\<lparr>g_t2h_sop := (if eop then 1 else 0)\<rparr>"
  have "fits ST_DBG_IP_T2H_HOW_LONG" and "fits ST_DBG_IP_T2H_CONNECTION_ID"
    by (simp_all add: fits_def ST_DBG_IP_T2H_HOW_LONG_def ST_DBG_IP_T2H_CONNECTION_ID_def)
  then have 1: "rd64 ram_bus ST_DBG_IP_T2H_HOW_LONG d =
      Some (ucast (how_long_word len eop) OR push_bit 32 (ucast pay), d)"
    and 2: "rd64 ram_bus ST_DBG_IP_T2H_CONNECTION_ID ?d =
      Some (ucast conn OR push_bit 32 (ucast chan), ?d)"
    using assms rd64_ram [of base ?d] by (simp_all add: rd64_ram)
  show ?thesis
    using assms(2) 2
    by (cases eop; cases h0)
       (simp_all add: get_t2h_data_def 1 ucast_or_push_low ucast_or_push_high how_long_fields Let_def
          del: drop_bit_or)
qed

section \<open>The loopback parameter\<close>

text \<open>
  What the code relies on of the configuration register: the loopback bit that is read is the
  one that was written last.
\<close>

definition loopback_sticks :: "'h bus \<Rightarrow> bool" where
  "loopback_sticks bus \<longleftrightarrow>
     (\<forall>w d d'. wr32 bus ST_DBG_IP_CONFIG_RESET_AND_LOOPBACK w d = Some d' \<longrightarrow>
        (\<exists>v d''. rd32 bus ST_DBG_IP_CONFIG_RESET_AND_LOOPBACK d' = Some (v, d'') \<and>
           bit v 1 = bit w 1))"

lemma loopback_field: "ST_DBG_IP_CONFIG_LOOPBACK_FIELD = 2 ^ 1"
  by (simp add: ST_DBG_IP_CONFIG_LOOPBACK_FIELD_def)

lemma loopback_bit: "v AND ST_DBG_IP_CONFIG_LOOPBACK_FIELD > 0 \<longleftrightarrow> bit v 1"
proof -
  have "v AND 2 ^ 1 > 0 \<longleftrightarrow> v AND 2 ^ 1 \<noteq> 0" by (rule word_greater_zero_iff)
  then show ?thesis unfolding loopback_field by (simp only: and_exp_eq_0_iff_not_bit not_not)
qed

lemma bit_config_fields:
  "bit ST_DBG_IP_CONFIG_LOOPBACK_FIELD i \<longleftrightarrow> i = 1"
  "bit ST_DBG_IP_CONFIG_H2T_T2H_RESET_FIELD i \<longleftrightarrow> i = 0"
  unfolding loopback_field bit_exp_iff
  by (auto simp: ST_DBG_IP_CONFIG_H2T_T2H_RESET_FIELD_def bit_1_iff)

lemma set_get_loopback:
  assumes "loopback_sticks bus" and "set_loopback_mode bus val d = Some d1"
  shows "\<exists>d2. get_loopback_mode bus d1 = Some (if val = 1 then 1 else 0, d2)"
proof -
  from assms(2) obtain w d0 where "wr32 bus ST_DBG_IP_CONFIG_RESET_AND_LOOPBACK w d0 = Some d1"
    and w: "bit w 1 = (val = 1)"
    by (auto simp: set_loopback_mode_def bit_or_iff bit_and_iff bit_not_iff bit_config_fields
        split: bind_splits if_splits)
  with assms(1) obtain v d2 where "rd32 bus ST_DBG_IP_CONFIG_RESET_AND_LOOPBACK d1 = Some (v, d2)"
    and "bit v 1 = bit w 1"
    unfolding loopback_sticks_def by blast
  with w show ?thesis
    by (simp add: get_loopback_mode_def loopback_bit)
qed

lemma rd32_after_wr32_ram:
  assumes "wr32 ram_bus a w d = Some d'"
  shows "rd32 ram_bus a d' = Some (w, d')"
proof -
  from assms obtain base where b: "fpga_uio_get_base_address (g_mmio_handle d) (plat d) = Some base"
    by (auto simp: wr32_def fpga_write_32_def mmio_store_def split: bind_splits)
  have "ram_bytes 4 (base + ucast a) (ram_store (base + ucast a) (le_bytes 4 w) m) = le_bytes 4 w" for m
    using ram_bytes_store [of "le_bytes 4 w" "base + ucast a" m] by simp
  with b assms show ?thesis
    by (auto simp: wr32_def rd32_def fpga_write_32_def fpga_read_32_def mmio_store_def mmio_load_def
        ram_bus_def)
qed

lemma ram_loopback_sticks: "loopback_sticks ram_bus"
  by (auto simp: loopback_sticks_def rd32_after_wr32_ram)

section \<open>Copies\<close>

lemma host2fpga_words:
  assumes "0 \<le> fb" and "fb + 8 * int n < 2 ^ 31"
  shows "host2fpga_loop bus n pos fb buf d =
    map_option (\<lambda>p. d\<lparr>plat := p\<rparr>)
      (write_512_loop bus (g_mmio_handle d) n (word_of_int fb) pos buf (plat d))"
  using assms
proof (induction n arbitrary: fb pos d)
  case 0
  then show ?case by simp
next
  case (Suc n)
  then have "int32_add fb 8 = Some (fb + 8)"
    by (simp add: int32_add_def in_int_def)
  with Suc show ?case
    by (auto simp: wr64_def map_option_bind split: bind_splits)
qed

lemma fpga2host_words:
  assumes "0 \<le> fb" and "fb + 8 * int n < 2 ^ 31"
  shows "fpga2host_loop bus n fb pos buf d =
    map_option (\<lambda>(b, p). (b, d\<lparr>plat := p\<rparr>))
      (read_512_loop bus (g_mmio_handle d) n (word_of_int fb) pos buf (plat d))"
  using assms
proof (induction n arbitrary: fb pos buf d)
  case 0
  then show ?case by simp
next
  case (Suc n)
  then have "int32_add fb 8 = Some (fb + 8)"
    by (simp add: int32_add_def in_int_def)
  with Suc show ?case
    by (auto simp: rd64_def map_option_bind split: bind_splits prod.splits)
qed

section \<open>Properties\<close>

text \<open>
  C14. The headers the server forwards are framed: whatever the device answers and however often
  it is polled, a header carries the start flag exactly when it follows an end flag (the first
  one: when the driver was between packets), and no other bit of the flag byte is set.
\<close>

theorem t2h_polls_framed:
  assumes "t2h_polls bus n h pay d = Some (hs, d')"
  shows "framed (g_t2h_sop d \<noteq> 0) hs"
  using assms by (rule t2h_polls_framed_aux)

lemma idle_get_t2h_data:
  assumes "mapped 0 d"
  shows "\<exists>h' p' d'. get_t2h_data idle_bus h p d = Some (0, h', p', d') \<and> DATA_LEN_BYTES h' \<noteq> 0 \<and> mapped 0 d'"
proof -
  have rd: "rd64 idle_bus a d' = Some (0x5244444D, d')" if "mapped 0 d'" for a and d' :: "unit driver"
    using that by (intro idle_access) (simp add: mapped_def)
  have "mapped 0 (d\<lparr>g_t2h_sop := x\<rparr>)" for x using assms by simp
  with rd assms show ?thesis
    by (simp add: get_t2h_data_def rd Let_def ST_DBG_IP_HOW_LONG_MASK_def)
qed

lemma t2h_polls_framed_witness:
  "\<exists>d hs d'. t2h_polls idle_bus 2 \<lparr>SOP_EOP = 0, CONN_ID = 0, CHANNEL = 0, DATA_LEN_BYTES = 0\<rparr> 0 d
     = Some (hs, d') \<and> length hs = 2 \<and> framed True hs"
proof -
  let ?h = "\<lparr>SOP_EOP = 0, CONN_ID = 0, CHANNEL = 0, DATA_LEN_BYTES = 0\<rparr>"
  let ?d = "idle_driver\<lparr>g_mmio_handle := 0\<rparr>"
  have ack: "t2h_data_complete idle_bus d = Some d" if "mapped 0 d" for d :: "unit driver"
    using that by (simp add: t2h_data_complete_def idle_access [where b = 0] mapped_def)
  have "mapped 0 ?d"
    by (simp add: idle_driver_def set_design_info_def driver_start_def mapped_def
        fpga_uio_get_base_address_def vec_at_def handle_index_def zero_info_def)
  then obtain h1 p1 d1 where 1: "get_t2h_data idle_bus ?h 0 ?d = Some (0, h1, p1, d1)"
      "DATA_LEN_BYTES h1 \<noteq> 0" "mapped 0 d1" using idle_get_t2h_data by blast
  then obtain h2 p2 d2 where 2: "get_t2h_data idle_bus h1 p1 d1 = Some (0, h2, p2, d2)"
      "DATA_LEN_BYTES h2 \<noteq> 0" "mapped 0 d2" using idle_get_t2h_data by blast
  from 1 2 have polls: "t2h_polls idle_bus 2 ?h 0 ?d = Some ([h1, h2], d2)"
    by (simp add: numeral_2_eq_2 ack)
  moreover have "g_t2h_sop ?d \<noteq> 0"
    by (simp add: idle_driver_def set_design_info_def driver_start_def)
  ultimately show ?thesis
    using t2h_polls_framed [OF polls] by (intro exI [of _ ?d] exI [of _ "[h1, h2]"] exI [of _ d2] conjI) simp_all
qed

text \<open>
  C13. A descriptor survives the way through the registers: when the IP shows in its T2H registers
  the two words that \<open>push_h2t_data\<close> wrote to the H2T ones, \<open>get_t2h_data\<close> returns the connection,
  the channel, the length, the end flag and, relative to the T2H memory, the address that were
  pushed, for every header with data.
\<close>

theorem descriptor_roundtrip:
  assumes "mapped base d" and "push_h2t_data ram_bus hdr pay d = Some (r, d1)"
    and "DATA_LEN_BYTES hdr \<noteq> 0" and "mapped base d2"
    and "reg64 base ST_DBG_IP_T2H_HOW_LONG d2 = reg64 base ST_DBG_IP_H2T_HOW_LONG d1"
    and "reg64 base ST_DBG_IP_T2H_CONNECTION_ID d2 = reg64 base ST_DBG_IP_H2T_CONNECTION_ID d1"
  shows "\<exists>h d3. get_t2h_data ram_bus h0 p0 d2 = Some (0, h, pay + T2H_MEM_BASE_ADDR (g_std_dbg_ip_info d2), d3) \<and>
    CONN_ID h = CONN_ID hdr \<and> CHANNEL h = CHANNEL hdr \<and> DATA_LEN_BYTES h = DATA_LEN_BYTES hdr \<and>
    has_eop h = has_eop hdr"
proof -
  have "get_t2h_data ram_bus h0 p0 d2 =
    Some (0, \<lparr>SOP_EOP = (if g_t2h_sop d2 \<noteq> 0 then H2T_PACKET_HEADER_MASK_SOP else 0) OR
                (if has_eop hdr then H2T_PACKET_HEADER_MASK_EOP else 0),
              CONN_ID = CONN_ID hdr, CHANNEL = CHANNEL hdr, DATA_LEN_BYTES = DATA_LEN_BYTES hdr\<rparr>,
          pay + T2H_MEM_BASE_ADDR (g_std_dbg_ip_info d2),
          d2\<lparr>g_t2h_sop := (if has_eop hdr then 1 else 0)\<rparr>)"
    using assms push_h2t_words [OF assms(1,2)] by (intro get_t2h_words) simp_all
  then show ?thesis
    by (simp add: has_eop_def H2T_PACKET_HEADER_MASK_SOP_def H2T_PACKET_HEADER_MASK_EOP_def)
qed

definition ram_driver :: "ram driver" where
  "ram_driver = (driver_start \<lparr>interfaces = \<lparr>vec_elems = [zero_info], vec_size = 1\<rparr>, device = (\<lambda>_. 0)\<rparr>)
     \<lparr>g_mmio_handle := 0\<rparr>"

lemma mapped_ram_driver: "mapped 0 ram_driver"
  by (simp add: mapped_def ram_driver_def driver_start_def fpga_uio_get_base_address_def vec_at_def
      handle_index_def zero_info_def)

lemma descriptor_roundtrip_witness:
  "\<exists>d1 d2 h d3. push_h2t_data ram_bus \<lparr>SOP_EOP = 3, CONN_ID = 5, CHANNEL = 300, DATA_LEN_BYTES = 24\<rparr> 16 ram_driver
      = Some (0, d1) \<and>
    get_t2h_data ram_bus \<lparr>SOP_EOP = 0, CONN_ID = 0, CHANNEL = 0, DATA_LEN_BYTES = 0\<rparr> 0 d2
      = Some (0, h, 16, d3) \<and> CONN_ID h = 5 \<and> CHANNEL h = 300 \<and> DATA_LEN_BYTES h = 24"
proof -
  let ?hdr = "\<lparr>SOP_EOP = 3, CONN_ID = 5, CHANNEL = 300, DATA_LEN_BYTES = 24\<rparr>"
  obtain d1 where push: "push_h2t_data ram_bus ?hdr 16 ram_driver = Some (0, d1)"
    by (simp add: push_h2t_data_def ram_driver_def driver_start_def Let_def wr64_def fpga_write_64_def
        mmio_store_def fpga_uio_get_base_address_def vec_at_def handle_index_def)
  let ?d2 = "ram_driver\<lparr>plat := (plat ram_driver)\<lparr>device := \<lambda>a. device (plat d1) (a - 0x100)\<rparr>\<rparr>"
  have m: "mapped 0 ?d2" using mapped_ram_driver by (simp add: mapped_def)
  have "reg64 0 ST_DBG_IP_T2H_HOW_LONG ?d2 = reg64 0 ST_DBG_IP_H2T_HOW_LONG d1"
    and "reg64 0 ST_DBG_IP_T2H_CONNECTION_ID ?d2 = reg64 0 ST_DBG_IP_H2T_CONNECTION_ID d1"
    by (simp_all add: reg64_def ram_word_def ram_bytes_def ST_DBG_IP_T2H_HOW_LONG_def
        ST_DBG_IP_H2T_HOW_LONG_def ST_DBG_IP_T2H_CONNECTION_ID_def ST_DBG_IP_H2T_CONNECTION_ID_def)
  with descriptor_roundtrip [OF mapped_ram_driver push _ m] push show ?thesis
    by (fastforce simp: ram_driver_def driver_start_def)
qed

text \<open>
  Setting the driver parameter \<open>#HW_LOOPBACK\<close> and asking for it gives 1 exactly when the
  value began with the character 1 (byte 49), for every device that keeps the loopback bit.
\<close>

theorem loopback_param_roundtrip:
  assumes "loopback_sticks bus" and "set_driver_param bus HW_LOOPBACK_PARAM (c # rest) d = Some (r, d1)"
  shows "\<exists>d2. get_driver_param bus HW_LOOPBACK_PARAM d1 =
    Some (Some (if c = 49 then lit ''1'' else lit ''0''), d2)"
proof -
  have eq: "strncmp_eq HW_LOOPBACK_PARAM HW_LOOPBACK_PARAM HW_LOOPBACK_PARAM_LEN = Some True"
    unfolding HW_LOOPBACK_PARAM_def lit_def
    by (rule strncmp_eq_lit) (simp add: str_def)
  have "strncmp_eq (c # rest) (lit ''1'') 1 = Some (c = 49)"
    by (simp add: lit_def str_def One_nat_def [symmetric] del: One_nat_def) (simp add: eval_nat_numeral)
  with assms(2) eq have "set_loopback_mode bus (if c = 49 then 1 else 0) d = Some d1"
    by (auto simp: set_driver_param_def split: bind_splits if_splits)
  from set_get_loopback [OF assms(1) this] eq show ?thesis
    by (auto simp: get_driver_param_def)
qed

lemma set_loopback_ram:
  assumes "mapped base d"
  shows "\<exists>d1. set_loopback_mode ram_bus val d = Some d1"
  using assms
  by (simp add: set_loopback_mode_def rd32_def wr32_def fpga_read_32_def fpga_write_32_def
      mmio_load_def mmio_store_def mapped_def ram_bus_def)

lemma loopback_param_roundtrip_witness:
  "\<exists>d1 d2. set_driver_param ram_bus HW_LOOPBACK_PARAM [49, 0] ram_driver = Some (0, d1) \<and>
    get_driver_param ram_bus HW_LOOPBACK_PARAM d1 = Some (Some (lit ''1''), d2)"
proof -
  have "strncmp_eq HW_LOOPBACK_PARAM HW_LOOPBACK_PARAM HW_LOOPBACK_PARAM_LEN = Some True"
    unfolding HW_LOOPBACK_PARAM_def lit_def
    by (rule strncmp_eq_lit) (simp add: str_def)
  moreover have "strncmp_eq [49, 0] (lit ''1'') 1 = Some True"
    by (simp add: lit_def str_def eval_nat_numeral)
  ultimately obtain d1 where "set_driver_param ram_bus HW_LOOPBACK_PARAM [49, 0] ram_driver = Some (0, d1)"
    using set_loopback_ram [OF mapped_ram_driver, of 1] by (auto simp: set_driver_param_def)
  with loopback_param_roundtrip [OF ram_loopback_sticks this] show ?thesis by fastforce
qed

text \<open>
  C17. A block that \<open>memcpy64_host2fpga\<close> writes to FPGA memory is what \<open>memcpy64_fpga2host\<close> reads
  back. Both move whole 64-bit words: up to seven bytes more than \<open>len\<close>, which both buffers must
  have room for.
\<close>

theorem memcpy64_roundtrip:
  assumes "mapped base d" and "0 \<le> fb" and "fb + 8 * int n < 2 ^ 31"
    and "n = unat ((len + 7) div 8)" and "8 * n \<le> length src" and "8 * n \<le> length dst"
  shows "\<exists>d1. memcpy64_host2fpga ram_bus src fb len d = Some d1 \<and>
    memcpy64_fpga2host ram_bus fb dst len d1 = Some (take (8 * n) src @ drop (8 * n) dst, d1)"
proof -
  let ?a = "word_of_int fb :: u32"
  obtain m where m: "fb = int m"
    using assms(2) by (rule nonneg_int_cases)
  then have "unat ?a = m"
    using assms(3) by (simp add: unat_of_nat_small)
  then have a: "unat ?a + 8 * n \<le> 2 ^ 32"
    using assms(3) m by simp
  have b: "fpga_uio_get_base_address (g_mmio_handle d) (plat d) = Some base"
    using assms(1) by (simp add: mapped_def)
  have len: "length (take (8 * n) src) = 8 * n" "length (take (8 * n) dst) = 8 * n"
    using assms(5,6) by simp_all
  from block_write_read [OF b a len, of "drop (8 * n) src" "drop (8 * n) dst"] obtain p' where
    "write_512_loop ram_bus (g_mmio_handle d) n ?a 0 src (plat d) = Some p'"
    "read_512_loop ram_bus (g_mmio_handle d) n ?a 0 dst p' = Some (take (8 * n) src @ drop (8 * n) dst, p')"
    by auto
  then show ?thesis
    by (simp add: memcpy64_host2fpga_def memcpy64_fpga2host_def host2fpga_words [OF assms(2,3)]
        fpga2host_words [OF assms(2,3)] flip: assms(4))
qed

lemma memcpy64_roundtrip_witness:
  "\<exists>d1. memcpy64_host2fpga ram_bus (replicate 16 7) 0x800 10 ram_driver = Some d1 \<and>
    memcpy64_fpga2host ram_bus 0x800 (replicate 20 1) 10 d1 =
      Some (take (8 * 2) (replicate 16 7) @ drop (8 * 2) (replicate 20 1), d1)"
proof (rule memcpy64_roundtrip [OF mapped_ram_driver])
  show "2 = unat ((10 + 7) div 8 :: size_t)" by simp
  show "8 * 2 \<le> length (replicate 16 (7 :: u8))" by (simp only: length_replicate)
  show "8 * 2 \<le> length (replicate 20 (1 :: u8))" by (simp only: length_replicate)
qed (simp_all)

text \<open>
  C21. What \<open>init_driver\<close> does, for any device: before \<open>set_design_info\<close> it returns -1 and touches
  nothing but the handle; on a device that does not identify itself with the type 0x5244444D and the
  version 0 it returns -2 after that one read; on any other it resets the device, then reads the free
  slots of the two channels, in this order, and leaves empty channels over the design's memories with
  these slots and with the framing reset, whatever state the driver was in.
\<close>

theorem init_driver_outcomes:
  assumes "fpga_uio_get_base_address h (plat d0) = Some base" and "mapped_bytes bus base register_space"
  shows "init_driver bus h d0 =
    (let (ident, h1) = bus_rd64 bus (base + ucast ST_DBG_IP_CONFIG_TYPE) (device (plat d0));
         h2 = bus_wr32 bus (base + ucast ST_DBG_IP_CONFIG_RESET_AND_LOOPBACK) ST_DBG_IP_CONFIG_H2T_T2H_RESET_FIELD h1;
         (h2t_slots, h3) = bus_rd32 bus (base + ucast ST_DBG_IP_H2T_AVAILABLE_SLOTS) h2;
         (mgmt_slots, h4) = bus_rd32 bus (base + ucast ST_DBG_IP_MGMT_AVAILABLE_SLOTS) h3;
         info = g_std_dbg_ip_info d0
     in Some (
       if \<not> g_dbg_info_set d0 then (-1, d0\<lparr>g_mmio_handle := h\<rparr>)
       else if ident \<noteq> 0x5244444D then (-2, d0\<lparr>g_mmio_handle := h, plat := (plat d0)\<lparr>device := h1\<rparr>\<rparr>)
       else (0, \<lparr>g_std_dbg_ip_info = info, g_dbg_info_set = True, g_mmio_handle = h,
         g_h2t_descriptor_slots_available = ucast h2t_slots, g_mgmt_descriptor_slots_available = ucast mgmt_slots,
         g_h2t_descriptor_chain = g_h2t_descriptor_chain d0, g_mgmt_descriptor_chain = g_mgmt_descriptor_chain d0,
         g_h2t_descriptor_write_idx = 0, g_h2t_descriptor_read_idx = 0,
         g_mgmt_descriptor_write_idx = 0, g_mgmt_descriptor_read_idx = 0, g_t2h_sop = 1, g_mgmt_rsp_sop = 1,
         g_h2t_rx_cbuff = cbuff_init (H2T_MEM_BASE_ADDR info) (H2T_MEM_SZ info),
         g_mgmt_rx_cbuff = cbuff_init (MGMT_MEM_BASE_ADDR info) (MGMT_MEM_SZ info),
         plat = (plat d0)\<lparr>device := h4\<rparr>\<rparr>)))"
proof -
  obtain w h1 where r: "bus_rd64 bus (base + ucast ST_DBG_IP_CONFIG_TYPE) (device (plat d0)) = (w, h1)" by fastforce
  have id: "check_version_and_type bus (d0\<lparr>g_mmio_handle := h\<rparr>) = Some (if w \<noteq> 0x5244444D then -1 else 0,
      d0\<lparr>g_mmio_handle := h, plat := (plat d0)\<lparr>device := h1\<rparr>\<rparr>)"
  proof (cases "w = 0x5244444D")
    case True
    with assms(1) r show ?thesis
      by (simp add: check_version_and_type_def rd64_def fpga_read_64_def mmio_load_def registers_mapped [OF assms(2)]
          SUPPORTED_TYPE_def SUPPORTED_VERSION_def Let_def)
  next
    case False
    with assms(1) r identification [of w] show ?thesis
      by (simp add: check_version_and_type_def rd64_def fpga_read_64_def mmio_load_def registers_mapped [OF assms(2)] Let_def)
  qed
  show ?thesis
    using assms(1) r
    by (simp add: init_driver_def id assert_h2t_t2h_reset_def Let_def rd32_def wr32_def fpga_read_32_def fpga_write_32_def
        mmio_load_def mmio_store_def registers_mapped [OF assms(2)] INIT_ERROR_CODE_MISSING_INFO_def
        INIT_ERROR_CODE_INCOMPATIBLE_IP_def split: prod.split)
qed

lemma init_driver_outcomes_witness:
  "\<exists>d. init_driver idle_bus 0 idle_driver = Some (0, d) \<and> g_h2t_rx_cbuff d = cbuff_init 0x800 64 \<and>
     g_h2t_descriptor_slots_available d = 2"
proof -
  have "fpga_uio_get_base_address 0 (plat idle_driver) = Some 0"
    by (simp add: idle_driver_def set_design_info_def driver_start_def fpga_uio_get_base_address_def vec_at_def
        handle_index_def zero_info_def)
  moreover have "mapped_bytes idle_bus 0 register_space" by (simp add: idle_bus_def)
  ultimately show ?thesis
    using init_driver_outcomes [of 0 idle_driver 0 idle_bus]
    by (simp add: idle_bus_def idle_driver_def set_design_info_def driver_start_def Let_def)
qed

text \<open>
  The start does not get by with less than the register space: where the mapping ends below the register
  of the free management slots, it is undefined behaviour. Nothing in the program compares the span of the
  mapping with what the driver reaches.
\<close>

lemma init_driver_needs_mapping:
  assumes "fpga_uio_get_base_address h (plat d0) = Some base" and "g_dbg_info_set d0"
    and "fst (bus_rd64 bus (base + ucast ST_DBG_IP_CONFIG_TYPE) (device (plat d0))) = 0x5244444D"
    and "\<not> mapped_bytes bus (base + ucast ST_DBG_IP_MGMT_AVAILABLE_SLOTS) 4"
  shows "init_driver bus h d0 = None"
proof -
  obtain h1 where "bus_rd64 bus (base + ucast ST_DBG_IP_CONFIG_TYPE) (device (plat d0)) = (0x5244444D, h1)"
    using assms(3) by (cases "bus_rd64 bus (base + ucast ST_DBG_IP_CONFIG_TYPE) (device (plat d0))") auto
  then show ?thesis
    using assms(1,2,4)
    by (simp add: init_driver_def check_version_and_type_def assert_h2t_t2h_reset_def rd64_def rd32_def wr32_def
        fpga_read_64_def fpga_read_32_def fpga_write_32_def mmio_load_def mmio_store_def Let_def
        SUPPORTED_TYPE_def SUPPORTED_VERSION_def split: prod.split)
qed

text \<open>
  The largest packets leak buffer memory: a request of 65529 to 65535 bytes that is granted
  takes 65536 bytes from the ring, but the descriptor chain, 16 bits wide, notes 0 for it, so
  nothing is given back when the descriptor is done.
\<close>

theorem largest_packets_noted_as_empty:
  assumes "chan_ok n 0 (h2t_chan d) lost qs" and "rd32 bus ST_DBG_IP_H2T_AVAILABLE_SLOTS d = Some (v, dv)"
    and "unat v = unat (g_h2t_descriptor_slots_available d)" and "0 < unat v"
    and "65529 \<le> unat sz" and "unat sz \<le> 65535" and "65536 \<le> unat (space_available (g_h2t_rx_cbuff d))"
  shows "\<exists>a d'. get_h2t_buffer bus cs sz d = Some (a, d') \<and>
    unat (space_available (g_h2t_rx_cbuff d')) = unat (space_available (g_h2t_rx_cbuff d)) - 65536 \<and>
    g_h2t_descriptor_chain d' ! (unat (g_h2t_descriptor_write_idx d) mod 128) = 0"
proof -
  have av: "v = ucast (g_h2t_descriptor_slots_available d)"
    using assms(3) by (simp add: word_unat_eq_iff unat_ucast_up)
  have "unat (GET_ALIGNED_SZ sz) = align8 (unat sz)"
    using assms(6) by (intro GET_ALIGNED_SZ_unat) simp
  also have "\<dots> = 65536"
    using assms(5,6) by (simp add: align8_def)
  finally have al: "unat (GET_ALIGNED_SZ sz) = 65536" .
  then have "GET_ALIGNED_SZ sz = 65536"
    by (simp add: word_unat_eq_iff)
  then have zero: "(ucast (GET_ALIGNED_SZ sz) :: u16) = 0" by simp
  have slots: "slots (h2t_chan d) > 0"
    using assms(3,4) by (simp add: h2t_chan_def word_less_nat_alt)
  have room: "space_available (ring (h2t_chan d)) \<ge> GET_ALIGNED_SZ sz"
    using al assms(7) by (simp add: h2t_chan_def word_le_nat_alt)
  have rel: "cbuff_rel (ring (h2t_chan d)) (lost # qs)"
    using assms(1) by (simp add: chan_ok_def)
  obtain a r where r: "cbuff_alloc (ring (h2t_chan d)) (GET_ALIGNED_SZ sz) = Some (a, r)"
    using cb.alloc_rel [OF rel room] by blast
  have sp: "unat (space_available r) = unat (space_available (ring (h2t_chan d))) - 65536"
    using cb.room_after_alloc [OF rel room r] al by simp
  have "chan_get_buffer cs v sz (h2t_chan d) = Some (a, (h2t_chan d)
      \<lparr>chain := (chain (h2t_chan d))[unat (wr_idx (h2t_chan d)) mod 128 := 0],
       wr_idx := wr_idx (h2t_chan d) + 1, ring := r\<rparr>)"
    using slots room r zero av by (simp add: chan_get_buffer_def chan_free_def chan_take_def h2t_chan_def)
  with h2t.get_view [OF assms(2), of cs sz] obtain d' where
    "get_h2t_buffer bus cs sz d = Some (a, d')"
    "h2t_chan d' = (h2t_chan d)\<lparr>chain := (chain (h2t_chan d))[unat (wr_idx (h2t_chan d)) mod 128 := 0],
       wr_idx := wr_idx (h2t_chan d) + 1, ring := r\<rparr>"
    by auto
  with sp assms(1) show ?thesis
    by (auto simp: h2t_chan_def chan_ok_def)
qed

lemma largest_packets_noted_as_empty_witness:
  "\<exists>d a d'. chan_ok 2 0 (h2t_chan d) 0 [] \<and> get_h2t_buffer idle_bus True 65535 d = Some (a, d') \<and>
    g_h2t_descriptor_chain d' ! 0 = 0 \<and> unat (space_available (g_h2t_rx_cbuff d')) = 65536"
proof -
  let ?d = "(driver_start \<lparr>interfaces = \<lparr>vec_elems = [zero_info], vec_size = 1\<rparr>, device = ()\<rparr>)
      \<lparr>g_mmio_handle := 0, g_h2t_descriptor_slots_available := 2, g_h2t_rx_cbuff := cbuff_init 0x20000 0x20000\<rparr>"
  have ok: "chan_ok 2 0 (h2t_chan ?d) 0 []"
    using cbuff_init_rel [of "0x20000" "0x20000"] cbuff_rel_sum [of "[0]" "[]"]
    by (simp add: chan_ok_def h2t_chan_def driver_start_def depth_defs)
  have rd: "rd32 idle_bus ST_DBG_IP_H2T_AVAILABLE_SLOTS ?d = Some (2, ?d)"
    by (rule idle_access [where b = 0])
       (simp add: driver_start_def fpga_uio_get_base_address_def vec_at_def handle_index_def zero_info_def)
  from largest_packets_noted_as_empty [OF ok rd, of 65535 True] ok show ?thesis
    by (auto simp: cbuff_init_def driver_start_def)
qed

end
