(* ===== verification/Ring_Memory.thy ===== *)
theory Ring_Memory
  imports Data_Path Server_Laws Driver_Laws
begin

text \<open>
  Blocks of the ring in the memory of the IP, with plain memory as the device: what the copies of
  \<^verbatim>\<open>streaming/src/intel_st_debug_if_st_dbg_ip_driver.c\<close> do to the memory, where the bytes of a
  block of the ring lie, and what it means that a block was written or read, across the end of the
  ring if need be.
\<close>

section \<open>Copies to and from plain memory\<close>

definition ram_of :: "ram driver \<Rightarrow> ram" where
  "ram_of d = device (plat d)"

definition set_ram :: "ram \<Rightarrow> ram driver \<Rightarrow> ram driver" where
  "set_ram r d = d\<lparr>plat := (plat d)\<lparr>device := r\<rparr>\<rparr>"

lemma ram_of_set [simp]: "ram_of (set_ram r d) = r"
  by (simp add: ram_of_def set_ram_def)

lemma mapped_set_ram [simp]: "mapped base (set_ram r d) = mapped base d"
  by (simp add: mapped_def set_ram_def)

lemma ucast_add_8:
  assumes "unat (a :: u32) + 8 < 2 ^ 32"
  shows "(ucast (a + 8) :: u64) = ucast a + 8"
proof -
  have "unat (a + 8) = unat a + 8"
    using assms by (subst unat_add_below) simp_all
  then have "unat (ucast (a + 8) :: u64) = unat (ucast a + of_nat 8 :: u64)"
    using unat_ucast_add [of 8 a] by simp
  then show ?thesis by (simp add: word_unat_eq_iff)
qed

lemma put_words_ram:
  assumes "fpga_uio_get_base_address h p = Some base" and "unat a + 8 * length ws \<le> 2 ^ 32"
  shows "native.put_words h a ws p =
    Some (p\<lparr>device := ram_store (base + ucast a) (concat (map (le_bytes 8) ws)) (device p)\<rparr>)"
  using assms
proof (induction ws arbitrary: a p)
  case Nil
  then show ?case by simp
next
  case (Cons w ws)
  let ?p = "p\<lparr>device := ram_store (base + ucast a) (le_bytes 8 w) (device p)\<rparr>"
  have put: "fpga_write_64 ram_bus h a w p = Some ?p"
    using Cons.prems by (simp add: fpga_write_64_def mmio_store_def ram_bus_def)
  show ?case
  proof (cases ws)
    case Nil
    with put show ?thesis by simp
  next
    case (Cons w' ws')
    then have lt: "unat a + 8 < 2 ^ 32" using Cons.prems by simp
    then have "unat (a + 8) = unat a + 8"
      by (subst unat_add_below) simp_all
    with Cons.IH [of ?p "a + 8"] Cons.prems put show ?thesis
      by (simp add: ucast_add_8 [OF lt] ram_store_append add.assoc)
  qed
qed

lemma get_words_ram:
  assumes "fpga_uio_get_base_address h p = Some base" and "unat a + 8 * n \<le> 2 ^ 32"
  shows "\<exists>ws. native.get_words h a n p = Some (ws, p) \<and>
    concat (map (le_bytes 8) ws) = ram_bytes (8 * n) (base + ucast a) (device p)"
  using assms
proof (induction n arbitrary: a)
  case 0
  then show ?case by (simp add: ram_bytes_def)
next
  case (Suc n)
  then have fits: "fits a" by (simp add: fits_def)
  have get: "fpga_read_64 ram_bus h a p = Some (ram_word base a p, p)"
    using Suc.prems fits by (simp add: native.get_word)
  have first: "le_bytes 8 (ram_word base a p) = ram_bytes 8 (base + ucast a) (device p)"
    unfolding ram_word_def by (rule le_bytes_le_word) simp_all
  show ?case
  proof (cases n)
    case 0
    with get first show ?thesis by simp
  next
    case (Suc m)
    then have lt: "unat a + 8 < 2 ^ 32" using Suc.prems by simp
    then have "unat (a + 8) = unat a + 8"
      by (subst unat_add_below) simp_all
    with Suc.IH [of "a + 8"] Suc.prems obtain ws where
      "native.get_words h (a + 8) n p = Some (ws, p)"
      "concat (map (le_bytes 8) ws) = ram_bytes (8 * n) (base + ucast a + 8) (device p)"
      by (auto simp: ucast_add_8 [OF lt] add.assoc)
    with get first show ?thesis
      using ram_bytes_add [of 8 "8 * n" "base + ucast a" "device p"] by simp
  qed
qed

lemma transfers_align8:
  assumes "unat len + 7 < 2 ^ 64"
  shows "8 * unat ((len + 7) div 8 :: size_t) = align8 (unat len)"
proof -
  have "unat (len + 7) = unat len + 7"
    using assms by (subst unat_add_below) simp_all
  then show ?thesis by (simp add: align8_def unat_div)
qed

lemma word_of_int_small:
  assumes "k < 2 ^ 31"
  shows "(ucast (word_of_int (int k) :: u32) :: u64) = of_nat k" "unat (word_of_int (int k) :: u32) = k"
proof -
  show *: "unat (word_of_int (int k) :: u32) = k"
    using assms by (simp add: unat_of_nat_small)
  have "unat (ucast (word_of_int (int k) :: u32) :: u64) = k"
    using * by simp
  moreover have "unat (of_nat k :: u64) = k"
    using assms by (intro unat_of_nat_small) simp
  ultimately show "(ucast (word_of_int (int k) :: u32) :: u64) = of_nat k"
    by (simp only: word_unat_eq_iff)
qed

lemma host2fpga_ram:
  assumes "mapped base d" and "k + align8 (unat len) < 2 ^ 31" and "align8 (unat len) \<le> length src"
  shows "memcpy64_host2fpga ram_bus src (int k) len d =
    Some (set_ram (ram_store (base + of_nat k) (take (align8 (unat len)) src) (ram_of d)) d)"
proof -
  define n where "n = unat ((len + 7) div 8 :: size_t)"
  have "unat len + 7 < 2 ^ 64"
    using assms(2) align8_bounds(1) [of "unat len"] by simp
  then have n: "8 * n = align8 (unat len)"
    unfolding n_def by (rule transfers_align8)
  have k: "k < 2 ^ 31" using assms(2) by simp
  have "length (take (8 * n) src) = 8 * n" using n assms(3) by simp
  from bytes_as_words [OF this] obtain ws :: "u64 list" where
    ws: "length ws = n" "take (8 * n) src = concat (map (le_bytes 8) ws)" by blast
  have b: "fpga_uio_get_base_address (g_mmio_handle d) (plat d) = Some base"
    using assms(1) by (simp add: mapped_def)
  have "write_512_loop ram_bus (g_mmio_handle d) n (word_of_int (int k)) 0 src (plat d)
      = native.put_words (g_mmio_handle d) (word_of_int (int k)) ws (plat d)"
    using write_512_words [of "g_mmio_handle d" ws "word_of_int (int k)" "[]" "drop (8 * n) src"] ws
    by (metis append_Nil append_take_drop_id list.size(3))
  also have "\<dots> = Some ((plat d)\<lparr>device :=
      ram_store (base + of_nat k) (take (8 * n) src) (device (plat d))\<rparr>)"
    using put_words_ram [OF b, of "word_of_int (int k)" ws] ws n k assms(2)
    by (simp only: word_of_int_small [OF k]) simp
  finally show ?thesis
    using host2fpga_words [of "int k" n ram_bus 0 src d] n assms(2)
    by (simp add: memcpy64_host2fpga_def set_ram_def ram_of_def flip: n_def)
qed

lemma fpga2host_ram:
  assumes "mapped base d" and "k + align8 (unat len) < 2 ^ 31" and "align8 (unat len) \<le> length dst"
  shows "memcpy64_fpga2host ram_bus (int k) dst len d =
    Some (ram_bytes (align8 (unat len)) (base + of_nat k) (ram_of d) @ drop (align8 (unat len)) dst, d)"
proof -
  define n where "n = unat ((len + 7) div 8 :: size_t)"
  have "unat len + 7 < 2 ^ 64"
    using assms(2) align8_bounds(1) [of "unat len"] by simp
  then have n: "8 * n = align8 (unat len)"
    unfolding n_def by (rule transfers_align8)
  have k: "k < 2 ^ 31" using assms(2) by simp
  have b: "fpga_uio_get_base_address (g_mmio_handle d) (plat d) = Some base"
    using assms(1) by (simp add: mapped_def)
  have "unat (word_of_int (int k) :: u32) + 8 * n \<le> 2 ^ 32"
    using n assms(2) by (simp only: word_of_int_small [OF k]) simp
  from get_words_ram [OF b this] obtain ws where ws:
    "native.get_words (g_mmio_handle d) (word_of_int (int k)) n (plat d) = Some (ws, plat d)"
    "concat (map (le_bytes 8) ws) = ram_bytes (8 * n) (base + of_nat k) (device (plat d))"
    by (simp only: word_of_int_small [OF k]) blast
  have "read_512_loop ram_bus (g_mmio_handle d) n (word_of_int (int k)) 0 dst (plat d) =
    Some (ram_bytes (8 * n) (base + of_nat k) (device (plat d)) @ drop (8 * n) dst, plat d)"
    using read_512_words [OF ws(1), of "take (8 * n) dst" "[]" "drop (8 * n) dst"] n assms(3) ws(2)
    by simp
  then show ?thesis
    using fpga2host_words [of "int k" n ram_bus 0 dst d] n assms(2)
    by (simp add: memcpy64_fpga2host_def ram_of_def flip: n_def)
qed

lemma ram_store_cell:
  assumes "k + length bs < 2 ^ 63" and "x < 2 ^ 63"
  shows "ram_store (base + of_nat k) bs r (base + of_nat x) =
    (if k \<le> x \<and> x < k + length bs then bs ! (x - k) else r (base + of_nat x))"
  using assms
proof (induction bs arbitrary: k r)
  case Nil
  then show ?case by auto
next
  case (Cons b bs)
  have step: "ram_store (base + of_nat k) (b # bs) r =
    ram_store (base + of_nat (Suc k)) bs (r(base + of_nat k := b))"
    by (simp add: ac_simps)
  have same: "(of_nat x = (of_nat k :: u64)) = (x = k)"
    using Cons.prems by (auto simp: word_of_nat_eq_iff take_bit_nat_eq_self)
  have ih: "ram_store (base + of_nat (Suc k)) bs (r(base + of_nat k := b)) (base + of_nat x) =
    (if Suc k \<le> x \<and> x < Suc k + length bs then bs ! (x - Suc k)
     else (r(base + of_nat k := b)) (base + of_nat x))"
    using Cons.prems by (intro Cons.IH) simp_all
  show ?case
    unfolding step ih using same by (auto simp: nth_Cons' Suc_diff_le simp del: of_nat_Suc)
qed

lemma ram_bytes_take: "take n (ram_bytes (n + k) a m) = ram_bytes n a m"
  by (simp add: ram_bytes_def take_map)

section \<open>Blocks of a ring\<close>

text \<open>
  A block of \<open>len\<close> bytes at offset \<open>off\<close> of the ring \<open>r\<close>, \<open>sz\<close>; the driver keeps all three
  multiples of eight. \<open>ring_addr\<close> is where its \<open>i\<close>-th byte is.
\<close>

definition ring_place :: "u32 \<Rightarrow> size_t \<Rightarrow> nat \<Rightarrow> nat \<Rightarrow> bool" where
  "ring_place r sz off len \<longleftrightarrow>
     8 dvd off \<and> 8 dvd unat sz \<and> off < unat sz \<and> align8 len \<le> unat sz \<and>
     unat r + unat sz + 8 < 2 ^ 31"

definition ring_addr :: "u32 \<Rightarrow> size_t \<Rightarrow> nat \<Rightarrow> nat \<Rightarrow> nat" where
  "ring_addr r sz off i = unat r + (off + i) mod unat sz"

lemma align8_le: "8 dvd m \<Longrightarrow> n \<le> m \<Longrightarrow> align8 n \<le> m"
  by (auto simp: align8_def elim!: dvdE)

lemma align8_dvd [simp]: "8 dvd n \<Longrightarrow> align8 n = n"
  by (auto simp: align8_def elim!: dvdE)

lemma align8_add: "8 dvd k \<Longrightarrow> align8 (k + n) = k + align8 n"
  by (auto simp: align8_def add.assoc elim!: dvdE)

lemma align8_diff:
  assumes "8 dvd k" and "k \<le> n"
  shows "align8 (n - k) = align8 n - k"
  using align8_add [OF assms(1), of "n - k"] assms(2) by simp

lemma ring_place_fits:
  assumes "ring_place r sz off len" and "off + len \<le> unat sz"
  shows "unat r + off + align8 len < 2 ^ 31"
proof -
  have "align8 len \<le> unat sz - off"
    using assms by (intro align8_le) (auto simp: ring_place_def dvd_diff_nat)
  with assms(1) show ?thesis unfolding ring_place_def by linarith
qed

text \<open>The two pieces of a block that crosses the end of the ring.\<close>

lemma ring_wrap_len:
  assumes "ring_place r sz off (unat len)"
  shows "buff_len_to_wrap_boundary (ucast r) sz (of_nat (unat r + off)) len =
    (if off + unat len > unat sz then of_nat (unat sz - off) else 0)"
proof -
  have small: "unat r + unat sz + 8 < 2 ^ 31" "unat len \<le> unat sz" "off < unat sz"
    using assms align8_bounds(1) [of "unat len"] by (auto simp: ring_place_def)
  have "unat (ucast r + sz :: u64) = unat r + unat sz"
    using small by (subst unat_add_below) (simp_all add: unat_ucast_up)
  moreover have a: "unat (of_nat (unat r + off) :: u64) = unat r + off"
    using small by (intro unat_of_nat_small) simp
  then have "unat (of_nat (unat r + off) + len) = unat r + off + unat len"
    using small by (subst unat_add_below) simp_all
  moreover have "ucast r + sz - of_nat (unat r + off) = (of_nat (unat sz - off) :: u64)"
    using small by (simp add: of_nat_diff)
  ultimately show ?thesis
    by (simp add: buff_len_to_wrap_boundary_def word_less_nat_alt Let_def)
qed

lemma ring_addr_no_wrap: "off + i < unat sz \<Longrightarrow> ring_addr r sz off i = unat r + off + i"
  by (simp add: ring_addr_def)

lemma ring_addr_wrap:
  assumes "unat sz \<le> off + i" and "off < unat sz" and "i < unat sz"
  shows "ring_addr r sz off i = unat r + (off + i - unat sz)"
proof -
  have "(off + i) mod unat sz = (off + i - unat sz) mod unat sz"
    using assms(1) by (rule le_mod_geq)
  also have "\<dots> = off + i - unat sz" using assms by (intro mod_less) simp
  finally show ?thesis by (simp add: ring_addr_def)
qed

text \<open>What a memory is after a block was written into the ring, and no byte beside it.\<close>

definition ring_written ::
  "u64 \<Rightarrow> u32 \<Rightarrow> size_t \<Rightarrow> nat \<Rightarrow> u8 list \<Rightarrow> ram \<Rightarrow> ram \<Rightarrow> bool" where
  "ring_written base r sz off bs m m' \<longleftrightarrow>
     (\<forall>i < length bs. m' (base + of_nat (ring_addr r sz off i)) = bs ! i) \<and>
     (\<forall>x < 2 ^ 32. (\<forall>i < align8 (length bs). x \<noteq> ring_addr r sz off i) \<longrightarrow>
        m' (base + of_nat x) = m (base + of_nat x))"

lemma ring_written_nth:
  "ring_written base r sz off bs m m' \<Longrightarrow> i < length bs \<Longrightarrow>
     m' (base + of_nat (ring_addr r sz off i)) = bs ! i"
  by (simp add: ring_written_def)

lemma ring_written_one:
  assumes "ring_place r sz off (length bs)" and "off + length bs \<le> unat sz"
    and "length host = align8 (length bs)" and "take (length bs) host = bs"
  shows "ring_written base r sz off bs m (ram_store (base + of_nat (unat r + off)) host m)"
proof -
  have p: "8 dvd unat sz" "8 dvd off" "unat r + unat sz + 8 < 2 ^ 31"
    using assms(1) by (simp_all add: ring_place_def)
  have fit: "align8 (length bs) \<le> unat sz - off"
    using assms(2) p by (intro align8_le) (simp_all add: dvd_diff_nat)
  have addr: "ring_addr r sz off i = unat r + off + i" if "i < align8 (length bs)" for i
    using that fit by (intro ring_addr_no_wrap) simp
  have le: "length bs \<le> align8 (length bs)" by (rule align8_bounds)
  have st: "ram_store (base + of_nat (unat r + off)) host m (base + of_nat x) =
    (if unat r + off \<le> x \<and> x < unat r + off + length host then host ! (x - (unat r + off))
     else m (base + of_nat x))" if "x < 2 ^ 32" for x
    using that fit p assms(2,3) by (intro ram_store_cell) simp_all
  show ?thesis unfolding ring_written_def
  proof (intro conjI allI impI)
    fix i assume i: "i < length bs"
    with addr [of i] le have a: "ring_addr r sz off i = unat r + off + i" by simp
    have "unat r + off + i < 2 ^ 32" using i le fit p by simp
    moreover have "host ! i = bs ! i"
      using assms(4) i nth_take [OF i, of host] by simp
    ultimately show "ram_store (base + of_nat (unat r + off)) host m
        (base + of_nat (ring_addr r sz off i)) = bs ! i"
      using st [of "unat r + off + i"] i le unfolding a by (simp only: assms(3)) simp
  next
    fix x :: nat
    assume x: "x < 2 ^ 32" and out: "\<forall>i < align8 (length bs). x \<noteq> ring_addr r sz off i"
    have "\<not> (unat r + off \<le> x \<and> x < unat r + off + length host)"
    proof
      assume in_: "unat r + off \<le> x \<and> x < unat r + off + length host"
      then have "x - (unat r + off) < align8 (length bs)" using assms(3) by arith
      with out addr [OF this] in_ show False by (metis le_add_diff_inverse)
    qed
    with st [OF x] show "ram_store (base + of_nat (unat r + off)) host m (base + of_nat x) =
        m (base + of_nat x)" by simp
  qed
qed

lemma ring_written_outside:
  "ring_written base r sz off bs m m' \<Longrightarrow> x < 2 ^ 32 \<Longrightarrow>
     (\<And>i. i < align8 (length bs) \<Longrightarrow> x \<noteq> ring_addr r sz off i) \<Longrightarrow> m' (base + of_nat x) = m (base + of_nat x)"
  by (simp add: ring_written_def)

text \<open>A block that goes on at the start of the ring.\<close>

lemma ring_addr_second:
  assumes "off + f = unat sz" and "off < unat sz" and "i < off"
  shows "ring_addr r sz off (f + i) = unat r + i" "ring_addr r sz 0 i = unat r + i"
proof -
  have "ring_addr r sz off (f + i) = unat r + (off + (f + i) - unat sz)"
    using assms by (intro ring_addr_wrap) simp_all
  with assms show "ring_addr r sz off (f + i) = unat r + i" by simp
  show "ring_addr r sz 0 i = unat r + i"
    using assms ring_addr_no_wrap [of 0 i sz r] by simp
qed

lemma ring_piece_dvd:
  assumes "ring_place r sz off n" and "off + f = unat sz"
  shows "8 dvd f"
  using assms by (metis dvd_add_right_iff ring_place_def)

lemma ring_written_two:
  assumes place: "ring_place r sz off (length bs1 + length bs2)" and split: "off + length bs1 = unat sz"
    and w1: "ring_written base r sz off bs1 m m1" and w2: "ring_written base r sz 0 bs2 m1 m2"
  shows "ring_written base r sz off (bs1 @ bs2) m m2"
proof -
  have p: "off < unat sz" "unat r + unat sz + 8 < 2 ^ 31" "8 dvd length bs1"
    using place by (simp_all add: ring_place_def ring_piece_dvd [OF place split])
  have total: "align8 (length bs1 + length bs2) = length bs1 + align8 (length bs2)"
    using p(3) by (rule align8_add)
  then have short: "align8 (length bs2) \<le> off" using place split by (simp add: ring_place_def)
  note addr2 = ring_addr_second [OF split p(1) less_le_trans [OF _ short]]
  have le2: "length bs2 \<le> align8 (length bs2)" by (rule align8_bounds)
  show ?thesis unfolding ring_written_def
  proof (intro conjI allI impI)
    fix i assume i: "i < length (bs1 @ bs2)"
    show "m2 (base + of_nat (ring_addr r sz off i)) = (bs1 @ bs2) ! i"
    proof (cases "i < length bs1")
      case True
      then have addr: "ring_addr r sz off i = unat r + off + i" using split by (simp add: ring_addr_no_wrap)
      have "m2 (base + of_nat (ring_addr r sz off i)) = m1 (base + of_nat (ring_addr r sz off i))"
        unfolding addr using True split p addr2(2) short by (intro ring_written_outside [OF w2]) auto
      with ring_written_nth [OF w1 True] True show ?thesis by (simp add: nth_append)
    next
      case False
      then have j: "i - length bs1 < length bs2" using i by auto
      with addr2 [of "i - length bs1"] le2 False have "ring_addr r sz off i = ring_addr r sz 0 (i - length bs1)" by simp
      with ring_written_nth [OF w2 j] False show ?thesis by (simp add: nth_append)
    qed
  next
    fix x :: nat
    assume x: "x < 2 ^ 32" and out: "\<forall>i < align8 (length (bs1 @ bs2)). x \<noteq> ring_addr r sz off i"
    have "m2 (base + of_nat x) = m1 (base + of_nat x)"
    proof (rule ring_written_outside [OF w2 x])
      fix i assume i: "i < align8 (length bs2)"
      with out total have "x \<noteq> ring_addr r sz off (length bs1 + i)" by simp
      with addr2 [OF i] show "x \<noteq> ring_addr r sz 0 i" by simp
    qed
    also have "\<dots> = m (base + of_nat x)"
      using out total p(3) by (intro ring_written_outside [OF w1 x]) simp
    finally show "m2 (base + of_nat x) = m (base + of_nat x)" .
  qed
qed

text \<open>The sizes of the two pieces of a block that crosses the end of the ring.\<close>

lemma ring_split:
  assumes "ring_place r sz off (unat len)" and "off + unat len > unat sz"
  obtains first where "buff_len_to_wrap_boundary (ucast r) sz (of_nat (unat r + off)) len = first" "first \<noteq> 0"
    "off + unat first = unat sz" "unat first + unat (len - first) = unat len"
    "ring_place r sz off (unat first)" "ring_place r sz 0 (unat (len - first))"
    "align8 (unat first) \<le> align8 (unat len)" "align8 (unat (len - first)) \<le> align8 (unat len)"
proof -
  define first :: size_t where "first = of_nat (unat sz - off)"
  have p: "8 dvd off" "8 dvd unat sz" "off < unat sz" "align8 (unat len) \<le> unat sz" "unat r + unat sz + 8 < 2 ^ 31"
    using assms(1) by (simp_all add: ring_place_def)
  have first: "unat first = unat sz - off" unfolding first_def using p(5) by (intro unat_of_nat_small) simp
  then have "unat first \<noteq> 0" using p(3) by simp
  then have pos: "first \<noteq> 0" by auto
  have le: "unat first \<le> unat len" using assms(2) p(3) first by simp
  then have second: "unat (len - first) = unat len - unat first"
    by (subst unat_diff_le) (simp_all add: word_le_nat_alt)
  have d: "8 dvd unat first" unfolding first using p by (simp add: dvd_diff_nat)
  have al: "align8 (unat first) = unat first" "align8 (unat len - unat first) = align8 (unat len) - unat first"
    using d le by (simp_all add: align8_diff)
  show thesis
  proof (rule that [of first])
    show "buff_len_to_wrap_boundary (ucast r) sz (of_nat (unat r + off)) len = first"
      using ring_wrap_len [OF assms(1)] assms(2) by (simp add: first_def)
    show "ring_place r sz off (unat first)" "ring_place r sz 0 (unat (len - first))"
      using p first al second by (simp_all add: ring_place_def)
    show "align8 (unat first) \<le> align8 (unat len)" "align8 (unat (len - first)) \<le> align8 (unat len)"
      using al le second align8_bounds(1) [of "unat len"] by simp_all
  qed (use pos first p(3) second le in simp_all)
qed

text \<open>The bytes of a block of a ring, in order.\<close>

definition ring_read :: "u64 \<Rightarrow> u32 \<Rightarrow> size_t \<Rightarrow> nat \<Rightarrow> nat \<Rightarrow> ram \<Rightarrow> u8 list" where
  "ring_read base r sz off n m = map (\<lambda>i. m (base + of_nat (ring_addr r sz off i))) [0..<n]"

lemma ring_read_no_wrap:
  assumes "off + n \<le> unat sz"
  shows "ring_read base r sz off n m = ram_bytes n (base + of_nat (unat r + off)) m"
  using assms by (auto simp: ring_read_def ram_bytes_def ring_addr_no_wrap add.assoc)

lemma ring_read_wrap:
  assumes "off < unat sz" and "off + f = unat sz" and "n \<le> off"
  shows "ring_read base r sz off (f + n) m =
    ram_bytes f (base + of_nat (unat r + off)) m @ ram_bytes n (base + of_nat (unat r)) m"
proof (rule nth_equalityI)
  fix i assume "i < length (ring_read base r sz off (f + n) m)"
  then have i: "i < f + n" by (simp add: ring_read_def)
  show "ring_read base r sz off (f + n) m ! i =
    (ram_bytes f (base + of_nat (unat r + off)) m @ ram_bytes n (base + of_nat (unat r)) m) ! i"
  proof (cases "i < f")
    case True
    with i assms(2) show ?thesis
      by (simp add: ring_read_def ram_bytes_def nth_append ring_addr_no_wrap add.assoc del: upt_Suc)
  next
    case False
    have "off + i - unat sz = i - f" using assms(2) False by simp
    then have addr: "ring_addr r sz off i = unat r + (i - f)"
      using ring_addr_wrap [of sz off i r] assms i False by simp
    from i have "ring_read base r sz off (f + n) m ! i = m (base + of_nat (ring_addr r sz off i))"
      by (simp add: ring_read_def del: upt_Suc)
    also have "\<dots> = m (base + of_nat (unat r) + of_nat (i - f))"
      unfolding addr by (simp add: add.assoc)
    also have "\<dots> = ram_bytes n (base + of_nat (unat r)) m ! (i - f)"
      using i False by (simp add: ram_bytes_def del: upt_Suc of_nat_diff) (subst nth_upt; simp)
    finally show ?thesis
      using i False by (simp add: nth_append)
  qed
qed (simp add: ring_read_def)

end
