(* ===== verification/Payload_Laws.thy ===== *)
theory Payload_Laws
  imports Ring_Memory
begin

text \<open>
  Moving one payload between a socket and the ring in the memory of the IP: the transfer functions of
  \<^verbatim>\<open>streaming/src/intel_st_debug_if_sockets.c\<close> and the two-part transfers of
  \<^verbatim>\<open>streaming/src/intel_st_debug_if_server.c\<close>, with plain memory as the device.
\<close>

section \<open>The static buffers\<close>

definition buffers_ready :: "nat \<Rightarrow> 'h machine \<Rightarrow> bool" where
  "buffers_ready n m \<longleftrightarrow>
     (\<exists>a b. g_socket_recv_buff m = Some a \<and> n \<le> length a \<and>
            g_socket_send_buff m = Some b \<and> n \<le> length b)"

lemma buffers_ready_other [simp]:
  "buffers_ready n (mach (set_world w s)) = buffers_ready n (mach s)"
  "buffers_ready n (m\<lparr>drv := d\<rparr>) = buffers_ready n m"
  by (simp_all add: set_world_def buffers_ready_def)

lemma int32_of_small: "k < 2 ^ 31 \<Longrightarrow> int32_of (of_nat k) = int k"
proof -
  assume k: "k < 2 ^ 31"
  have "(ucast (of_nat k :: u64) :: u32) = of_nat k"
    by (rule ucast_of_nat_down) simp
  moreover have "sint (of_nat k :: u32) = int k"
    using k by (simp add: sint_uint uint_nat unat_of_nat_small signed_take_bit_int_eq_self)
  ultimately show ?thesis by (simp add: int32_of_def)
qed

section \<open>From the socket into the ring\<close>

lemma only_rx_sending: "only_rx fd w w' \<Longrightarrow> sent w' = sent w \<and> takes_all out w' = takes_all out w"
  by (auto simp: only_rx_def takes_all_def)

text \<open>What taking \<open>n\<close> bytes from a socket into the memory, which then is \<open>m\<close>, does to the server.\<close>

definition payload_taken :: "int \<Rightarrow> nat \<Rightarrow> ram \<Rightarrow> ram srv \<Rightarrow> ram srv \<Rightarrow> bool" where
  "payload_taken fd n m s s' \<longleftrightarrow> conn s' = conn s \<and> drv (mach s') = set_ram m (drv (mach s)) \<and>
     stream (rx (world s') fd) = drop n (stream (rx (world s) fd)) \<and> only_rx fd (world s) (world s')"

lemma payload_taken_trans:
  "payload_taken fd n m s s1 \<Longrightarrow> payload_taken fd n' m' s1 s2 \<Longrightarrow> payload_taken fd (n + n') m' s s2"
  by (auto simp: payload_taken_def set_ram_def add.commute intro: only_rx_trans)

lemma recv_h2t_ram:
  assumes "mapped base (drv (mach s))" and "buffers_ready n (mach s)" and "align8 (unat len) \<le> n"
    and "unat len \<le> length (stream (rx (world s) fd))" and "k + align8 (unat len) < 2 ^ 31"
  shows "\<exists>s' host. recv_h2t ram_bus fd (of_nat k) len s = Some (OK, s') \<and>
    payload_taken fd (unat len) (ram_store (base + of_nat k) host (ram_of (drv (mach s)))) s s' \<and>
    buffers_ready n (mach s') \<and> length host = align8 (unat len) \<and>
    take (unat len) host = take (unat len) (stream (rx (world s) fd))"
proof -
  from assms(2) obtain host other where host: "g_socket_recv_buff (mach s) = Some host" "n \<le> length host"
    "g_socket_send_buff (mach s) = Some other" "n \<le> length other" by (auto simp: buffers_ready_def)
  have le: "unat len \<le> align8 (unat len)" by (rule align8_bounds)
  define host' where "host' = take (unat len) (stream (rx (world s) fd)) @ drop (unat len) host"
  have fit: "align8 (unat len) \<le> length host'" "length host' = length host" "unat len \<le> length host"
    "take (unat len) host' = take (unat len) (stream (rx (world s) fd))"
    using le host(2) assms(3,4) by (simp_all add: host'_def)
  from recv_loop_ok [of "unat len" "osys (mach s)" fd 0 host "unat len"] fit(3) assms(4) obtain w where
    w: "socket_recv_accumulate fd host len (osys (mach s)) = Some (OK, int (unat len), host', w)"
    "stream (rx w fd) = drop (unat len) (stream (rx (world s) fd))" "only_rx fd (world s) w"
    by (auto simp: world_def socket_recv_accumulate_def host'_def)
  let ?m = "ram_store (base + of_nat k) (take (align8 (unat len)) host') (ram_of (drv (mach s)))"
  have copy: "memcpy64_host2fpga ram_bus host' (int k) len (drv (mach s)) = Some (set_ram ?m (drv (mach s)))"
    by (rule host2fpga_ram [OF assms(1,5) fit(1)])
  have "k < 2 ^ 31" using assms(5) by simp
  note int32_of_small [OF this]
  with w copy host fit le show ?thesis
    by (intro exI [of _ "s\<lparr>mach := (mach s)\<lparr>osys := w, g_socket_recv_buff := Some host',
          drv := set_ram ?m (drv (mach s))\<rparr>\<rparr>"] exI [of _ "take (align8 (unat len)) host'"])
       (simp add: recv_h2t_def socket_recv_accumulate_h2t_data_def pointee_def world_def Let_def payload_taken_def
         buffers_ready_def min_absorb1)
qed

text \<open>A piece that does not cross the end of the ring.\<close>

lemma recv_piece:
  assumes "mapped base (drv (mach s))" and "buffers_ready n (mach s)" and "align8 (unat len) \<le> n"
    and "unat len \<le> length (stream (rx (world s) fd))"
    and place: "ring_place r sz off (unat len)" and fits: "off + unat len \<le> unat sz"
  shows "\<exists>s' m. recv_h2t ram_bus fd (of_nat (unat r + off)) len s = Some (OK, s') \<and>
    payload_taken fd (unat len) m s s' \<and> buffers_ready n (mach s') \<and>
    ring_written base r sz off (take (unat len) (stream (rx (world s) fd))) (ram_of (drv (mach s))) m"
proof -
  have "unat r + off + align8 (unat len) < 2 ^ 31" by (rule ring_place_fits [OF place fits])
  from recv_h2t_ram [OF assms(1-4) this] obtain s' host where
    s': "recv_h2t ram_bus fd (of_nat (unat r + off)) len s = Some (OK, s')"
    "payload_taken fd (unat len) (ram_store (base + of_nat (unat r + off)) host (ram_of (drv (mach s)))) s s'"
    "buffers_ready n (mach s')" "length host = align8 (unat len)"
    "take (unat len) host = take (unat len) (stream (rx (world s) fd))" by blast
  moreover have "length (take (unat len) (stream (rx (world s) fd))) = unat len" using assms(4) by simp
  with s'(4,5) place fits have "ring_written base r sz off (take (unat len) (stream (rx (world s) fd)))
      (ram_of (drv (mach s))) (ram_store (base + of_nat (unat r + off)) host (ram_of (drv (mach s))))"
    by (intro ring_written_one) simp_all
  ultimately show ?thesis by blast
qed

lemma recv_payload_ram:
  assumes mapped: "mapped base (drv (mach s))" and ready: "buffers_ready (align8 (unat len)) (mach s)"
    and place: "ring_place (h2t_rx_buff (bufs s)) (h2t_rx_buff_sz (bufs s)) off (unat len)"
    and wraps: "use_wrapping_data_buffers (bufs s)" and enough: "unat len \<le> length (stream (rx (world s) fd))"
    and a: "a = of_nat (unat (h2t_rx_buff (bufs s)) + off)"
  shows "\<exists>s' m. recv_h2t_payload ram_bus fd a len s = Some (OK, s') \<and>
    payload_taken fd (unat len) m s s' \<and> buffers_ready (align8 (unat len)) (mach s') \<and>
    ring_written base (h2t_rx_buff (bufs s)) (h2t_rx_buff_sz (bufs s)) off
      (take (unat len) (stream (rx (world s) fd))) (ram_of (drv (mach s))) m"
proof (cases "off + unat len > unat (h2t_rx_buff_sz (bufs s))")
  case False
  with ring_wrap_len [OF place] recv_piece [OF mapped ready order_refl enough place] show ?thesis
    unfolding recv_h2t_payload_def a by (simp add: Let_def)
next
  case True
  let ?r = "h2t_rx_buff (bufs s)" and ?sz = "h2t_rx_buff_sz (bufs s)" and ?st = "stream (rx (world s) fd)"
  from ring_split [OF place True] obtain first where
    first: "buff_len_to_wrap_boundary (ucast ?r) ?sz (of_nat (unat ?r + off)) len = first" "first \<noteq> 0"
    and parts: "off + unat first = unat ?sz" "unat first + unat (len - first) = unat len"
      "ring_place ?r ?sz off (unat first)" "ring_place ?r ?sz 0 (unat (len - first))"
    and fits: "align8 (unat first) \<le> align8 (unat len)" "align8 (unat (len - first)) \<le> align8 (unat len)" .
  have enough1: "unat first \<le> length ?st" using enough parts(2) by simp
  from recv_piece [OF mapped ready fits(1) enough1 parts(3)] parts(1) obtain s1 m1 where
    s1: "recv_h2t ram_bus fd a first s = Some (OK, s1)" "payload_taken fd (unat first) m1 s s1"
    "buffers_ready (align8 (unat len)) (mach s1)" "ring_written base ?r ?sz off (take (unat first) ?st) (ram_of (drv (mach s))) m1"
    unfolding a by auto
  note t1 = s1(2) [unfolded payload_taken_def]
  have pre: "mapped base (drv (mach s1))" "unat (len - first) \<le> length (stream (rx (world s1) fd))"
    "0 + unat (len - first) \<le> unat ?sz" using t1 mapped enough parts by (auto simp: ring_place_def dest: order_trans [OF align8_bounds(1)])
  from recv_piece [OF pre(1) s1(3) fits(2) pre(2) parts(4) pre(3)] obtain s2 m2 where
    s2: "recv_h2t ram_bus fd (of_nat (unat ?r)) (len - first) s1 = Some (OK, s2)" "payload_taken fd (unat (len - first)) m2 s1 s2"
    "buffers_ready (align8 (unat len)) (mach s2)"
    "ring_written base ?r ?sz 0 (take (unat (len - first)) (drop (unat first) ?st)) m1 m2"
    using t1 by auto
  have whole: "take (unat len) ?st = take (unat first) ?st @ take (unat (len - first)) (drop (unat first) ?st)"
    unfolding parts(2) [symmetric] by (rule take_add)
  have lens: "length (take (unat first) ?st) = unat first"
    "length (take (unat (len - first)) (drop (unat first) ?st)) = unat (len - first)"
    using enough parts(2) by simp_all
  have "ring_written base ?r ?sz off (take (unat len) ?st) (ram_of (drv (mach s))) m2"
    unfolding whole by (rule ring_written_two [OF _ _ s1(4) s2(4)]) (simp_all only: lens parts(1,2) place)
  moreover have "recv_h2t_payload ram_bus fd a len s = Some (OK, s2)"
    using s1(1) s2(1) first wraps t1 unfolding recv_h2t_payload_def a by (simp add: Let_def)
  ultimately show ?thesis
    using payload_taken_trans [OF s1(2) s2(2)] s2(3) parts(2) by auto
qed

section \<open>From the ring to the socket\<close>

definition payload_sent :: "int \<Rightarrow> u8 list \<Rightarrow> ram srv \<Rightarrow> ram srv \<Rightarrow> bool" where
  "payload_sent fd bytes s s' \<longleftrightarrow> conn s' = conn s \<and> drv (mach s') = drv (mach s) \<and>
     sent (world s') fd = sent (world s) fd @ bytes \<and> only_tx fd (world s) (world s') \<and> takes_all fd (world s')"

lemma payload_sent_trans:
  "payload_sent fd bs s s1 \<Longrightarrow> payload_sent fd bs' s1 s2 \<Longrightarrow> payload_sent fd (bs @ bs') s s2"
  by (auto simp: payload_sent_def intro: only_tx_trans)

lemma send_t2h_ram:
  assumes "mapped base (drv (mach s))" and "buffers_ready n (mach s)" and "align8 (unat len) \<le> n"
    and "takes_all fd (world s)" and "k + align8 (unat len) < 2 ^ 31"
  shows "\<exists>s'. send_t2h ram_bus fd (of_nat k) len s = Some (OK, s') \<and> buffers_ready n (mach s') \<and>
    payload_sent fd (ram_bytes (unat len) (base + of_nat k) (ram_of (drv (mach s)))) s s'"
proof -
  from assms(2,3) obtain host other where host: "g_socket_send_buff (mach s) = Some host"
    "align8 (unat len) \<le> length host" "n \<le> length host"
    "g_socket_recv_buff (mach s) = Some other" "n \<le> length other"
    by (auto simp: buffers_ready_def)
  let ?host = "ram_bytes (align8 (unat len)) (base + of_nat k) (ram_of (drv (mach s))) @
    drop (align8 (unat len)) host"
  have le: "unat len \<le> align8 (unat len)" by (rule align8_bounds)
  have copy: "memcpy64_fpga2host ram_bus (int k) host len (drv (mach s)) = Some (?host, drv (mach s))"
    using assms(1,5) host(2) by (rule fpga2host_ram)
  have "unat len \<le> length ?host" using le host(2) by simp
  from send_loop_takes [OF assms(4) order_refl this] obtain w where
    w: "socket_send_all fd ?host len (world s) = Some (OK, int (unat len), w)"
    "sent w fd = sent (world s) fd @ take (unat len) ?host" "only_tx fd (world s) w" "takes_all fd w"
    by (auto simp: socket_send_all_def)
  have "take (unat len) ?host = ram_bytes (unat len) (base + of_nat k) (ram_of (drv (mach s)))"
    using le ram_bytes_take [of "unat len" "align8 (unat len) - unat len"] by simp
  moreover have "k < 2 ^ 31" using assms(5) by simp
  note int32_of_small [OF this]
  ultimately show ?thesis
    using copy w host
    by (simp add: send_t2h_def socket_send_all_t2h_data_def pointee_def world_def buffers_ready_def payload_sent_def Let_def)
qed

lemma send_payload_ram:
  assumes mapped: "mapped base (drv (mach s))" and ready: "buffers_ready (align8 (unat len)) (mach s)"
    and place: "ring_place (t2h_tx_buff (bufs s)) (t2h_tx_buff_sz (bufs s)) off (unat len)"
    and wraps: "use_wrapping_data_buffers (bufs s)" and takes: "takes_all fd (world s)"
    and a: "a = of_nat (unat (t2h_tx_buff (bufs s)) + off)"
  shows "\<exists>s'. send_t2h_payload ram_bus fd a len s = Some (OK, s') \<and> payload_sent fd
    (ring_read base (t2h_tx_buff (bufs s)) (t2h_tx_buff_sz (bufs s)) off (unat len) (ram_of (drv (mach s)))) s s'"
proof (cases "off + unat len > unat (t2h_tx_buff_sz (bufs s))")
  case False
  then have fits: "off + unat len \<le> unat (t2h_tx_buff_sz (bufs s))" by simp
  from send_t2h_ram [OF mapped ready order_refl takes ring_place_fits [OF place fits]] show ?thesis
    using ring_wrap_len [OF place] ring_read_no_wrap [OF fits] False
    unfolding send_t2h_payload_def a by (auto simp: Let_def)
next
  case True
  let ?r = "t2h_tx_buff (bufs s)" and ?sz = "t2h_tx_buff_sz (bufs s)" and ?m = "ram_of (drv (mach s))"
  from ring_split [OF place True] obtain first where
    first: "buff_len_to_wrap_boundary (ucast ?r) ?sz (of_nat (unat ?r + off)) len = first" "first \<noteq> 0"
    and parts: "off + unat first = unat ?sz" "unat first + unat (len - first) = unat len"
      "ring_place ?r ?sz off (unat first)" "ring_place ?r ?sz 0 (unat (len - first))"
    and fits: "align8 (unat first) \<le> align8 (unat len)" "align8 (unat (len - first)) \<le> align8 (unat len)" .
  have off: "off < unat ?sz" "unat len \<le> unat ?sz" using place align8_bounds(1) [of "unat len"] by (auto simp: ring_place_def)
  have fits1: "unat ?r + off + align8 (unat first) < 2 ^ 31"
    using ring_place_fits [OF parts(3)] parts(1) by simp
  from send_t2h_ram [OF mapped ready fits(1) takes fits1] obtain s1 where
    s1: "send_t2h ram_bus fd a first s = Some (OK, s1)" "buffers_ready (align8 (unat len)) (mach s1)"
    "payload_sent fd (ram_bytes (unat first) (base + of_nat (unat ?r + off)) ?m) s s1"
    unfolding a by blast
  note t1 = s1(3) [unfolded payload_sent_def]
  have pre: "mapped base (drv (mach s1))" "takes_all fd (world s1)" "unat ?r + align8 (unat (len - first)) < 2 ^ 31"
    using t1 mapped ring_place_fits [OF parts(4)] parts(2) off by simp_all
  from send_t2h_ram [OF pre(1) s1(2) fits(2) pre(2,3)] obtain s2 where
    s2: "send_t2h ram_bus fd (of_nat (unat ?r)) (len - first) s1 = Some (OK, s2)"
    "payload_sent fd (ram_bytes (unat (len - first)) (base + of_nat (unat ?r)) ?m) s1 s2"
    using t1 by auto
  have "unat (len - first) \<le> off" using parts(1,2) off by simp
  note bytes = ring_read_wrap [OF off(1) parts(1) this, of base ?r ?m, unfolded parts(2)]
  have "send_t2h_payload ram_bus fd a len s = Some (OK, s2)"
    using s1(1) s2(1) first wraps unfolding send_t2h_payload_def a by (simp add: Let_def)
  with payload_sent_trans [OF s1(3) s2(2)] show ?thesis unfolding bytes by blast
qed

section \<open>A packet on its way in\<close>

text \<open>
  The next packet of a client: its header has been received already when the server is waiting
  for room, and is the next thing in the stream otherwise. The guard band is not looked at.
\<close>

definition packet_at ::
  "CLIENT_CONN \<Rightarrow> H2T_PACKET_HEADER \<Rightarrow> u8 list \<Rightarrow> u8 list \<Rightarrow> 'h srv \<Rightarrow> bool" where
  "packet_at client hdr payload rest s \<longleftrightarrow>
     length payload = unat (DATA_LEN_BYTES hdr) \<and>
     (if h2t_waiting (conn s)
      then h2t_of_bytes (drop SIZEOF_PACKET_GUARDBAND (h2t_header_buff (bufs s))) = Some hdr \<and>
        stream (rx (world s) (h2t_data_fd client)) = payload @ rest
      else length (h2t_header_buff (bufs s)) = 10 \<and>
        (\<exists>guard. length guard = 4 \<and>
           stream (rx (world s) (h2t_data_fd client)) = guard @ h2t_to_bytes hdr @ payload @ rest))"

lemma header_len_unat [simp]: "unat header_len = 10"
  by (simp add: header_len_def packet_sizes)

lemma ucast_nonzero: "(r :: u32) \<noteq> 0 \<Longrightarrow> (ucast r :: u64) \<noteq> 0"
proof
  assume "r \<noteq> 0" and "(ucast r :: u64) = 0"
  moreover have "(ucast (ucast r :: u64) :: u32) = r" by (rule ucast_down_up) simp
  ultimately show False by simp
qed

lemma header_ready:
  assumes "packet_at client hdr payload rest s"
  shows "\<exists>hb w. update_curr_h2t_header client s =
      Some (OK, upd_buff (\<lambda>b. b\<lparr>h2t_header_buff := hb\<rparr>) (set_world w s)) \<and>
    h2t_of_bytes (drop SIZEOF_PACKET_GUARDBAND hb) = Some hdr \<and>
    stream (rx w (h2t_data_fd client)) = payload @ rest \<and> only_rx (h2t_data_fd client) (world s) w \<and>
    hb = (if h2t_waiting (conn s) then h2t_header_buff (bufs s)
          else take 10 (stream (rx (world s) (h2t_data_fd client))))"
proof (cases "h2t_waiting (conn s)")
  case True
  have "upd_buff (\<lambda>b. b\<lparr>h2t_header_buff := h2t_header_buff (bufs s)\<rparr>) (set_world (world s) s) = s"
    by (simp add: upd_buff_def set_world_def world_def)
  with True assms show ?thesis
    by (intro exI [of _ "h2t_header_buff (bufs s)"] exI [of _ "world s"])
       (simp add: update_curr_h2t_header_def packet_at_def)
next
  case False
  let ?fd = "h2t_data_fd client"
  from assms False obtain guard where g: "length guard = 4"
    "stream (rx (world s) ?fd) = (guard @ h2t_to_bytes hdr) @ payload @ rest"
    "length (h2t_header_buff (bufs s)) = 10"
    by (auto simp: packet_at_def)
  from recv_loop_ok [of 10 "world s" ?fd 0 "h2t_header_buff (bufs s)" 10] g obtain w where
    w: "socket_recv_accumulate ?fd (h2t_header_buff (bufs s)) header_len (world s) =
      Some (OK, 10, guard @ h2t_to_bytes hdr, w)" "stream (rx w ?fd) = payload @ rest"
      "only_rx ?fd (world s) w"
    by (auto simp: socket_recv_accumulate_def)
  have "h2t_of_bytes (drop SIZEOF_PACKET_GUARDBAND (guard @ h2t_to_bytes hdr)) = Some hdr"
    using g(1) h2t_of_to_bytes [of hdr "[]"] by (simp add: packet_sizes)
  with w False g show ?thesis
    by (intro exI [of _ "guard @ h2t_to_bytes hdr"] exI [of _ w])
       (simp add: update_curr_h2t_header_def)
qed

lemma push_h2t_ram:
  assumes "mapped base d"
  shows "\<exists>d'. push_h2t_data ram_bus hdr a d = Some (0, d') \<and> mapped base d'"
proof -
  have f: "fits ST_DBG_IP_H2T_HOW_LONG" "fits ST_DBG_IP_H2T_CONNECTION_ID"
    by (simp_all add: fits_def ST_DBG_IP_H2T_HOW_LONG_def ST_DBG_IP_H2T_CONNECTION_ID_def)
  let ?d = "d\<lparr>g_h2t_descriptor_slots_available := g_h2t_descriptor_slots_available d - 1\<rparr>"
  have "mapped base ?d" using assms by simp
  from wr64_ram [OF this f(1)] obtain d1 where
    d1: "wr64 ram_bus ST_DBG_IP_H2T_HOW_LONG
      (last_howlong_of (DATA_LEN_BYTES hdr) (SOP_EOP hdr AND H2T_PACKET_HEADER_MASK_EOP \<noteq> 0) OR
       push_bit 32 (ucast a)) ?d = Some d1" "mapped base d1" by blast
  from wr64_ram [OF d1(2) f(2)] obtain d2 where
    "wr64 ram_bus ST_DBG_IP_H2T_CONNECTION_ID (ucast (CONN_ID hdr) OR push_bit 32 (ucast (CHANNEL hdr))) d1
      = Some d2" "mapped base d2" by blast
  with d1 show ?thesis by (simp add: push_h2t_data_def Let_def)
qed

section \<open>What a transfer leaves alone\<close>

lemma recv_h2t_frame:
  assumes "recv_h2t bus fd buff len s = Some (rc, s')"
  shows "rc = OK \<and> conn s' = conn s \<and> g_socket_send_buff (mach s') = g_socket_send_buff (mach s) \<and>
    only_rx fd (world s) (world s')"
  using assms
  by (auto simp: recv_h2t_def socket_recv_accumulate_h2t_data_def socket_recv_accumulate_def world_def
      Let_def dest: recv_loop_only_rx split: bind_splits)

lemma recv_payload_frame:
  assumes "recv_h2t_payload bus fd buff len s = Some (rc, s')"
  shows "rc = OK \<and> conn s' = conn s \<and> g_socket_send_buff (mach s') = g_socket_send_buff (mach s) \<and>
    only_rx fd (world s) (world s')"
  using assms
  by (auto simp: recv_h2t_payload_def Let_def dest!: recv_h2t_frame intro: only_rx_trans
      split: bind_splits if_splits)

lemma fpga2host_overflow:
  "n \<noteq> 0 \<Longrightarrow> length buf < pos + 8 * n \<Longrightarrow> fpga2host_loop bus n fb pos buf d = None"
proof (induction n arbitrary: fb pos buf d)
  case (Suc n)
  show ?case
  proof (cases "length buf < pos + 8")
    case True
    then show ?thesis by (simp add: store_at_def split: bind_splits)
  next
    case False
    with Suc.prems have "n \<noteq> 0" by auto
    with Suc.IH Suc.prems(2) show ?thesis
      by (auto dest!: length_store_at split: bind_splits)
  qed
qed simp

section \<open>How a packet is taken\<close>

text \<open>The state after the header was received; \<open>hb\<close> is what the header buffer then holds.\<close>

definition header_received :: "CLIENT_CONN \<Rightarrow> H2T_PACKET_HEADER \<Rightarrow> u8 list \<Rightarrow> 'h srv \<Rightarrow> 'h srv \<Rightarrow> bool" where
  "header_received client hdr hb s s1 \<longleftrightarrow> update_curr_h2t_header client s = Some (OK, s1) \<and>
     h2t_of_bytes (drop SIZEOF_PACKET_GUARDBAND hb) = Some hdr \<and>
     s1 = upd_buff (\<lambda>b. b\<lparr>h2t_header_buff := hb\<rparr>) (set_world (world s1) s) \<and>
     only_rx (h2t_data_fd client) (world s) (world s1)"

lemma header_received_fields:
  assumes "header_received client hdr hb s s1"
  shows "bufs s1 = (bufs s)\<lparr>h2t_header_buff := hb\<rparr>" "drv (mach s1) = drv (mach s)"
    "loopback_mode (conn s1) = loopback_mode (conn s)" "hw_callbacks (conn s1) = hw_callbacks (conn s)"
    "buffers_ready n (mach s1) = buffers_ready n (mach s)"
    "g_socket_send_buff (mach s1) = g_socket_send_buff (mach s)"
    "sent (world s1) = sent (world s)" "takes_all fd (world s1) = takes_all fd (world s)"
proof -
  obtain w where w: "s1 = upd_buff (\<lambda>b. b\<lparr>h2t_header_buff := hb\<rparr>) (set_world w s)" "world s1 = w"
    "only_rx (h2t_data_fd client) (world s) w" using assms by (auto simp: header_received_def)
  show "bufs s1 = (bufs s)\<lparr>h2t_header_buff := hb\<rparr>" "drv (mach s1) = drv (mach s)"
    "loopback_mode (conn s1) = loopback_mode (conn s)" "hw_callbacks (conn s1) = hw_callbacks (conn s)"
    "buffers_ready n (mach s1) = buffers_ready n (mach s)"
    unfolding w(1) by simp_all
  show "g_socket_send_buff (mach s1) = g_socket_send_buff (mach s)"
    unfolding w(1) by (simp add: set_world_def)
  show "sent (world s1) = sent (world s)" "takes_all fd (world s1) = takes_all fd (world s)"
    using only_rx_sending [OF w(3)] w(2) by auto
qed

lemma packet_header:
  assumes "packet_at client hdr payload rest s"
  obtains hb s1 where "header_received client hdr hb s s1" "stream (rx (world s1) (h2t_data_fd client)) = payload @ rest"
    "unat (ucast (DATA_LEN_BYTES hdr) :: size_t) = length payload"
    "hb = (if h2t_waiting (conn s) then h2t_header_buff (bufs s)
           else take 10 (stream (rx (world s) (h2t_data_fd client))))"
proof -
  from header_ready [OF assms] obtain hb w where
    hb: "update_curr_h2t_header client s = Some (OK, upd_buff (\<lambda>b. b\<lparr>h2t_header_buff := hb\<rparr>) (set_world w s))"
      "h2t_of_bytes (drop SIZEOF_PACKET_GUARDBAND hb) = Some hdr" "stream (rx w (h2t_data_fd client)) = payload @ rest"
      "only_rx (h2t_data_fd client) (world s) w"
      "hb = (if h2t_waiting (conn s) then h2t_header_buff (bufs s)
             else take 10 (stream (rx (world s) (h2t_data_fd client))))" by blast
  let ?s1 = "upd_buff (\<lambda>b. b\<lparr>h2t_header_buff := hb\<rparr>) (set_world w s)"
  have "header_received client hdr hb s ?s1" unfolding header_received_def using hb(1,2,4) by simp
  moreover have "unat (ucast (DATA_LEN_BYTES hdr) :: size_t) = length payload"
    using assms by (simp add: packet_at_def unat_ucast_up)
  ultimately show thesis using hb(3,5) by (intro that [of hb ?s1]) simp_all
qed

text \<open>The state in which a payload is received: it counts as taken.\<close>

definition taking :: "'h srv \<Rightarrow> 'h srv" where
  "taking s = (let s2 = upd_stats (\<lambda>st. st\<lparr>h2t_cnt := h2t_cnt st + 1\<rparr>) s in s2\<lparr>conn := (conn s2)\<lparr>h2t_waiting := False\<rparr>\<rparr>)"

lemma taking_fields [simp]:
  "bufs (taking s) = bufs s" "mach (taking s) = mach s" "world (taking s) = world s"
  "loopback_mode (conn (taking s)) = loopback_mode (conn s)" "hw_callbacks (conn (taking s)) = hw_callbacks (conn s)"
  "\<not> h2t_waiting (conn (taking s))"
  by (simp_all add: taking_def upd_stats_def Let_def world_def)

lemma process_h2t_taken:
  assumes "header_received client hdr hb s s1"
    and "h2t_target (ucast (DATA_LEN_BYTES hdr)) s1 = Some (a, s2)" and "a \<noteq> 0"
  shows "process_h2t_data bus client s = do {
    (rc, s4) \<leftarrow> recv_h2t_payload bus (h2t_data_fd client) a (ucast (DATA_LEN_BYTES hdr)) (taking s2);
    if rc \<noteq> OK then Some (rc, s4)
    else if loopback_mode (conn s4) = 0
    then (case cb_h2t_data_received (hw_callbacks (conn s4)) of None \<Rightarrow> Some (OK, s4)
      | Some received \<Rightarrow> do { (r, s5) \<leftarrow> on_drv (received hdr (ucast a)) s4; Some (return_code_of_int r, s5) })
    else do {
      (rc2, s5) \<leftarrow> send_all (t2h_data_fd client) (h2t_header_buff (bufs s4)) header_len s4;
      if rc2 = OK then send_t2h bus (t2h_data_fd client) a (ucast (DATA_LEN_BYTES hdr)) s5 else Some (rc2, s5)
    } }"
  using assms header_received_fields(1) [OF assms(1)]
  by (simp add: process_h2t_data_def header_received_def Let_def taking_def)

text \<open>The address of a block, as the server computes with it.\<close>

lemma ring_place_address:
  assumes "ring_place r sz off len"
  shows "(ucast (r + of_nat off) :: u64) = of_nat (unat r + off)"
proof -
  have "unat r + off < 2 ^ 31" using assms by (simp add: ring_place_def)
  then have "unat (r + of_nat off) = unat r + off"
    by (subst unat_add_below) (simp_all add: unat_of_nat_small)
  then show ?thesis by (metis of_nat_unat)
qed

text \<open>What was written at the start of the ring is read there in one piece.\<close>

lemma ring_written_start:
  assumes "ring_written base r sz 0 bs m m'" and "ring_place r sz 0 (length bs)"
  shows "ram_bytes (length bs) (base + of_nat (unat r)) m' = bs"
proof (rule nth_equalityI)
  fix i assume "i < length (ram_bytes (length bs) (base + of_nat (unat r)) m')"
  then have i: "i < length bs" by simp
  then have "i < unat sz"
    using assms(2) align8_bounds(1) [of "length bs"] by (simp add: ring_place_def)
  then have "ring_addr r sz 0 i = unat r + i" using ring_addr_no_wrap [of 0 i] by simp
  with ring_written_nth [OF assms(1) i] show "ram_bytes (length bs) (base + of_nat (unat r)) m' ! i = bs ! i"
    using i by (simp add: ram_bytes_def add.assoc)
qed simp

text \<open>A payload that is longer than the send buffer.\<close>

lemma send_t2h_overflow:
  assumes "unat (ucast (n :: u16) :: size_t) = len" and "length (pointee (g_socket_send_buff (mach s))) < align8 len"
  shows "send_t2h bus fd a (ucast n) s = None"
proof -
  let ?len = "ucast n :: size_t"
  have "unat n < 2 ^ LENGTH(16)" by (rule unsigned_less)
  then have "unat ?len + 7 < 2 ^ 64" by (simp add: unat_ucast_up)
  from transfers_align8 [OF this] have "8 * unat ((?len + 7) div 8) = align8 len" unfolding assms(1) .
  with fpga2host_overflow [of "unat ((?len + 7) div 8)" "pointee (g_socket_send_buff (mach s))" 0 bus] assms(2)
  show ?thesis by (simp add: send_t2h_def socket_send_all_t2h_data_def memcpy64_fpga2host_def)
qed

lemma t2h_complete_ram: "mapped base d \<Longrightarrow> \<exists>d'. t2h_data_complete ram_bus d = Some d'"
  by (auto simp: t2h_data_complete_def wr32_def fpga_write_32_def mmio_store_def mapped_def ram_bus_def)

end
