(* ===== verification/Data_Laws.thy ===== *)
theory Data_Laws
  imports Payload_Laws
begin

text \<open>
  What the data channels of \<^verbatim>\<open>streaming/src/intel_st_debug_if_server.c\<close> do, with plain memory as
  the device: a payload from the client lands in the ring of the IP's memory byte for byte, a
  payload in that memory reaches the client, in loopback mode a packet comes back as it was.
\<close>

section \<open>Properties\<close>

text \<open>
  C3. A packet of a client in normal operation: when the driver has room for it at offset \<open>off\<close>
  of its ring, the payload is in the ring byte for byte, across its end if need be, and nothing
  beside it changed, before the descriptor is pushed; the packet and no more is taken from the
  stream. This holds whether the packet is new or was waiting for room.
\<close>

theorem h2t_packet_delivered:
  assumes "packet_at client hdr payload rest s" and "loopback_mode (conn s) = 0"
    and "use_wrapping_data_buffers (bufs s)" and "hw_callbacks (conn s) = get_hw_callbacks ram_bus cs"
    and "get_h2t_buffer ram_bus cs (ucast (DATA_LEN_BYTES hdr)) (drv (mach s)) = Some (a, d1)"
    and "mapped base d1" and "a = h2t_rx_buff (bufs s) + of_nat off" and "a \<noteq> 0"
    and "ring_place (h2t_rx_buff (bufs s)) (h2t_rx_buff_sz (bufs s)) off (length payload)"
    and "buffers_ready (align8 (length payload)) (mach s)"
  shows "\<exists>s' m. process_h2t_data ram_bus client s = Some (OK, s') \<and>
    ring_written base (h2t_rx_buff (bufs s)) (h2t_rx_buff_sz (bufs s)) off payload (ram_of d1) m \<and>
    push_h2t_data ram_bus hdr a (set_ram m d1) = Some (0, drv (mach s')) \<and>
    stream (rx (world s') (h2t_data_fd client)) = rest \<and> \<not> h2t_waiting (conn s')"
proof -
  let ?fd = "h2t_data_fd client" and ?len = "ucast (DATA_LEN_BYTES hdr) :: size_t" and ?r = "h2t_rx_buff (bufs s)"
  from packet_header [OF assms(1)] obtain hb s1 where hb: "header_received client hdr hb s s1"
    and st: "stream (rx (world s1) ?fd) = payload @ rest" and len: "unat ?len = length payload" .
  note f1 = header_received_fields [OF hb]
  let ?s2 = "s1\<lparr>mach := (mach s1)\<lparr>drv := d1\<rparr>\<rparr>"
  have a: "ucast a = (of_nat (unat ?r + off) :: u64)" unfolding assms(7) by (rule ring_place_address [OF assms(9)])
  have down: "(ucast (ucast a :: u64) :: u32) = a" by (rule ucast_down_up) simp
  have cb: "cb_get_h2t_buffer (hw_callbacks (conn s1)) = Some (get_h2t_buffer ram_bus cs)"
    "cb_h2t_data_received (hw_callbacks (conn s1)) = Some (push_h2t_data ram_bus)"
    using assms(4) f1(4) by (simp_all add: get_hw_callbacks_def)
  have target: "h2t_target ?len s1 = Some (ucast a, ?s2)"
    using assms(2,5) cb(1) f1(2,3) by (simp add: h2t_target_def on_drv_def)
  have taken: "mapped base (drv (mach (taking ?s2)))" "buffers_ready (align8 (unat ?len)) (mach (taking ?s2))"
    "ring_place (h2t_rx_buff (bufs (taking ?s2))) (h2t_rx_buff_sz (bufs (taking ?s2))) off (unat ?len)"
    "use_wrapping_data_buffers (bufs (taking ?s2))" "unat ?len \<le> length (stream (rx (world (taking ?s2)) ?fd))"
    "(ucast a :: u64) = of_nat (unat (h2t_rx_buff (bufs (taking ?s2))) + off)"
    using assms(3,6,9,10) f1(1,5) len st a by (simp_all add: world_set_mach del: of_nat_add) (simp add: world_def)
  from recv_payload_ram [OF taken] obtain s5 m where
    s5: "recv_h2t_payload ram_bus ?fd (ucast a) ?len (taking ?s2) = Some (OK, s5)"
    "payload_taken ?fd (length payload) m (taking ?s2) s5"
    "ring_written base ?r (h2t_rx_buff_sz (bufs s)) off payload (ram_of d1) m"
    using f1(1) len st by (auto simp: world_set_mach) (auto simp: world_def)
  have c5: "conn s5 = conn (taking ?s2)" "drv (mach s5) = set_ram m d1" "stream (rx (world s5) ?fd) = rest"
    using s5(2) st by (auto simp: payload_taken_def world_set_mach) (auto simp: world_def)
  from push_h2t_ram [of base "set_ram m d1" hdr a] assms(6) obtain d6 where
    d6: "push_h2t_data ram_bus hdr a (set_ram m d1) = Some (0, d6)" by auto
  let ?s6 = "s5\<lparr>mach := (mach s5)\<lparr>drv := d6\<rparr>\<rparr>"
  have "process_h2t_data ram_bus client s = Some (OK, ?s6)"
    using process_h2t_taken [OF hb target ucast_nonzero [OF assms(8)], of ram_bus] s5(1) c5(1,2) cb(2) assms(2) f1(3) d6 down
    by (simp add: on_drv_def return_code_of_int_def)
  with s5(3) c5(1,3) d6 show ?thesis
    by (intro exI [of _ ?s6] exI [of _ m]) (simp add: world_def)
qed

text \<open>
  A server on plain memory for the witnesses: four free descriptors, a ring of 4096 bytes whose
  next block starts eight bytes before its end.
\<close>

definition ring_driver :: "ram driver" where
  "ring_driver = (set_ram ((\<lambda>_. 0)(ucast ST_DBG_IP_H2T_AVAILABLE_SLOTS := 4)) ram_driver)
     \<lparr>g_h2t_descriptor_slots_available := 4,
      g_h2t_rx_cbuff := (cbuff_init 0x800 4096)\<lparr>write_offset := 4088\<rparr>\<rparr>"

definition ring_srv :: "int \<Rightarrow> u8 list \<Rightarrow> ram srv" where
  "ring_srv lb bytes =
     \<lparr>mach = \<lparr>drv = ring_driver, osys = quiet_os\<lparr>rx := (\<lambda>_. [Data (take 12 bytes), Data (drop 12 bytes)])\<rparr>,
        g_socket_recv_buff = Some (replicate 4160 0), g_socket_send_buff = Some (replicate 4160 0)\<rparr>,
      conn = SERVER_CONN_default
        \<lparr>s_buff := SERVER_BUFFERS_default
           \<lparr>use_wrapping_data_buffers := True, h2t_rx_buff := 0x800, h2t_rx_buff_sz := 4096,
            t2h_tx_buff := 0x2000, t2h_tx_buff_sz := 4096\<rparr>,
         hw_callbacks := get_hw_callbacks ram_bus True, loopback_mode := lb\<rparr>\<rparr>"

definition demo_header :: H2T_PACKET_HEADER where
  "demo_header = \<lparr>SOP_EOP = 3, CONN_ID = 5, CHANNEL = 300, DATA_LEN_BYTES = 16\<rparr>"

definition demo_client :: CLIENT_CONN where
  "demo_client = \<lparr>ctrl_fd = 4, mgmt_fd = 5, mgmt_rsp_fd = 6, h2t_data_fd = 7, t2h_data_fd = 8\<rparr>"

lemma ring_srv_stream: "12 < length bytes \<Longrightarrow> stream (rx (world (ring_srv lb bytes)) fd) = bytes"
  by (simp add: ring_srv_def world_def quiet_os_def)

lemma ring_srv_packet_at:
  assumes "length payload = unat (DATA_LEN_BYTES hdr)" and "2 < length payload"
  shows "packet_at demo_client hdr payload [] (ring_srv lb ([1, 2, 3, 4] @ h2t_to_bytes hdr @ payload))"
  using assms unfolding packet_at_def
  by (subst ring_srv_stream)
     (auto simp: ring_srv_def SERVER_CONN_default_def SERVER_BUFFERS_default_def packet_sizes
       intro!: exI [of _ "[1, 2, 3, 4]"])

lemma ring_srv_packet:
  "packet_at demo_client demo_header (replicate 16 7) []
     (ring_srv lb ([1, 2, 3, 4] @ h2t_to_bytes demo_header @ replicate 16 7))"
  by (rule ring_srv_packet_at) (simp_all add: demo_header_def)

lemma ring_srv_fields [simp]:
  "loopback_mode (conn (ring_srv lb bytes)) = lb" "\<not> h2t_waiting (conn (ring_srv lb bytes))"
  "use_wrapping_data_buffers (bufs (ring_srv lb bytes))" "h2t_rx_buff (bufs (ring_srv lb bytes)) = 0x800"
  "h2t_rx_buff_sz (bufs (ring_srv lb bytes)) = 4096" "t2h_tx_buff (bufs (ring_srv lb bytes)) = 0x2000"
  "t2h_tx_buff_sz (bufs (ring_srv lb bytes)) = 4096" "drv (mach (ring_srv lb bytes)) = ring_driver"
  "hw_callbacks (conn (ring_srv lb bytes)) = get_hw_callbacks ram_bus True"
  "buffers_ready n (mach (ring_srv lb bytes)) = (n \<le> 4160)" "takes_all fd (world (ring_srv lb bytes))"
  "sent (world (ring_srv lb bytes)) fd = []"
  by (simp_all add: ring_srv_def SERVER_CONN_default_def SERVER_BUFFERS_default_def buffers_ready_def
      takes_all_def quiet_os_def world_def)

lemma demo_client_fields [simp]:
  "h2t_data_fd demo_client = 7" "t2h_data_fd demo_client = 8" "ctrl_fd demo_client = 4"
  by (simp_all add: demo_client_def)

lemma mapped_set_driver [simp]:
  "mapped base (d\<lparr>g_h2t_rx_cbuff := c\<rparr>) = mapped base d"
  "mapped base (d\<lparr>g_h2t_descriptor_chain := x\<rparr>) = mapped base d"
  "mapped base (d\<lparr>g_h2t_descriptor_write_idx := y\<rparr>) = mapped base d"
  by (simp_all add: mapped_def)

lemma mapped_ring_driver: "mapped 0 ring_driver"
  using mapped_ram_driver by (simp add: ring_driver_def)

lemma ring_driver_slots: "rd32 ram_bus ST_DBG_IP_H2T_AVAILABLE_SLOTS ring_driver = Some (4, ring_driver)"
proof -
  have b: "fpga_uio_get_base_address (g_mmio_handle ring_driver) (plat ring_driver) = Some 0"
    using mapped_ring_driver by (simp add: mapped_def)
  have "le_word (ram_bytes 4 (ucast ST_DBG_IP_H2T_AVAILABLE_SLOTS) (device (plat ring_driver))) = (4 :: u32)"
    by (simp add: ring_driver_def set_ram_def ram_bytes_def ST_DBG_IP_H2T_AVAILABLE_SLOTS_def
        upt_conv_Cons)
  with b show ?thesis
    by (simp add: rd32_def fpga_read_32_def mmio_load_def ram_bus_def)
qed

lemma ring_driver_fields [simp]:
  "g_h2t_descriptor_slots_available ring_driver = 4" "g_h2t_descriptor_write_idx ring_driver = 0"
  "g_h2t_rx_cbuff ring_driver = (cbuff_init 0x800 4096)\<lparr>write_offset := 4088\<rparr>"
  by (simp_all add: ring_driver_def ram_driver_def driver_start_def set_ram_def)

lemma aligned_16: "GET_ALIGNED_SZ 16 = 16"
  by (simp add: GET_ALIGNED_SZ_def ALIGN_TO_def ST_DBG_IP_BUFF_ALIGN_POW_2_def)

lemma ring_driver_buffer:
  "get_h2t_buffer ram_bus True 16 ring_driver =
    Some (0x800 + 4088, ring_driver\<lparr>g_h2t_descriptor_chain := (g_h2t_descriptor_chain ring_driver)[0 := 16],
      g_h2t_descriptor_write_idx := 1,
      g_h2t_rx_cbuff := (cbuff_init 0x800 4096)\<lparr>write_offset := 8, space_available := 4080\<rparr>\<rparr>)"
  using ring_driver_slots
  by (simp add: get_h2t_buffer_def aligned_16 cbuff_alloc_def cbuff_init_def Let_def)

lemma h2t_packet_delivered_witness:
  "\<exists>s' m. process_h2t_data ram_bus demo_client
      (ring_srv 0 ([1, 2, 3, 4] @ h2t_to_bytes demo_header @ replicate 16 7)) = Some (OK, s') \<and>
    ring_written 0 0x800 4096 4088 (replicate 16 7) (ram_of ring_driver) m"
proof -
  let ?s = "ring_srv 0 ([1, 2, 3, 4] @ h2t_to_bytes demo_header @ replicate 16 7)"
  have "packet_at demo_client demo_header (replicate 16 7) [] ?s" by (rule ring_srv_packet)
  moreover have "ring_place 0x800 4096 4088 (length (replicate 16 (7 :: u8)))"
    by (simp add: ring_place_def align8_def)
  moreover have "align8 (length (replicate 16 (7 :: u8))) \<le> 4160"
    by (simp add: align8_def)
  moreover have "ram_of (ring_driver\<lparr>g_h2t_descriptor_chain := (g_h2t_descriptor_chain ring_driver)[0 := 16],
      g_h2t_descriptor_write_idx := 1,
      g_h2t_rx_cbuff := (cbuff_init 0x800 4096)\<lparr>write_offset := 8, space_available := 4080\<rparr>\<rparr>)
    = ram_of ring_driver" by (simp add: ram_of_def)
  ultimately show ?thesis
    using h2t_packet_delivered [of demo_client demo_header "replicate 16 7" "[]" ?s True _ _ 0 4088]
      ring_driver_buffer mapped_ring_driver
    by (fastforce simp: demo_header_def)
qed

text \<open>
  C5. In the server's loopback mode, with no packet waiting, a packet whose payload, rounded up to whole
  words, fits into the H2T ring (of whole words) and into the two transfer buffers comes back on the data
  socket of a client that takes what it is sent: guard band, header and payload as they came, whatever
  the pieces the sockets cut them into; it travels through the FPGA memory (plain
  memory here), and no driver function is called. Nothing in the code checks that it fits: a payload
  that is longer than the send buffer is undefined behaviour, as the next property says.
\<close>

theorem loopback_echo:
  assumes "packet_at client hdr payload rest s" and "\<not> h2t_waiting (conn s)"
    and "loopback_mode (conn s) \<noteq> 0" and "use_wrapping_data_buffers (bufs s)"
    and "mapped base (drv (mach s))" and "h2t_rx_buff (bufs s) \<noteq> 0"
    and "ring_place (h2t_rx_buff (bufs s)) (h2t_rx_buff_sz (bufs s)) 0 (length payload)"
    and "buffers_ready (align8 (length payload)) (mach s)" and "takes_all (t2h_data_fd client) (world s)"
  shows "\<exists>s'. process_h2t_data ram_bus client s = Some (OK, s') \<and>
    stream (rx (world s') (h2t_data_fd client)) = rest \<and>
    sent (world s') (t2h_data_fd client) = sent (world s) (t2h_data_fd client) @
      take (10 + length payload) (stream (rx (world s) (h2t_data_fd client)))"
proof -
  let ?fd = "h2t_data_fd client" and ?out = "t2h_data_fd client" and ?r = "h2t_rx_buff (bufs s)"
  let ?len = "ucast (DATA_LEN_BYTES hdr) :: size_t" and ?st = "stream (rx (world s) (h2t_data_fd client))"
  from packet_header [OF assms(1)] assms(2) obtain hb s1 where hb: "header_received client hdr hb s s1"
    and st: "stream (rx (world s1) ?fd) = payload @ rest" and len: "unat ?len = length payload" and "hb = take 10 ?st"
    by auto
  then have whole: "length hb = 10" "?st = hb @ payload @ rest" using assms(1,2) by (auto simp: packet_at_def)
  note f1 = header_received_fields [OF hb]
  have target: "h2t_target ?len s1 = Some (ucast ?r, s1)"
    using assms(3) f1(1,3) by (simp add: h2t_target_def split: option.splits)
  have taken: "mapped base (drv (mach (taking s1)))" "buffers_ready (align8 (unat ?len)) (mach (taking s1))"
    "ring_place (h2t_rx_buff (bufs (taking s1))) (h2t_rx_buff_sz (bufs (taking s1))) 0 (unat ?len)"
    "use_wrapping_data_buffers (bufs (taking s1))" "unat ?len \<le> length (stream (rx (world (taking s1)) ?fd))"
    "ucast ?r = of_nat (unat (h2t_rx_buff (bufs (taking s1))) + 0)"
    using assms(4,5,7,8) f1(1,2,5) len st by simp_all
  from recv_payload_ram [OF taken] obtain s5 m where
    s5: "recv_h2t_payload ram_bus ?fd (ucast ?r) ?len (taking s1) = Some (OK, s5)"
    "payload_taken ?fd (length payload) m (taking s1) s5" "buffers_ready (align8 (unat ?len)) (mach s5)"
    and m: "ring_written base ?r (h2t_rx_buff_sz (bufs s)) 0 payload (ram_of (drv (mach s))) m"
    using f1(1,2) len st by auto
  note t5 = s5(2) [unfolded payload_taken_def]
  have sent5: "sent (world s5) = sent (world s)" "takes_all ?out (world s5)"
    using only_rx_sending [of ?fd "world s1" "world s5" ?out] t5 f1(7,8) assms(9) by simp_all
  from send_all_takes [OF sent5(2), of header_len hb] whole obtain w6 where
    w6: "send_all ?out hb header_len s5 = Some (OK, set_world w6 s5)" "sent w6 ?out = sent (world s) ?out @ hb"
      "only_tx ?out (world s5) w6" "takes_all ?out (world (set_world w6 s5))"
    using sent5(1) by auto
  have pre6: "mapped base (drv (mach (set_world w6 s5)))" "buffers_ready (align8 (unat ?len)) (mach (set_world w6 s5))"
    "unat ?r + align8 (unat ?len) < 2 ^ 31"
    using s5(3) t5 assms(5,7) f1(2) len by (auto simp: ring_place_def)
  from send_t2h_ram [OF pre6(1,2) order_refl w6(4) pre6(3)] obtain s7 where
    s7: "send_t2h ram_bus ?out (ucast ?r) ?len (set_world w6 s5) = Some (OK, s7)"
    "payload_sent ?out (ram_bytes (length payload) (base + of_nat (unat ?r)) m) (set_world w6 s5) s7"
    using t5 len by auto
  have "process_h2t_data ram_bus client s = Some (OK, s7)"
    using process_h2t_taken [OF hb target ucast_nonzero [OF assms(6)], of ram_bus] s5(1) t5 assms(3) f1(1,3) w6(1) s7(1)
    by simp
  moreover have "stream (rx (world s7) ?fd) = rest"
    using t5 st w6(3) s7(2) by (auto simp: payload_sent_def only_tx_def)
  moreover have "ram_bytes (length payload) (base + of_nat (unat ?r)) m = payload"
    using ring_written_start [OF m assms(7)] .
  ultimately show ?thesis
    using s7(2) w6(2) whole by (intro exI [of _ s7]) (simp add: payload_sent_def)
qed

lemma loopback_echo_witness:
  "\<exists>s'. process_h2t_data ram_bus demo_client
      (ring_srv 1 ([1, 2, 3, 4] @ h2t_to_bytes demo_header @ replicate 16 7)) = Some (OK, s') \<and>
    sent (world s') 8 = [1, 2, 3, 4] @ h2t_to_bytes demo_header @ replicate 16 7"
proof -
  have "ring_place 0x800 4096 0 (length (replicate 16 (7 :: u8)))"
    by (simp add: ring_place_def align8_def)
  moreover have "align8 (length (replicate 16 (7 :: u8))) \<le> 4160"
    by (simp add: align8_def)
  ultimately show ?thesis
    using loopback_echo [OF ring_srv_packet, of 1 0] mapped_ring_driver
    by (fastforce simp: ring_srv_stream)
qed

text \<open>
  C22. In loopback mode the payload is copied back through the server's send buffer, and nothing
  compares the length in the client's header with the size of that buffer: a longer packet is a
  write beyond it, whatever the device and the data are.
\<close>

theorem loopback_overflow:
  assumes "packet_at client hdr payload rest s" and "loopback_mode (conn s) \<noteq> 0"
    and "h2t_rx_buff (bufs s) \<noteq> 0" and "length (pointee (g_socket_send_buff (mach s))) < align8 (length payload)"
    and "length (h2t_header_buff (bufs s)) = 10" and "takes_all (t2h_data_fd client) (world s)"
  shows "process_h2t_data bus client s = None"
proof -
  let ?out = "t2h_data_fd client" and ?len = "ucast (DATA_LEN_BYTES hdr) :: size_t" and ?a = "ucast (h2t_rx_buff (bufs s)) :: u64"
  from packet_header [OF assms(1)] obtain hb s1 where hb: "header_received client hdr hb s s1"
    and len: "unat ?len = length payload"
    and "hb = (if h2t_waiting (conn s) then h2t_header_buff (bufs s)
               else take 10 (stream (rx (world s) (h2t_data_fd client))))" .
  then have ten: "length hb = 10" using assms(1,5) by (auto simp: packet_at_def)
  note f1 = header_received_fields [OF hb]
  have target: "h2t_target ?len s1 = Some (?a, s1)"
    using assms(2) f1(1,3) by (simp add: h2t_target_def split: option.splits)
  note taken = process_h2t_taken [OF hb target ucast_nonzero [OF assms(3)], of bus]
  show ?thesis
  proof (cases "recv_h2t_payload bus (h2t_data_fd client) ?a ?len (taking s1)")
    case (Some r)
    then obtain rc s5 where s5: "recv_h2t_payload bus (h2t_data_fd client) ?a ?len (taking s1) = Some (rc, s5)"
      by (cases r) auto
    note fr = recv_payload_frame [OF s5]
    have "takes_all ?out (world s5)"
      using only_rx_sending [of "h2t_data_fd client" "world s1" "world s5" ?out] fr f1(8) assms(6) by simp
    from send_all_takes [OF this, of header_len hb] ten obtain w6 where
      w6: "send_all ?out hb header_len s5 = Some (OK, set_world w6 s5)" by auto
    have "g_socket_send_buff (mach (set_world w6 s5)) = g_socket_send_buff (mach s)"
      using fr f1(6) by (simp add: set_world_def)
    then have "send_t2h bus ?out ?a ?len (set_world w6 s5) = None"
      using assms(4) by (intro send_t2h_overflow [OF len]) simp
    with taken s5 fr f1(1,3) assms(2) w6 show ?thesis by simp
  qed (simp add: taken)
qed

lemma loopback_overflow_witness:
  "process_h2t_data ram_bus demo_client
     (ring_srv 1 ([1, 2, 3, 4] @ h2t_to_bytes (demo_header\<lparr>DATA_LEN_BYTES := 4168\<rparr>) @ replicate 4168 7)) = None"
proof (rule loopback_overflow [OF ring_srv_packet_at])
  show "length (pointee (g_socket_send_buff (mach (ring_srv 1 ([1, 2, 3, 4] @
      h2t_to_bytes (demo_header\<lparr>DATA_LEN_BYTES := 4168\<rparr>) @ replicate 4168 7))))) < align8 (length (replicate 4168 (7 :: u8)))"
    by (simp add: ring_srv_def pointee_def align8_def)
  show "length (h2t_header_buff (bufs (ring_srv 1 ([1, 2, 3, 4] @
      h2t_to_bytes (demo_header\<lparr>DATA_LEN_BYTES := 4168\<rparr>) @ replicate 4168 7)))) = 10"
    by (simp add: ring_srv_def SERVER_CONN_default_def SERVER_BUFFERS_default_def packet_sizes)
qed simp_all

text \<open>
  C4. A packet of the IP: when the descriptor registers announce \<open>len\<close> bytes at offset \<open>off\<close> of the
  ring, the client gets the guard band, the header made from the registers, and exactly these
  bytes of the ring in order, across its end if need be; afterwards the descriptor is given back.
\<close>

theorem t2h_packet_delivered:
  assumes "hw_callbacks (conn s) = get_hw_callbacks ram_bus cs" and "mapped base (drv (mach s))"
    and "reg64 base ST_DBG_IP_T2H_HOW_LONG (drv (mach s)) =
      ucast (how_long_word len eop) OR push_bit 32 (ucast (of_nat off :: u32))"
    and "reg64 base ST_DBG_IP_T2H_CONNECTION_ID (drv (mach s)) = ucast cid OR push_bit 32 (ucast chan)"
    and "len \<noteq> 0" and "T2H_MEM_BASE_ADDR (g_std_dbg_ip_info (drv (mach s))) = t2h_tx_buff (bufs s)"
    and "ring_place (t2h_tx_buff (bufs s)) (t2h_tx_buff_sz (bufs s)) off (unat len)"
    and "use_wrapping_data_buffers (bufs s)" and "buffers_ready (align8 (unat len)) (mach s)"
    and "t2h_header_buff (bufs s) = guard @ old" and "length guard = 4" and "length old = 6"
    and "takes_all (t2h_data_fd client) (world s)"
  shows "\<exists>s'. process_t2h_data ram_bus pay0 client s = Some (OK, s') \<and>
    sent (world s') (t2h_data_fd client) = sent (world s) (t2h_data_fd client) @ guard @
      h2t_to_bytes \<lparr>SOP_EOP = (if g_t2h_sop (drv (mach s)) \<noteq> 0 then H2T_PACKET_HEADER_MASK_SOP else 0) OR
                        (if eop then H2T_PACKET_HEADER_MASK_EOP else 0),
                    CONN_ID = cid, CHANNEL = chan, DATA_LEN_BYTES = len\<rparr> @
      ring_read base (t2h_tx_buff (bufs s)) (t2h_tx_buff_sz (bufs s)) off (unat len) (ram_of (drv (mach s))) \<and>
    t2h_data_complete ram_bus ((drv (mach s))\<lparr>g_t2h_sop := if eop then 1 else 0\<rparr>) = Some (drv (mach s'))"
proof -
  let ?fd = "t2h_data_fd client" and ?r = "t2h_tx_buff (bufs s)" and ?len = "ucast len :: size_t"
  let ?h = "\<lparr>SOP_EOP = (if g_t2h_sop (drv (mach s)) \<noteq> 0 then H2T_PACKET_HEADER_MASK_SOP else 0) OR
      (if eop then H2T_PACKET_HEADER_MASK_EOP else 0), CONN_ID = cid, CHANNEL = chan, DATA_LEN_BYTES = len\<rparr>"
  let ?d1 = "(drv (mach s))\<lparr>g_t2h_sop := if eop then 1 else 0\<rparr>" and ?hb = "guard @ h2t_to_bytes ?h"
  obtain h0 where h0: "h2t_of_bytes (drop SIZEOF_PACKET_GUARDBAND (t2h_header_buff (bufs s))) = Some h0"
    using assms(10,11,12) by (simp add: h2t_of_bytes_def packet_sizes)
  have acquire: "get_t2h_data ram_bus h0 pay0 (drv (mach s)) = Some (0, ?h, of_nat off + ?r, ?d1)"
    using get_t2h_words [OF assms(2,5,3,4), of h0 pay0] assms(6) by simp
  have hb: "store_h2t_header ?h (t2h_header_buff (bufs s)) = Some ?hb"
    using assms(10,11,12) by (simp add: store_h2t_header_def store_at_def packet_sizes)
  let ?s1 = "upd_buff (\<lambda>b. b\<lparr>t2h_header_buff := ?hb\<rparr>) (s\<lparr>mach := (mach s)\<lparr>drv := ?d1\<rparr>\<rparr>)"
  let ?s2 = "upd_stats (\<lambda>st. st\<lparr>t2h_cnt := t2h_cnt st + 1\<rparr>) ?s1"
  have same: "drv (mach ?s2) = ?d1" "world ?s2 = world s" "bufs ?s2 = (bufs s)\<lparr>t2h_header_buff := ?hb\<rparr>"
    "hw_callbacks (conn ?s2) = get_hw_callbacks ram_bus cs" "buffers_ready (align8 (unat len)) (mach ?s2)"
    using assms(1,9) by (simp_all add: upd_buff_def upd_stats_def world_def)
  have takes: "takes_all ?fd (world ?s2)" using assms(13) same by simp
  from send_all_takes [OF takes, of header_len ?hb] assms(11) same(2) obtain w where
    w: "send_all ?fd ?hb header_len ?s2 = Some (OK, set_world w ?s2)"
    "sent w ?fd = sent (world s) ?fd @ ?hb" "takes_all ?fd w"
    by auto
  let ?s3 = "set_world w ?s2"
  have len: "unat ?len = unat len" by (simp add: unat_ucast_up)
  have a: "ucast (of_nat off + ?r) = (of_nat (unat ?r + off) :: u64)"
    using ring_place_address [OF assms(7)] by (simp add: add.commute)
  have taken: "mapped base (drv (mach ?s3))" "buffers_ready (align8 (unat ?len)) (mach ?s3)"
    "ring_place (t2h_tx_buff (bufs ?s3)) (t2h_tx_buff_sz (bufs ?s3)) off (unat ?len)"
    "use_wrapping_data_buffers (bufs ?s3)" "takes_all ?fd (world ?s3)"
    "ucast (of_nat off + ?r) = (of_nat (unat (t2h_tx_buff (bufs ?s3)) + off) :: u64)"
    using same assms(2,7,8) len w(3) a by simp_all
  from send_payload_ram [OF taken] obtain s4 where
    s4: "send_t2h_payload ram_bus ?fd (ucast (of_nat off + ?r)) ?len ?s3 = Some (OK, s4)"
      "payload_sent ?fd (ring_read base ?r (t2h_tx_buff_sz (bufs s)) off (unat len) (ram_of ?d1)) ?s3 s4"
    using same(1,3) len by auto
  note t4 = s4(2) [unfolded payload_sent_def]
  obtain d5 where d5: "t2h_data_complete ram_bus ?d1 = Some d5"
    using t2h_complete_ram [of base ?d1] assms(2) by auto
  let ?s5 = "s4\<lparr>mach := (mach s4)\<lparr>drv := d5\<rparr>\<rparr>"
  have "process_t2h_data ram_bus pay0 client s = Some (OK, ?s5)"
    unfolding process_t2h_data_def
    using h0 acquire hb assms(1,5) w(1) s4(1) t4 d5 same(1,3,4) by (simp add: Let_def get_hw_callbacks_def)
  moreover have "sent (world ?s5) ?fd = sent (world s) ?fd @ guard @ h2t_to_bytes ?h @
      ring_read base ?r (t2h_tx_buff_sz (bufs s)) off (unat len) (ram_of (drv (mach s)))"
    using t4 w(2) by (simp add: ram_of_def world_def [of ?s5]) (simp add: world_def)
  ultimately show ?thesis using d5 by (intro exI [of _ ?s5]) simp
qed

definition t2h_ram :: ram where
  "t2h_ram =
     ram_store (0 + ucast ST_DBG_IP_T2H_CONNECTION_ID) (le_bytes 8 (ucast (5 :: u8) OR push_bit 32 (ucast (300 :: u16)) :: u64))
       (ram_store (0 + ucast ST_DBG_IP_T2H_HOW_LONG)
         (le_bytes 8 (ucast (how_long_word 16 True) OR push_bit 32 (ucast (of_nat 4088 :: u32)) :: u64)) ucast)"

definition t2h_srv :: "ram srv" where
  "t2h_srv = (ring_srv 0 [])\<lparr>mach := (mach (ring_srv 0 []))\<lparr>drv := set_ram t2h_ram
     (ring_driver\<lparr>g_std_dbg_ip_info := (g_std_dbg_ip_info ring_driver)\<lparr>T2H_MEM_BASE_ADDR := 0x2000\<rparr>\<rparr>)\<rparr>\<rparr>"

lemma t2h_srv_fields [simp]:
  "conn t2h_srv = conn (ring_srv 0 [])" "world t2h_srv = world (ring_srv 0 [])"
  "ram_of (drv (mach t2h_srv)) = t2h_ram" "buffers_ready n (mach t2h_srv) = (n \<le> 4160)"
  "T2H_MEM_BASE_ADDR (g_std_dbg_ip_info (drv (mach t2h_srv))) = 0x2000" "mapped 0 (drv (mach t2h_srv))"
  "t2h_header_buff (bufs (ring_srv 0 [])) = replicate 10 0"
  using mapped_ring_driver
  by (simp_all add: t2h_srv_def world_def ring_srv_def buffers_ready_def set_ram_def mapped_def ram_of_def
      SERVER_CONN_default_def SERVER_BUFFERS_default_def packet_sizes)

lemma t2h_srv_registers:
  "reg64 0 ST_DBG_IP_T2H_HOW_LONG (drv (mach t2h_srv)) =
     ucast (how_long_word 16 True) OR push_bit 32 (ucast (of_nat 4088 :: u32))"
  "reg64 0 ST_DBG_IP_T2H_CONNECTION_ID (drv (mach t2h_srv)) = ucast (5 :: u8) OR push_bit 32 (ucast (300 :: u16))"
proof -
  have reg: "reg64 0 a (drv (mach t2h_srv)) = le_word (ram_bytes 8 (0 + ucast a) t2h_ram)" for a
    by (simp add: reg64_def ram_word_def t2h_srv_def set_ram_def)
  have second: "ram_bytes 8 (0 + ucast ST_DBG_IP_T2H_CONNECTION_ID)
      (ram_store (0 + ucast ST_DBG_IP_T2H_CONNECTION_ID) (le_bytes 8 w) m) = le_bytes 8 w" for w :: u64 and m
    using ram_bytes_store [of "le_bytes 8 w"] by simp
  have "ram_bytes 8 (0 + ucast ST_DBG_IP_T2H_HOW_LONG)
      (ram_store (0 + ucast ST_DBG_IP_T2H_CONNECTION_ID) (le_bytes 8 w) m) =
    ram_bytes 8 (0 + ucast ST_DBG_IP_T2H_HOW_LONG) m" for w :: u64 and m
    by (rule ram_bytes_apart) (simp_all add: ST_DBG_IP_T2H_HOW_LONG_def ST_DBG_IP_T2H_CONNECTION_ID_def)
  moreover have "ram_bytes 8 (0 + ucast ST_DBG_IP_T2H_HOW_LONG)
      (ram_store (0 + ucast ST_DBG_IP_T2H_HOW_LONG) (le_bytes 8 w) m) = le_bytes 8 w" for w :: u64 and m
    using ram_bytes_store [of "le_bytes 8 w"] by simp
  ultimately show "reg64 0 ST_DBG_IP_T2H_HOW_LONG (drv (mach t2h_srv)) =
      ucast (how_long_word 16 True) OR push_bit 32 (ucast (of_nat 4088 :: u32))"
    unfolding reg t2h_ram_def by (simp only: le_word_le_bytes_u64)
  show "reg64 0 ST_DBG_IP_T2H_CONNECTION_ID (drv (mach t2h_srv)) =
      ucast (5 :: u8) OR push_bit 32 (ucast (300 :: u16))"
    unfolding reg t2h_ram_def second by (rule le_word_le_bytes_u64)
qed

lemma t2h_packet_delivered_witness:
  "\<exists>s' h. process_t2h_data ram_bus 0 demo_client t2h_srv = Some (OK, s') \<and>
    sent (world s') 8 = replicate 4 0 @ h2t_to_bytes h @ ring_read 0 0x2000 4096 4088 16 t2h_ram"
proof -
  have "replicate 10 (0 :: u8) = replicate 4 0 @ replicate 6 0" by (simp flip: replicate_add)
  moreover have "ring_place 0x2000 4096 4088 (unat (16 :: u16))"
    by (simp add: ring_place_def align8_def)
  moreover have "align8 (unat (16 :: u16)) \<le> 4160" by (simp add: align8_def)
  ultimately show ?thesis
    using t2h_packet_delivered [OF _ _ t2h_srv_registers, where client = demo_client and cs = True
        and guard = "replicate 4 0" and old = "replicate 6 0" and ?pay0.0 = 0]
    by (simp del: of_nat_numeral) blast
qed

text \<open>
  C23. A packet for which the driver has no room stays the next packet: its header is kept, its
  payload stays in the socket, and the following call finds it again, however often this repeats.
\<close>

theorem h2t_packet_waits:
  assumes "packet_at client hdr payload rest s" and "loopback_mode (conn s) = 0"
    and "cb_get_h2t_buffer (hw_callbacks (conn s)) = Some get_buffer"
    and "get_buffer (ucast (DATA_LEN_BYTES hdr)) (drv (mach s)) = Some (0, d1)"
  shows "\<exists>s'. process_h2t_data bus client s = Some (OK, s') \<and> packet_at client hdr payload rest s' \<and>
    h2t_waiting (conn s') \<and> drv (mach s') = d1 \<and> sent (world s') = sent (world s)"
proof -
  from packet_header [OF assms(1)] obtain hb s1 where hb: "header_received client hdr hb s s1"
    and st: "stream (rx (world s1) (h2t_data_fd client)) = payload @ rest" .
  note f1 = header_received_fields [OF hb]
  let ?s2 = "s1\<lparr>mach := (mach s1)\<lparr>drv := d1\<rparr>\<rparr>"
  let ?s3 = "?s2\<lparr>conn := (conn ?s2)\<lparr>h2t_waiting := True\<rparr>\<rparr>"
  have "h2t_target (ucast (DATA_LEN_BYTES hdr)) s1 = Some (0, ?s2)"
    using assms(2,3,4) f1(2-4) by (simp add: h2t_target_def on_drv_def)
  then have "process_h2t_data bus client s = Some (OK, ?s3)"
    using hb f1(1) by (simp add: process_h2t_data_def header_received_def Let_def)
  moreover have "packet_at client hdr payload rest ?s3" "sent (world ?s3) = sent (world s)"
    using assms(1) hb st f1(1,7) by (simp_all add: packet_at_def header_received_def world_def)
  ultimately show ?thesis by (intro exI [of _ ?s3]) simp
qed

lemma h2t_packet_waits_witness:
  "\<exists>s'. process_h2t_data ram_bus demo_client ((ring_srv 0 ([1, 2, 3, 4] @ h2t_to_bytes demo_header @ replicate 16 7))
      \<lparr>conn := start_conn ram_bus True (get_design_info \<lparr>cxt_mmio_handle = 0, h2t_t2h_mem_size = 4096, cxt_port = 0\<rparr>)
         \<lparr>hw_callbacks := SERVER_HW_CALLBACKS_default\<lparr>cb_get_h2t_buffer := Some (\<lambda>n d. Some (0, d))\<rparr>\<rparr>\<rparr>) = Some (OK, s') \<and>
    h2t_waiting (conn s')"
proof -
  let ?s0 = "ring_srv 0 ([1, 2, 3, 4] @ h2t_to_bytes demo_header @ replicate 16 7)"
  let ?s = "?s0\<lparr>conn := start_conn ram_bus True
      (get_design_info \<lparr>cxt_mmio_handle = 0, h2t_t2h_mem_size = 4096, cxt_port = 0\<rparr>)
         \<lparr>hw_callbacks := SERVER_HW_CALLBACKS_default\<lparr>cb_get_h2t_buffer := Some (\<lambda>n d. Some (0, d))\<rparr>\<rparr>\<rparr>"
  have "packet_at demo_client demo_header (replicate 16 7) [] ?s"
    using ring_srv_packet [of 0]
    by (simp add: packet_at_def start_conn_def start_buffers_def SERVER_CONN_default_def
        SERVER_BUFFERS_default_def packet_sizes)
  then show ?thesis
    using h2t_packet_waits [of demo_client demo_header "replicate 16 7" "[]" ?s "\<lambda>n d. Some (0, d)"]
    by (auto simp: start_conn_def SERVER_CONN_default_def)
qed

text \<open>
  C24. The repository builds the server with \<open>ENABLE_MGMT\<close> 0: there is no management buffer and no
  callback for one. Once a client's management header was received, every further call leaves the
  server as it is and reports success: the payload is never taken from the socket, which stays
  readable for ever.
\<close>

theorem mgmt_packet_never_consumed:
  assumes "hw_callbacks (conn s) = get_hw_callbacks bus cs"
    and "mgmt_rx_buff (bufs s) = mgmt_rx_buff (start_buffers (get_design_info cxt))"
    and "length (mgmt_header_buff (bufs s)) = 10" and "mgmt_waiting (conn s)"
  shows "process_mgmt_data client s = Some (OK, s)"
proof -
  have z: "mgmt_rx_buff (bufs s) = 0"
    using assms(2) by (simp_all add: start_buffers_def get_design_info_def Let_def)
  obtain h where h: "mgmt_of_bytes (drop SIZEOF_PACKET_GUARDBAND (mgmt_header_buff (bufs s))) = Some h"
    using assms(3) by (simp add: mgmt_of_bytes_def packet_sizes)
  have same: "s\<lparr>conn := (conn s)\<lparr>mgmt_waiting := True\<rparr>\<rparr> = s"
    using assms(4) by (cases s; cases "conn s") simp
  have "cb_get_mgmt_buffer (hw_callbacks (conn s)) = None"
    using assms(1) by (simp add: get_hw_callbacks_def SERVER_HW_CALLBACKS_default_def)
  then have "mgmt_target (ucast (M_DATA_LEN_BYTES h)) s = Some (0, s)"
    using z by (simp add: mgmt_target_def)
  then show ?thesis
    unfolding process_mgmt_data_def update_curr_mgmt_header_def using assms(4) h same
    by (simp add: Let_def)
qed

lemma mgmt_packet_never_consumed_witness:
  "process_mgmt_data demo_client ((ring_srv 0 [])
      \<lparr>conn := (start_conn ram_bus True (get_design_info \<lparr>cxt_mmio_handle = 0, h2t_t2h_mem_size = 4096, cxt_port = 0\<rparr>))
         \<lparr>mgmt_waiting := True\<rparr>\<rparr>) =
    Some (OK, (ring_srv 0 [])
      \<lparr>conn := (start_conn ram_bus True (get_design_info \<lparr>cxt_mmio_handle = 0, h2t_t2h_mem_size = 4096, cxt_port = 0\<rparr>))
         \<lparr>mgmt_waiting := True\<rparr>\<rparr>)"
  by (rule mgmt_packet_never_consumed [where bus = ram_bus and cs = True and
        cxt = "\<lparr>cxt_mmio_handle = 0, h2t_t2h_mem_size = 4096, cxt_port = 0\<rparr>"])
     (simp_all add: start_conn_def start_buffers_def SERVER_CONN_default_def SERVER_BUFFERS_default_def packet_sizes)

end
