(* ===== verification/Ip_Contract.thy ===== *)
theory Ip_Contract
  imports Payload_Laws
begin

text \<open>
  What the program relies on of the ST Debug IP, as a condition on an otherwise unknown device, and
  what follows for the driver (\<^verbatim>\<open>streaming/src/intel_st_debug_if_st_dbg_ip_driver.c\<close>): with such a
  device every function of the driver that the server calls is defined and keeps its bookkeeping in
  step with the IP.
\<close>

section \<open>Computations that end\<close>

text \<open>
  A computation is defined and its result is as it should be. The rules go along the structure of the
  code, from the result back to what must hold before.
\<close>

definition runs :: "'a option \<Rightarrow> ('a \<Rightarrow> bool) \<Rightarrow> bool" where
  "runs m P \<longleftrightarrow> (\<exists>x. m = Some x \<and> P x)"

lemma runs_Some [simp]: "runs (Some x) P = P x"
  by (simp add: runs_def)

lemma runs_bind [simp]: "runs (m \<bind> f) P = runs m (\<lambda>x. runs (f x) P)"
  by (auto simp: runs_def bind_eq_Some_conv)

lemma runs_weaken: "runs m P \<Longrightarrow> (\<And>x. P x \<Longrightarrow> Q x) \<Longrightarrow> runs m Q"
  by (auto simp: runs_def)

lemma runs_then: "runs m P \<Longrightarrow> (\<And>x. P x \<Longrightarrow> runs (f x) Q) \<Longrightarrow> runs (m \<bind> f) Q"
  by (auto simp: runs_def bind_eq_Some_conv)

lemma runs_total: "\<exists>x. m = Some x \<Longrightarrow> (\<And>x. m = Some x \<Longrightarrow> P x) \<Longrightarrow> runs m P"
  by (auto simp: runs_def)

section \<open>The device\<close>

text \<open>
  \<open>held\<close> is the number of H2T descriptors that the IP has and has not finished. Accesses let it
  shrink at any time; only the write that pushes a descriptor makes it grow, by one; the register of
  the free slots tells how many of the \<open>n\<close> descriptors are left; the reset drops them all. A T2H
  descriptor is about bytes of the T2H memory, whose size is \<open>sz\<close>.
\<close>

definition t2h_len :: "u64 \<Rightarrow> u16" where
  "t2h_len v = ucast ((ucast v :: u32) AND ST_DBG_IP_HOW_LONG_MASK)"

definition t2h_where :: "u64 \<Rightarrow> u32" where
  "t2h_where v = ucast (drop_bit 32 v)"

definition honest_ip :: "'h bus \<Rightarrow> u64 \<Rightarrow> nat \<Rightarrow> nat \<Rightarrow> ('h \<Rightarrow> nat) \<Rightarrow> bool" where
  "honest_ip bus base n sz held \<longleftrightarrow> n \<le> 128 \<and>
     (\<forall>a h. held (snd (bus_rd32 bus a h)) \<le> held h \<and> held (snd (bus_rd64 bus a h)) \<le> held h) \<and>
     (\<forall>a v h. held (bus_wr32 bus a v h) \<le> held h) \<and>
     (\<forall>a v h. held (bus_wr64 bus a v h) \<le> held h + (if a = base + ucast ST_DBG_IP_H2T_CONNECTION_ID then 1 else 0)) \<and>
     (\<forall>v h. v AND ST_DBG_IP_CONFIG_H2T_T2H_RESET_FIELD \<noteq> 0 \<longrightarrow>
        held (bus_wr32 bus (base + ucast ST_DBG_IP_CONFIG_RESET_AND_LOOPBACK) v h) = 0) \<and>
     (\<forall>h. held h \<le> n \<longrightarrow> unat (fst (bus_rd32 bus (base + ucast ST_DBG_IP_H2T_AVAILABLE_SLOTS) h)) +
        held (snd (bus_rd32 bus (base + ucast ST_DBG_IP_H2T_AVAILABLE_SLOTS) h)) = n) \<and>
     (\<forall>h. let v = fst (bus_rd64 bus (base + ucast ST_DBG_IP_T2H_HOW_LONG) h)
          in t2h_len v \<noteq> 0 \<longrightarrow> unat (t2h_len v) \<le> sz \<and> unat (t2h_where v) < sz)"

lemma honest_ipD:
  assumes "honest_ip bus base n sz held"
  shows "n \<le> 128" "held (snd (bus_rd32 bus a h)) \<le> held h" "held (snd (bus_rd64 bus a h)) \<le> held h"
    "held (bus_wr32 bus a v h) \<le> held h"
    "held (bus_wr64 bus a w h) \<le> held h + (if a = base + ucast ST_DBG_IP_H2T_CONNECTION_ID then 1 else 0)"
    "held (bus_wr32 bus (base + ucast ST_DBG_IP_CONFIG_RESET_AND_LOOPBACK) ST_DBG_IP_CONFIG_H2T_T2H_RESET_FIELD h) = 0"
    "held h \<le> n \<Longrightarrow> unat (fst (bus_rd32 bus (base + ucast ST_DBG_IP_H2T_AVAILABLE_SLOTS) h)) +
       held (snd (bus_rd32 bus (base + ucast ST_DBG_IP_H2T_AVAILABLE_SLOTS) h)) = n"
  using assms by (simp_all add: honest_ip_def ST_DBG_IP_CONFIG_H2T_T2H_RESET_FIELD_def)

definition dev :: "'h driver \<Rightarrow> 'h" where
  "dev d = device (plat d)"

definition set_dev :: "'h driver \<Rightarrow> 'h \<Rightarrow> 'h driver" where
  "set_dev d h = d\<lparr>plat := (plat d)\<lparr>device := h\<rparr>\<rparr>"

lemma set_dev_fields [simp]:
  "dev (set_dev d h) = h" "mapped base (set_dev d h) = mapped base d" "h2t_chan (set_dev d h) = h2t_chan d"
  "g_std_dbg_ip_info (set_dev d h) = g_std_dbg_ip_info d" "g_dbg_info_set (set_dev d h) = g_dbg_info_set d"
  "set_dev (set_dev d h') h = set_dev d h" "interfaces (plat (set_dev d h)) = interfaces (plat d)"
  "g_h2t_descriptor_chain (set_dev d h) = g_h2t_descriptor_chain d"
  "g_h2t_descriptor_slots_available (set_dev d h) = g_h2t_descriptor_slots_available d"
  by (simp_all add: dev_def set_dev_def mapped_def fpga_uio_get_base_address_def)

text \<open>Every access to a mapped byte is defined; what it does to the device is the device's choice.\<close>

lemma access_mapped:
  assumes "mapped base d"
  shows "mapped_bytes bus (base + ucast a) 4 \<Longrightarrow> rd32 bus a d =
      Some (fst (bus_rd32 bus (base + ucast a) (dev d)), set_dev d (snd (bus_rd32 bus (base + ucast a) (dev d))))"
    "mapped_bytes bus (base + ucast a) 8 \<Longrightarrow> rd64 bus a d =
      Some (fst (bus_rd64 bus (base + ucast a) (dev d)), set_dev d (snd (bus_rd64 bus (base + ucast a) (dev d))))"
    "mapped_bytes bus (base + ucast a) 4 \<Longrightarrow> wr32 bus a v d = Some (set_dev d (bus_wr32 bus (base + ucast a) v (dev d)))"
    "mapped_bytes bus (base + ucast a) 8 \<Longrightarrow> wr64 bus a w d = Some (set_dev d (bus_wr64 bus (base + ucast a) w (dev d)))"
  using assms
  by (simp_all add: rd32_def rd64_def wr32_def wr64_def fpga_read_32_def fpga_read_64_def fpga_write_32_def
      fpga_write_64_def mmio_load_def mmio_store_def mapped_def dev_def set_dev_def split: prod.splits)

section \<open>The driver\<close>

text \<open>The driver between clients: it knows the design, and the handle \<open>mmio\<close> is mapped at \<open>base\<close>.\<close>

definition driver_idle :: "u64 \<Rightarrow> int \<Rightarrow> ST_DBG_IP_DESIGN_INFO \<Rightarrow> 'h driver \<Rightarrow> bool" where
  "driver_idle base mmio info d \<longleftrightarrow> g_dbg_info_set d \<and> g_std_dbg_ip_info d = info \<and>
     length (g_h2t_descriptor_chain d) = 128 \<and> fpga_uio_get_base_address mmio (plat d) = Some base"

lemma driver_idle_set_dev [simp]: "driver_idle base mmio info (set_dev d h) = driver_idle base mmio info d"
  by (simp add: driver_idle_def set_dev_def fpga_uio_get_base_address_def)

text \<open>
  The driver in step with the IP: its bookkeeping is right, the IP has no descriptor that the driver
  does not know of, and its ring is the H2T memory of the design. \<open>r\<close> is 1 while a buffer was taken
  and is not pushed yet, and 0 otherwise.
\<close>

definition in_step ::
  "u64 \<Rightarrow> int \<Rightarrow> nat \<Rightarrow> ('h \<Rightarrow> nat) \<Rightarrow> ST_DBG_IP_DESIGN_INFO \<Rightarrow> nat \<Rightarrow> 'h driver \<Rightarrow> bool" where
  "in_step base mmio n held info r d \<longleftrightarrow> driver_idle base mmio info d \<and> g_mmio_handle d = mmio \<and>
     (\<exists>lost qs. chan_ok n r (h2t_chan d) lost qs \<and> length qs \<le> n) \<and>
     unat (g_h2t_descriptor_slots_available d) + held (dev d) \<le> n \<and>
     raw_buff (g_h2t_rx_cbuff d) = H2T_MEM_BASE_ADDR info \<and> span (g_h2t_rx_cbuff d) = H2T_MEM_SZ info"

lemma in_step_set_dev:
  "in_step base mmio n held info r d \<Longrightarrow> held h \<le> held (dev d) \<Longrightarrow> in_step base mmio n held info r (set_dev d h)"
  by (auto simp: in_step_def) (auto simp: set_dev_def)

lemma in_step_mapped: "in_step base mmio n held info r d \<Longrightarrow> mapped base d"
  by (simp add: in_step_def driver_idle_def mapped_def)

lemma get_h2t_frame:
  assumes "rd32 bus ST_DBG_IP_H2T_AVAILABLE_SLOTS d = Some (v, dv)" and "get_h2t_buffer bus cs sz d = Some (a, d')"
  shows "plat d' = plat dv \<and> g_mmio_handle d' = g_mmio_handle dv \<and> g_std_dbg_ip_info d' = g_std_dbg_ip_info dv \<and>
    g_dbg_info_set d' = g_dbg_info_set dv \<and> length (g_h2t_descriptor_chain d') = length (g_h2t_descriptor_chain dv)"
  using assms by (auto simp: get_h2t_buffer_def Let_def split: bind_splits if_splits)

text \<open>What a request for a buffer leaves of the driver when it is in step with the IP.\<close>

lemma get_h2t_in_step:
  assumes d: "in_step base mmio n held info 0 d" and rd: "rd32 bus ST_DBG_IP_H2T_AVAILABLE_SLOTS d = Some (v, set_dev d h)"
    and get: "get_h2t_buffer bus cs sz d = Some (a, d1)"
    and chan: "chan_ok n r (h2t_chan d1) lost ps" "length ps \<le> n" "unat (slots (h2t_chan d1)) + held h \<le> n"
      "span (ring (h2t_chan d1)) = H2T_MEM_SZ info" "raw_buff (ring (h2t_chan d1)) = H2T_MEM_BASE_ADDR info"
  shows "in_step base mmio n held info r d1"
proof -
  have "driver_idle base mmio info d1 \<and> g_mmio_handle d1 = mmio \<and> dev d1 = h"
    using get_h2t_frame [OF rd get] d
    by (auto simp: in_step_def driver_idle_def set_dev_def dev_def fpga_uio_get_base_address_def)
  with chan show ?thesis unfolding in_step_def by (auto simp: h2t_chan_def)
qed

text \<open>Asking for a buffer: it is refused, or it lies in the ring and the size fits.\<close>

lemma get_h2t_runs:
  assumes ip: "honest_ip bus base n m held" and mp: "mapped_bytes bus base lim" "register_space \<le> lim"
    and d: "in_step base mmio n held info 0 d" and ring: "0 < unat (H2T_MEM_SZ info)" and sz: "unat sz < 2 ^ 63"
  shows "runs (get_h2t_buffer bus cs sz d) (\<lambda>(a, d1).
    a = 0 \<and> in_step base mmio n held info 0 d1 \<or>
    (\<exists>off < unat (H2T_MEM_SZ info). a = H2T_MEM_BASE_ADDR info + of_nat off) \<and> unat sz \<le> unat (H2T_MEM_SZ info) \<and>
      in_step base mmio n held info 1 d1)"
proof -
  from d obtain lost qs where qs: "chan_ok n 0 (h2t_chan d) lost qs" by (auto simp: in_step_def)
  let ?rd = "bus_rd32 bus (base + ucast ST_DBG_IP_H2T_AVAILABLE_SLOTS) (dev d)"
  have rd: "rd32 bus ST_DBG_IP_H2T_AVAILABLE_SLOTS d = Some (fst ?rd, set_dev d (snd ?rd))"
    using in_step_mapped [OF d] by (simp add: access_mapped registers_mapped [OF mp])
  have held: "held (snd ?rd) \<le> held (dev d)" "unat (fst ?rd) + held (snd ?rd) = n"
    using ip d by (auto simp: honest_ip_def in_step_def)
  then have "unat (g_h2t_descriptor_slots_available d) \<le> unat (fst ?rd)" using d by (simp add: in_step_def)
  then obtain k where k: "unat (fst ?rd) = unat (slots (h2t_chan d)) + k"
    by (auto simp: h2t_chan_def dest: le_Suc_ex)
  have n: "unat (slots (h2t_chan d)) + length qs = n" using qs by (simp add: chan_ok_def)
  then have kq: "k \<le> length qs" using held k by simp
  have same: "raw_buff (ring (h2t_chan d)) = H2T_MEM_BASE_ADDR info" "span (ring (h2t_chan d)) = H2T_MEM_SZ info"
    using d by (simp_all add: in_step_def h2t_chan_def)
  from h2t.get_buffer_ok [OF qs rd k kq sz, of cs] obtain a d1 where
    d1: "get_h2t_buffer bus cs sz d = Some (a, d1)"
    and post: "request_done n (unat (fst ?rd)) k sz lost qs (h2t_chan d) a (h2t_chan d1)" by blast
  have after: "in_step base mmio n held info r d1"
    if "chan_ok n r (h2t_chan d1) l ps" "length ps \<le> n" "length ps = length qs - k + r" for r l ps
  proof -
    have "unat (slots (h2t_chan d1)) + length ps = n + r" using that(1) by (simp add: chan_ok_def)
    then have "unat (slots (h2t_chan d1)) = unat (fst ?rd)" using that(3) n k kq by linarith
    then show ?thesis
      using get_h2t_in_step [OF d rd d1, of r l ps] that post same held(2) by (simp add: request_done_def Let_def)
  qed
  let ?l = "lost + unnoted (take k qs)"
  show ?thesis
  proof (cases "grants (unat (fst ?rd)) sz (h2t_chan d) ?l (drop k qs)")
    case False
    with post have "a = 0" "chan_ok n 0 (h2t_chan d1) ?l (drop k qs)" by (simp_all add: request_done_def Let_def)
    with after [of 0 ?l "drop k qs"] n d1 show ?thesis by simp
  next
    case True
    let ?ps = "drop k qs @ [align8 (unat sz)]"
    have c: "chan_ok n 1 (h2t_chan d1) ?l ?ps" "a = H2T_MEM_BASE_ADDR info +
        of_nat (block_start (ring (h2t_chan d1)) (?l # ?ps) (Suc (length (drop k qs))))" "span (ring (h2t_chan d1)) = H2T_MEM_SZ info"
      using True post same by (simp_all add: request_done_def Let_def)
    have "block_start (ring (h2t_chan d1)) qs' i < unat (H2T_MEM_SZ info)" for qs' i
      using ring c(3) by (simp add: block_start_def)
    moreover have "length ?ps \<le> n" "unat sz \<le> unat (H2T_MEM_SZ info)"
      using True n k kq same align8_bounds(1) [of "unat sz"] by (auto simp: grants_def)
    ultimately show ?thesis using after [OF c(1)] c(2) d1 by auto
  qed
qed

text \<open>Pushing it.\<close>

lemma push_h2t_runs:
  assumes ip: "honest_ip bus base n m held" and mp: "mapped_bytes bus base lim" "register_space \<le> lim"
    and d: "in_step base mmio n held info 1 d"
  shows "runs (push_h2t_data bus hdr a d) (\<lambda>(r, d1). r = 0 \<and> in_step base mmio n held info 0 d1)"
proof -
  from d obtain lost qs where qs: "chan_ok n 1 (h2t_chan d) lost qs" "length qs \<le> n" by (auto simp: in_step_def)
  let ?d0 = "d\<lparr>g_h2t_descriptor_slots_available := g_h2t_descriptor_slots_available d - 1\<rparr>"
  have m: "mapped base ?d0" "mapped base (set_dev ?d0 h)" for h using in_step_mapped [OF d] by simp_all
  have c: "h2t_chan ?d0 = (h2t_chan d)\<lparr>slots := slots (h2t_chan d) - 1\<rparr>" by (simp add: h2t_chan_def)
  have "chan_ok n 0 (h2t_chan ?d0) lost qs" unfolding c by (rule chan_push_ok [OF qs])
  moreover have "1 \<le> unat (g_h2t_descriptor_slots_available d)"
    using qs by (auto simp: chan_ok_def h2t_chan_def)
  then have "unat (g_h2t_descriptor_slots_available d - 1) = unat (g_h2t_descriptor_slots_available d) - 1"
    by (subst unat_diff_le) (simp_all add: word_le_nat_alt)
  ultimately have step: "in_step base mmio n held info 0 (set_dev ?d0 h)" if "held h \<le> Suc (held (dev d))" for h
    using d qs(2) that \<open>1 \<le> _\<close> by (auto simp: in_step_def driver_idle_def) (auto simp: set_dev_def fpga_uio_get_base_address_def)
  have w: "held (bus_wr64 bus x v h) \<le> held h + (if x = base + ucast ST_DBG_IP_H2T_CONNECTION_ID then 1 else 0)" for x v h
    using ip by (simp add: honest_ip_def)
  have "dev ?d0 = dev d" by (simp add: dev_def)
  with w [of "base + ucast ST_DBG_IP_H2T_HOW_LONG" _ "dev d"]
  have first: "held (bus_wr64 bus (base + ucast ST_DBG_IP_H2T_HOW_LONG) v (dev ?d0)) \<le> held (dev d)" for v
    by (auto simp: ST_DBG_IP_H2T_HOW_LONG_def ST_DBG_IP_H2T_CONNECTION_ID_def split: if_splits)
  have "held (bus_wr64 bus (base + ucast ST_DBG_IP_H2T_CONNECTION_ID) v' h) \<le> Suc (held (dev d))"
    if "held h \<le> held (dev d)" for v' h
    using w [of "base + ucast ST_DBG_IP_H2T_CONNECTION_ID" v' h] that by simp
  with first show ?thesis
    by (simp add: push_h2t_data_def access_mapped [OF m(1)] access_mapped [OF m(2)] registers_mapped [OF mp] Let_def step)
qed

text \<open>Polling for a T2H descriptor: it is about bytes of the T2H memory.\<close>

lemma get_t2h_runs:
  assumes ip: "honest_ip bus base n (unat (T2H_MEM_SZ info)) held" and mp: "mapped_bytes bus base lim" "register_space \<le> lim"
    and d: "in_step base mmio n held info 0 d"
  shows "runs (get_t2h_data bus h0 p0 d) (\<lambda>(r, hdr, a, d1). r = 0 \<and> in_step base mmio n held info 0 d1 \<and>
    (DATA_LEN_BYTES hdr \<noteq> 0 \<longrightarrow> unat (DATA_LEN_BYTES hdr) \<le> unat (T2H_MEM_SZ info) \<and>
      (\<exists>off < unat (T2H_MEM_SZ info). a = T2H_MEM_BASE_ADDR info + of_nat off)))"
proof -
  let ?rd = "bus_rd64 bus (base + ucast ST_DBG_IP_T2H_HOW_LONG) (dev d)"
  have m: "mapped base d" "mapped base ((set_dev d h)\<lparr>g_t2h_sop := x\<rparr>)" for h x
    using in_step_mapped [OF d] by (simp_all add: set_dev_def mapped_def fpga_uio_get_base_address_def)
  have held: "held (snd (bus_rd64 bus x h)) \<le> held h" for x h using ip by (simp add: honest_ip_def)
  have step: "in_step base mmio n held info 0 (set_dev d h)" if "held h \<le> held (dev d)" for h
    using d that by (rule in_step_set_dev)
  have sop: "in_step base mmio n held info 0 ((set_dev d h)\<lparr>g_t2h_sop := x\<rparr>)" if "held h \<le> held (dev d)" for h x
    using step [OF that] by (simp add: in_step_def driver_idle_def) (simp add: set_dev_def dev_def h2t_chan_def)
  have sop_dev: "held h' \<le> held h \<Longrightarrow> held h \<le> held (dev d) \<Longrightarrow>
      in_step base mmio n held info 0 (set_dev ((set_dev d h)\<lparr>g_t2h_sop := x\<rparr>) h')" for h h' x
    using sop [of h x] by (intro in_step_set_dev) (simp_all add: dev_def set_dev_def)
  have dv: "dev ((set_dev d h)\<lparr>g_t2h_sop := x\<rparr>) = h" for h x by (simp add: dev_def set_dev_def)
  have fields: "t2h_len (fst ?rd) \<noteq> 0 \<Longrightarrow> unat (t2h_len (fst ?rd)) \<le> unat (T2H_MEM_SZ info) \<and>
      unat (t2h_where (fst ?rd)) < unat (T2H_MEM_SZ info)"
    using ip by (simp add: honest_ip_def Let_def)
  have where_: "ucast (drop_bit 32 (fst ?rd)) + b = b + of_nat (unat (t2h_where (fst ?rd)))" for b :: u32
    by (simp add: t2h_where_def)
  show ?thesis
    using fields d held
    by (auto simp: get_t2h_data_def access_mapped [OF m(1)] access_mapped [OF m(2)] registers_mapped [OF mp] dv Let_def step sop_dev where_
        simp flip: t2h_len_def) (auto simp: in_step_def driver_idle_def)
qed

lemma t2h_complete_runs:
  assumes "honest_ip bus base n m held" and mp: "mapped_bytes bus base lim" "register_space \<le> lim"
    and d: "in_step base mmio n held info 0 d"
  shows "runs (t2h_data_complete bus d) (in_step base mmio n held info 0)"
  using assms(1) d by (simp add: t2h_data_complete_def access_mapped [OF in_step_mapped [OF d]] registers_mapped [OF mp] in_step_set_dev honest_ip_def)

lemma get_mgmt_support_runs:
  assumes "honest_ip bus base n m held" and mp: "mapped_bytes bus base lim" "register_space \<le> lim"
    and d: "in_step base mmio n held info 0 d"
  shows "runs (get_mgmt_support bus d) (\<lambda>(r, d1). in_step base mmio n held info 0 d1)"
  using assms(1) d by (simp add: get_mgmt_support_def access_mapped [OF in_step_mapped [OF d]] registers_mapped [OF mp] in_step_set_dev honest_ip_def)

text \<open>
  Starting the driver for a client brings it in step with the IP, whatever it did before; it may refuse
  an IP that it does not know.
\<close>

text \<open>Starting an accepted IP resets it, so that no descriptor is held, and reads how many there are.\<close>

lemma init_driver_accepted:
  assumes ip: "honest_ip bus base n m held" and mp: "mapped_bytes bus base lim" "register_space \<le> lim"
    and d: "driver_idle base mmio info d"
    and v: "check_version_and_type bus (d\<lparr>g_mmio_handle := mmio\<rparr>) = Some (0, d1)" "mapped base d1"
      "driver_idle base mmio info d1" "g_mmio_handle d1 = mmio"
  shows "\<exists>d' w. init_driver bus mmio d = Some (0, d') \<and> unat (w :: u32) = n \<and> n \<le> 128 \<and> held (dev d') = 0 \<and>
    g_h2t_descriptor_slots_available d' = ucast w \<and> driver_idle base mmio info d' \<and> g_mmio_handle d' = mmio"
proof -
  let ?h1 = "bus_wr32 bus (base + ucast ST_DBG_IP_CONFIG_RESET_AND_LOOPBACK) ST_DBG_IP_CONFIG_H2T_T2H_RESET_FIELD (dev d1)"
  have h1: "held ?h1 = 0" by (rule honest_ipD(6) [OF ip])
  let ?rd = "bus_rd32 bus (base + ucast ST_DBG_IP_H2T_AVAILABLE_SLOTS) ?h1"
  let ?rd2 = "bus_rd32 bus (base + ucast ST_DBG_IP_MGMT_AVAILABLE_SLOTS) (snd ?rd)"
  let ?h3 = "snd ?rd2"
  have "held (snd ?rd) \<le> held ?h1" "held ?h3 \<le> held (snd ?rd)" by (rule honest_ipD(2) [OF ip])+
  moreover have "unat (fst ?rd) + held (snd ?rd) = n" using h1 by (intro honest_ipD(7) [OF ip]) simp
  moreover have "n \<le> 128" by (rule honest_ipD(1) [OF ip])
  ultimately have rd: "unat (fst ?rd) = n" "held ?h3 = 0" "n \<le> 128" using h1 by simp_all
  let ?d2 = "(set_dev d1 ?h1)\<lparr>g_h2t_descriptor_write_idx := 0, g_h2t_descriptor_read_idx := 0,
    g_mgmt_descriptor_write_idx := 0, g_mgmt_descriptor_read_idx := 0\<rparr>"
  let ?d3 = "(set_dev ?d2 (snd ?rd))\<lparr>g_h2t_descriptor_slots_available := ucast (fst ?rd)\<rparr>"
  have m2: "mapped base ?d2" "mapped base ?d3" using v(2) by (simp_all add: mapped_def set_dev_def fpga_uio_get_base_address_def)
  have dv: "dev ?d2 = ?h1" "dev ?d3 = snd ?rd" by (simp_all add: dev_def set_dev_def)
  have regs: "assert_h2t_t2h_reset bus d1 = Some (set_dev d1 ?h1)"
    "rd32 bus ST_DBG_IP_H2T_AVAILABLE_SLOTS ?d2 = Some (fst ?rd, set_dev ?d2 (snd ?rd))"
    "rd32 bus ST_DBG_IP_MGMT_AVAILABLE_SLOTS ?d3 = Some (fst ?rd2, set_dev ?d3 ?h3)"
    by (simp_all only: assert_h2t_t2h_reset_def access_mapped [OF v(2)] access_mapped [OF m2(1)]
        access_mapped [OF m2(2)] dv registers_mapped [OF mp])
  have idle: "driver_idle base mmio info (set_dev ?d3 ?h3)" "g_mmio_handle (set_dev ?d3 ?h3) = mmio"
    using v(3,4) by (simp_all add: driver_idle_def) (simp_all add: set_dev_def fpga_uio_get_base_address_def)
  have "\<exists>d'. init_driver bus mmio d = Some (0, d') \<and> dev d' = ?h3 \<and>
      g_h2t_descriptor_slots_available d' = ucast (fst ?rd) \<and> driver_idle base mmio info d' \<and> g_mmio_handle d' = mmio"
    using v(1) d idle by (simp add: init_driver_def regs driver_idle_def Let_def) (simp add: dev_def set_dev_def)
  with rd show ?thesis by metis
qed

lemma init_driver_runs:
  assumes ip: "honest_ip bus base n m held" and mp: "mapped_bytes bus base lim" "register_space \<le> lim"
    and d: "driver_idle base mmio info d"
    and ring: "0 < H2T_MEM_SZ info" "H2T_MEM_SZ info \<le> 2 ^ 63"
  shows "runs (init_driver bus mmio d) (\<lambda>(r, d1). driver_idle base mmio info d1 \<and> (r = 0 \<longrightarrow> in_step base mmio n held info 0 d1))"
proof -
  let ?d0 = "d\<lparr>g_mmio_handle := mmio\<rparr>"
  have m: "mapped base ?d0" "driver_idle base mmio info ?d0" using d by (simp_all add: driver_idle_def mapped_def)
  obtain t d1 where v: "check_version_and_type bus ?d0 = Some (t, d1)" "mapped base d1" "driver_idle base mmio info d1"
      "g_mmio_handle d1 = mmio"
    using m by (auto simp: check_version_and_type_def access_mapped registers_mapped [OF mp] Let_def) (simp add: set_dev_def)
  show ?thesis
  proof (cases "t = 0")
    case False
    with v d show ?thesis by (simp add: init_driver_def driver_idle_def Let_def INIT_ERROR_CODE_INCOMPATIBLE_IP_def)
  next
    case True
    from init_driver_accepted [OF ip mp d v [unfolded True]] obtain d' w where
      d': "init_driver bus mmio d = Some (0, d')" "unat (w :: u32) = n" "n \<le> 128" "held (dev d') = 0"
      "g_h2t_descriptor_slots_available d' = ucast w" "driver_idle base mmio info d'" "g_mmio_handle d' = mmio" by blast
    have info: "g_std_dbg_ip_info d' = info" "length (g_h2t_descriptor_chain d) = 128" using d d'(6) by (simp_all add: driver_idle_def)
    have "unat (ucast w :: u16) = n" using d'(2,3) by (simp add: unsigned_ucast_eq take_bit_nat_eq_self)
    then have "chan_ok n 0 (h2t_chan d') 0 []" "unat (g_h2t_descriptor_slots_available d') = n"
      using init_driver_chan [OF d'(1)] info cbuff_init_rel [OF ring, of "H2T_MEM_BASE_ADDR info"] cbuff_rel_sum [of "[0]" "[]"] d'(2,3,5)
      by (simp_all add: chan_ok_def)
    moreover have "g_h2t_rx_cbuff d' = cbuff_init (H2T_MEM_BASE_ADDR info) (H2T_MEM_SZ info)"
      using init_driver_chan [OF d'(1)] info by (simp add: h2t_chan_def)
    moreover have "\<exists>lost qs. chan_ok n 0 (h2t_chan d') lost qs \<and> length qs \<le> n"
      using calculation(1) by (intro exI [of _ 0] exI [of _ "[]"]) simp
    ultimately show ?thesis using d' by (simp add: in_step_def cbuff_init_def)
  qed
qed

section \<open>Copies\<close>

text \<open>The memories lie above the registers, so that a copy never pushes a descriptor.\<close>

lemma above_registers:
  assumes "0x118 \<le> k" and "k < 2 ^ 31"
  shows "(base + ucast (word_of_int (int k) :: u32) :: u64) \<noteq> base + ucast ST_DBG_IP_H2T_CONNECTION_ID"
proof -
  have "unat (of_nat k :: u64) = k" using assms(2) by (intro unat_of_nat_small) simp
  moreover have "unat (ucast ST_DBG_IP_H2T_CONNECTION_ID :: u64) = 0x110" by (simp add: ST_DBG_IP_H2T_CONNECTION_ID_def)
  ultimately have "(of_nat k :: u64) \<noteq> ucast ST_DBG_IP_H2T_CONNECTION_ID" using assms(1) by auto
  then show ?thesis unfolding word_of_int_small(1) [OF assms(2)] by simp
qed

text \<open>A word within the mapping.\<close>

lemma word_mapped:
  assumes "mapped_bytes bus base lim" and "k + 8 \<le> lim" and "lim < 2 ^ 31"
  shows "mapped_bytes bus (base + ucast (word_of_int (int k) :: u32)) 8"
  using assms word_of_int_small(1) [of k] by (intro mapped_bytes_within [OF assms(1)]) (simp add: unat_of_nat_small)

lemma host2fpga_runs:
  assumes ip: "honest_ip bus base n m held" and mp: "mapped_bytes bus base lim" "lim < 2 ^ 31"
    and "in_step base mmio n held info r d" and "0x118 \<le> k" and "k + 8 * c \<le> lim" and "pos + 8 * c \<le> length buf"
  shows "runs (host2fpga_loop bus c pos (int k) buf d) (in_step base mmio n held info r)"
  using assms(4-)
proof (induction c arbitrary: k pos d)
  case 0
  then show ?case by simp
next
  case (Suc c)
  have "host_word pos buf = Some (le_word (take 8 (drop pos buf)))" using Suc.prems(4) by (simp add: host_word_def)
  moreover have "int32_add (int k) 8 = Some (int (k + 8))" using Suc.prems(3) mp(2) by (simp add: int32_add_def in_int_def)
  moreover have "in_step base mmio n held info r (set_dev d (bus_wr64 bus (base + ucast (word_of_int (int k) :: u32)) w (dev d)))" for w
    using honest_ipD(5) [OF ip, of "base + ucast (word_of_int (int k) :: u32)" w "dev d"] above_registers [of k base] Suc.prems mp(2)
    by (intro in_step_set_dev) auto
  moreover have "mapped_bytes bus (base + ucast (word_of_int (int k) :: u32)) 8"
    using Suc.prems mp by (intro word_mapped) simp_all
  ultimately show ?case
    using Suc.IH [of _ "k + 8" "pos + 8"] Suc.prems by (simp add: access_mapped [OF in_step_mapped [OF Suc.prems(1)]] del: of_nat_add)
qed

lemma fpga2host_runs:
  assumes ip: "honest_ip bus base n m held" and mp: "mapped_bytes bus base lim" "lim < 2 ^ 31"
    and "in_step base mmio n held info r d" and "k + 8 * c \<le> lim" and "pos + 8 * c \<le> length buf"
  shows "runs (fpga2host_loop bus c (int k) pos buf d) (\<lambda>(b, d1). length b = length buf \<and> in_step base mmio n held info r d1)"
  using assms(4-)
proof (induction c arbitrary: k pos buf d)
  case 0
  then show ?case by simp
next
  case (Suc c)
  let ?rd = "bus_rd64 bus (base + ucast (word_of_int (int k) :: u32)) (dev d)"
  let ?b = "take pos buf @ le_bytes 8 (fst ?rd) @ drop (pos + 8) buf"
  have "store_at pos (le_bytes 8 (fst ?rd)) buf = Some ?b" using Suc.prems(3) by (simp add: store_at_fits)
  moreover have "int32_add (int k) 8 = Some (int (k + 8))" using Suc.prems(2) mp(2) by (simp add: int32_add_def in_int_def)
  moreover have "in_step base mmio n held info r (set_dev d (snd ?rd))"
    using Suc.prems(1) honest_ipD(3) [OF ip] by (rule in_step_set_dev)
  moreover have "length ?b = length buf" using Suc.prems(3) by simp
  moreover have "mapped_bytes bus (base + ucast (word_of_int (int k) :: u32)) 8"
    using Suc.prems mp by (intro word_mapped) simp_all
  ultimately show ?case
    using Suc.IH [of "set_dev d (snd ?rd)" "k + 8" "pos + 8" ?b] Suc.prems
    by (simp add: access_mapped [OF in_step_mapped [OF Suc.prems(1)]] del: of_nat_add)
qed

text \<open>A transfer of \<open>len\<close> bytes from an address \<open>a\<close> on moves whole words.\<close>

lemma int32_of_address: "unat (a :: u64) < 2 ^ 31 \<Longrightarrow> int32_of a = int (unat a)"
  using int32_of_small [of "unat a"] by simp

lemma copy_runs:
  assumes ip: "honest_ip bus base n m held" and mp: "mapped_bytes bus base lim" "lim < 2 ^ 31"
    and d: "in_step base mmio n held info r d"
    and a: "unat a + align8 (unat len) \<le> lim" and buf: "align8 (unat len) \<le> length buf"
  shows "runs (memcpy64_fpga2host bus (int32_of a) buf len d)
      (\<lambda>(b, d1). length b = length buf \<and> in_step base mmio n held info r d1)"
    and "0x118 \<le> unat a \<Longrightarrow> runs (memcpy64_host2fpga bus buf (int32_of a) len d) (in_step base mmio n held info r)"
proof -
  have "unat len + 7 < 2 ^ 64" using a mp(2) align8_bounds(1) [of "unat len"] by simp
  note words = transfers_align8 [OF this]
  have i: "int32_of a = int (unat a)" using a mp(2) by (intro int32_of_address) simp
  show "runs (memcpy64_fpga2host bus (int32_of a) buf len d)
      (\<lambda>(b, d1). length b = length buf \<and> in_step base mmio n held info r d1)"
    unfolding memcpy64_fpga2host_def i using a buf words by (intro fpga2host_runs [OF ip mp d]) simp_all
  show "runs (memcpy64_host2fpga bus buf (int32_of a) len d) (in_step base mmio n held info r)" if "0x118 \<le> unat a"
    unfolding memcpy64_host2fpga_def i using a buf words that by (intro host2fpga_runs [OF ip mp d]) simp_all
qed

end
