(* ===== verification/Control.thy ===== *)
theory Control
  imports Server_State
begin

text \<open>
  The control channel of the server: the text commands of \<^verbatim>\<open>process_control_message\<close> and the
  parameter functions of \<^verbatim>\<open>streaming/src/intel_st_debug_if_server.c\<close>.

  A pointer into a text buffer is what is left of the buffer from there on; \<open>wild\<close> is the
  pointer that comes out of arithmetic on a null pointer, and any access through it is undefined.
  A returned pointer to a response is the bytes it points to.
\<close>

section \<open>The code\<close>

definition wild :: "u8 list" where "wild = []"

text \<open>The idiom \<open>strstr(s, word) == s\<close>.\<close>

definition at_start :: "u8 list \<Rightarrow> u8 list \<Rightarrow> bool option" where
  "at_start s word = do { r \<leftarrow> strstr s (butlast word); Some (r = Some 0) }"

definition reset_buffers :: "'h srv \<Rightarrow> 'h srv option" where
  "reset_buffers s = do {
     r \<leftarrow> zero_mem (ctrl_rx_buff (bufs s)) (unat (ctrl_rx_buff_sz (bufs s)));
     t \<leftarrow> zero_mem (ctrl_tx_buff (bufs s)) (unat (ctrl_tx_buff_sz (bufs s)));
     Some (upd_buff (\<lambda>b. b\<lparr>ctrl_rx_buff := r, ctrl_tx_buff := t\<rparr>) s)
   }"

text \<open>The text of the welcome message; the sizes are printed with \<open>%ld\<close>, as signed numbers.\<close>

definition welcome_text :: "int \<Rightarrow> SERVER_BUFFERS \<Rightarrow> int \<Rightarrow> u8 list" where
  "welcome_text mgmt_support serv_buff handle =
     str ''Welcome to INTEL_ST_HOST_EP_SERVER: '' @
     butlast MGMT_SUPPORT_PARAM @ str ''='' @ dec_int mgmt_support @ str '' '' @
     butlast H2T_RX_BUFFER_SIZE_PARAM @ str ''='' @ dec_int (sint (h2t_rx_buff_sz serv_buff)) @ str '' '' @
     butlast MGMT_RX_BUFFER_SIZE_PARAM @ str ''='' @ dec_int (sint (mgmt_rx_buff_sz serv_buff)) @ str '' '' @
     butlast CTRL_RX_BUFFER_SIZE_PARAM @ str ''='' @ dec_int (sint (ctrl_rx_buff_sz serv_buff)) @
     str '' HANDLE='' @ dec_int handle"

definition generate_server_welcome_message ::
  "u8 list \<Rightarrow> size_t \<Rightarrow> int \<Rightarrow> SERVER_BUFFERS \<Rightarrow> int \<Rightarrow> u8 list option" where
  "generate_server_welcome_message buff buff_size mgmt_support serv_buff handle =
     snprintf buff buff_size (welcome_text mgmt_support serv_buff handle)"

text \<open>Printing a number into \<open>ctrl_tx_buff\<close>, which is then the response.\<close>

definition print_number :: "int \<Rightarrow> 'h srv \<Rightarrow> (u8 list \<times> 'h srv) option" where
  "print_number i s = do {
     t \<leftarrow> snprintf (ctrl_tx_buff (bufs s)) (ctrl_tx_buff_sz (bufs s)) (dec_int i);
     Some (t, upd_buff (\<lambda>b. b\<lparr>ctrl_tx_buff := t\<rparr>) s)
   }"

definition get_parameter :: "u8 list \<Rightarrow> 'h srv \<Rightarrow> (u8 list \<times> 'h srv) option" where
  "get_parameter cmd s = do {
     found \<leftarrow> strstr cmd (butlast GET_PARAM_CMD);
     let param_name = (case found of None \<Rightarrow> wild | Some p \<Rightarrow> drop (p + GET_PARAM_CMD_LEN) cmd);
     loopback \<leftarrow> strncmp_eq param_name SERVER_LOOPBACK_MODE_PARAM SERVER_LOOPBACK_MODE_PARAM_LEN;
     if loopback then Some (if loopback_mode (conn s) = 1 then lit ''1'' else lit ''0'', s)
     else do {
       h2t_sz \<leftarrow> strncmp_eq param_name H2T_RX_BUFFER_SIZE_PARAM H2T_RX_BUFFER_SIZE_PARAM_LEN;
       if h2t_sz then print_number (sint (h2t_rx_buff_sz (bufs s))) s
       else do {
         mgmt_sz \<leftarrow> strncmp_eq param_name MGMT_RX_BUFFER_SIZE_PARAM MGMT_RX_BUFFER_SIZE_PARAM_LEN;
         if mgmt_sz then print_number (sint (mgmt_rx_buff_sz (bufs s))) s
         else do {
           ctrl_sz \<leftarrow> strncmp_eq param_name CTRL_RX_BUFFER_SIZE_PARAM CTRL_RX_BUFFER_SIZE_PARAM_LEN;
           if ctrl_sz then print_number (sint (ctrl_rx_buff_sz (bufs s))) s
           else do {
             t2h \<leftarrow> strncmp_eq param_name T2H_NAGLE_PARAM T2H_NAGLE_PARAM_LEN;
             if t2h then print_number (t2h_nagle (conn s)) s
             else do {
               rsp \<leftarrow> strncmp_eq param_name MGMT_RSP_NAGLE_PARAM MGMT_RSP_NAGLE_PARAM_LEN;
               if rsp then print_number (mgmt_rsp_nagle (conn s)) s
               else Some (GET_PARAM_CMD_FAIL_RSP, s)
             }
           }
         }
       }
     }
   }"

text \<open>The value of a parameter: whether there is one byte before the terminator, and is it \<open>1\<close>.\<close>

definition flag_value :: "u8 list \<Rightarrow> int option option" where
  "flag_value param_value = do {
     n \<leftarrow> strnlen param_value 1;
     if n = 1 then Some (Some (if hd param_value = 49 then 1 else 0)) else Some None
   }"

definition set_parameter :: "u8 list \<Rightarrow> CLIENT_CONN \<Rightarrow> 'h srv \<Rightarrow> (u8 list \<times> 'h srv) option" where
  "set_parameter cmd client s = do {
     found \<leftarrow> strstr cmd (butlast SET_PARAM_CMD);
     case found of None \<Rightarrow> Some (SET_PARAM_CMD_FAIL_RSP, s) | Some p \<Rightarrow> do {
       let param_name = drop (p + SET_PARAM_CMD_LEN) cmd;
       loopback \<leftarrow> at_start param_name SERVER_LOOPBACK_MODE_PARAM;
       if loopback then do {
         v \<leftarrow> flag_value (drop SERVER_LOOPBACK_MODE_PARAM_LEN param_name);
         case v of None \<Rightarrow> Some (SET_PARAM_CMD_FAIL_RSP, s)
         | Some x \<Rightarrow> Some (SET_PARAM_CMD_RSP, s\<lparr>conn := (conn s)\<lparr>loopback_mode := x\<rparr>\<rparr>)
       }
       else do {
         t2h \<leftarrow> at_start param_name T2H_NAGLE_PARAM;
         if t2h then do {
           v \<leftarrow> flag_value (drop T2H_NAGLE_PARAM_LEN param_name);
           case v of None \<Rightarrow> Some (SET_PARAM_CMD_FAIL_RSP, s)
           | Some x \<Rightarrow>
               (let (r, s1) = sys (set_tcp_no_delay (t2h_data_fd client) (if x \<noteq> 0 then 0 else 1)) s
                in if r = 0 then Some (SET_PARAM_CMD_RSP, s1\<lparr>conn := (conn s1)\<lparr>t2h_nagle := x\<rparr>\<rparr>)
                   else Some (SET_PARAM_CMD_FAIL_RSP, s1))
         }
         else do {
           rsp \<leftarrow> at_start param_name MGMT_RSP_NAGLE_PARAM;
           if rsp then do {
             v \<leftarrow> flag_value (drop MGMT_RSP_NAGLE_PARAM_LEN param_name);
             case v of None \<Rightarrow> Some (SET_PARAM_CMD_FAIL_RSP, s)
             | Some x \<Rightarrow>
                 (let (r, s1) = sys (set_tcp_no_delay (mgmt_rsp_fd client) (if x \<noteq> 0 then 0 else 1)) s
                  in if r = 0 then Some (SET_PARAM_CMD_RSP, s1\<lparr>conn := (conn s1)\<lparr>mgmt_rsp_nagle := x\<rparr>\<rparr>)
                     else Some (SET_PARAM_CMD_FAIL_RSP, s1))
           }
           else Some (SET_PARAM_CMD_FAIL_RSP, s)
         }
       }
     }
   }"

definition get_driver_parameter :: "u8 list \<Rightarrow> 'h srv \<Rightarrow> (u8 list \<times> 'h srv) option" where
  "get_driver_parameter cmd s =
     (case cb_get_param (hw_callbacks (conn s)) of
        None \<Rightarrow> Some (GET_PARAM_CMD_FAIL_RSP, s)
      | Some get_param \<Rightarrow> do {
          found \<leftarrow> strstr cmd (butlast GET_DRIVER_PARAM_CMD);
          let param_name = (case found of None \<Rightarrow> wild | Some p \<Rightarrow> drop (p + GET_DRIVER_PARAM_CMD_LEN) cmd);
          (result, s1) \<leftarrow> on_drv (get_param param_name) s;
          Some (case result of Some r \<Rightarrow> r | None \<Rightarrow> GET_PARAM_CMD_FAIL_RSP, s1)
        })"

definition MAX_DRIVER_PARAM_NAME_LEN :: nat where "MAX_DRIVER_PARAM_NAME_LEN = 32"

text \<open>
  Without a space behind the name, \<open>param_value\<close> is the pointer 1 and the length of the name a
  difference from it, more than the 32 bytes that are copied at most.
\<close>

definition set_driver_parameter :: "u8 list \<Rightarrow> 'h srv \<Rightarrow> (u8 list \<times> 'h srv) option" where
  "set_driver_parameter cmd s =
     (case cb_set_param (hw_callbacks (conn s)) of
        None \<Rightarrow> Some (SET_PARAM_CMD_FAIL_RSP, s)
      | Some set_param \<Rightarrow> do {
          found \<leftarrow> strstr cmd (butlast SET_DRIVER_PARAM_CMD);
          case found of None \<Rightarrow> Some (SET_PARAM_CMD_FAIL_RSP, s) | Some p \<Rightarrow> do {
            let param_name = drop (p + SET_DRIVER_PARAM_CMD_LEN) cmd;
            space \<leftarrow> strstr param_name (str '' '');
            let (param_value, n) =
              (case space of None \<Rightarrow> (wild, MAX_DRIVER_PARAM_NAME_LEN)
               | Some q \<Rightarrow> (drop (q + 1) param_name, min q MAX_DRIVER_PARAM_NAME_LEN));
            param_name_buff \<leftarrow>
              (if n \<le> length param_name
               then store_prefix (take n param_name) (replicate (MAX_DRIVER_PARAM_NAME_LEN + 1) 0)
               else None);
            (r, s1) \<leftarrow> on_drv (set_param param_name_buff param_value) s;
            Some (if r \<ge> 0 then SET_PARAM_CMD_RSP else SET_PARAM_CMD_FAIL_RSP, s1)
          }
        })"

text \<open>Sending a response of which at most \<open>limit\<close> bytes are looked at.\<close>

definition respond :: "int \<Rightarrow> nat \<Rightarrow> u8 list \<times> 'h srv \<Rightarrow> (RETURN_CODE \<times> 'h srv) option" where
  "respond fd limit rs = do {
     n \<leftarrow> strnlen (fst rs) limit;
     send_all fd (fst rs) (of_nat (n + 1)) (snd rs)
   }"

text \<open>The result, whether the client is to be disconnected, and the state.\<close>

definition process_control_message ::
  "CLIENT_CONN \<Rightarrow> 'h srv \<Rightarrow> (RETURN_CODE \<times> bool \<times> 'h srv) option" where
  "process_control_message client s0 = do {
     (rc, n, rxb, w) \<leftarrow> socket_recv_until_null_reached (ctrl_fd client) (ctrl_rx_buff (bufs s0))
                         (ctrl_rx_buff_sz (bufs s0)) (world s0);
     let s = upd_buff (\<lambda>b. b\<lparr>ctrl_rx_buff := rxb\<rparr>) (set_world w s0);
     if rc \<noteq> OK then Some (FAILURE, False, s)
     else do {
       get \<leftarrow> at_start rxb GET_PARAM_CMD;
       if get then do {
         rs \<leftarrow> get_parameter rxb s;
         (r, s1) \<leftarrow> respond (ctrl_fd client) MAX_SERVER_PARAM_VALUE_LEN rs;
         Some (r, False, s1)
       } else do {
         ping \<leftarrow> strncmp_eq rxb PING_CMD PING_CMD_LEN;
         if ping then do {
           (r, s1) \<leftarrow> send_all (ctrl_fd client) PING_CMD_RSP (of_nat PING_CMD_RSP_LEN) s;
           Some (r, False, s1)
         } else do {
           disc \<leftarrow> strncmp_eq rxb DISCONNECT_CMD DISCONNECT_CMD_LEN;
           if disc then do {
             (r, s1) \<leftarrow> send_all (ctrl_fd client) DISCONNECT_CMD_RSP (of_nat DISCONNECT_CMD_RSP_LEN) s;
             _ \<leftarrow> wait_for_read_event (ctrl_fd client);
             Some (OK, True, s1)
           } else do {
             setp \<leftarrow> at_start rxb SET_PARAM_CMD;
             if setp then do {
               rs \<leftarrow> set_parameter rxb client s;
               (r, s1) \<leftarrow> respond (ctrl_fd client) 128 rs;
               Some (r, False, s1)
             } else do {
               setd \<leftarrow> at_start rxb SET_DRIVER_PARAM_CMD;
               if setd then do {
                 rs \<leftarrow> set_driver_parameter rxb s;
                 (r, s1) \<leftarrow> respond (ctrl_fd client) 256 rs;
                 Some (r, False, s1)
               } else do {
                 getd \<leftarrow> at_start rxb GET_DRIVER_PARAM_CMD;
                 if getd then do {
                   rs \<leftarrow> get_driver_parameter rxb s;
                   (r, s1) \<leftarrow> respond (ctrl_fd client) MAX_SERVER_PARAM_VALUE_LEN rs;
                   Some (r, False, s1)
                 } else do {
                   (r, s1) \<leftarrow> send_all (ctrl_fd client) UNRECOGNIZED_CMD_RSP (of_nat UNRECOGNIZED_CMD_RSP_LEN) s;
                   Some (r, False, s1)
                 }
               }
             }
           }
         }
       }
     }
   }"

end
