(* ===== verification/Control_Laws.thy ===== *)
theory Control_Laws
  imports Control Server_Laws
begin

text \<open>
  What the control channel promises: every complete command gets one answer on the control socket,
  what a parameter is set to can be read back, and what happens to commands without arguments.
\<close>

section \<open>Recognising a command\<close>

lemma at_start_text:
  "0 \<notin> set msg \<Longrightarrow> at_start (msg @ 0 # rest) (w @ [0]) = Some (take (length w) msg = w)"
  by (simp add: at_start_def strstr_def cstr_append_nul find_sub_0)

lemma strncmp_eq_text:
  "0 \<notin> set msg \<Longrightarrow> 0 \<notin> set w \<Longrightarrow> strncmp_eq (msg @ 0 # rest) (w @ [0]) (Suc (length w)) = Some (msg = w)"
  using strncmp_eq_exact [of w msg "Suc (length w)" rest "[]"] by simp

lemma no_nul [simp]: "0 \<notin> set (str ''GET_PARAM'')" "0 \<notin> set (str ''SET_PARAM'')"
  "0 \<notin> set (str ''SERVER_LOOPBACK'')" "0 \<notin> set (str ''PING'')" "0 \<notin> set (str ''DISCONNECT'')"
  by (simp_all add: str_def)

lemma cmds: "GET_PARAM_CMD = str ''GET_PARAM'' @ [0]" "SET_PARAM_CMD = str ''SET_PARAM'' @ [0]"
  "PING_CMD = str ''PING'' @ [0]" "DISCONNECT_CMD = str ''DISCONNECT'' @ [0]"
  "SET_DRIVER_PARAM_CMD = str ''SET_DRIVER_PARAM'' @ [0]" "GET_DRIVER_PARAM_CMD = str ''GET_DRIVER_PARAM'' @ [0]"
  "PING_CMD_LEN = Suc (length (str ''PING''))" "DISCONNECT_CMD_LEN = Suc (length (str ''DISCONNECT''))"
  by (simp_all add: GET_PARAM_CMD_def SET_PARAM_CMD_def PING_CMD_def DISCONNECT_CMD_def SET_DRIVER_PARAM_CMD_def
      GET_DRIVER_PARAM_CMD_def PING_CMD_LEN_def DISCONNECT_CMD_LEN_def lit_def)

lemma cstr_append: "0 \<notin> set w \<Longrightarrow> cstr (w @ tail) = map_option ((@) w) (cstr tail)"
  by (induction w) (cases "cstr tail"; simp)+

lemma strstr_here:
  assumes "0 \<notin> set w" and "0 \<in> set tail"
  shows "strstr (w @ tail) w = Some (Some 0)" "at_start (w @ tail) (w @ [0]) = Some True"
proof -
  from assms(2) obtain t where "cstr tail = Some t" using cstr_None_iff [of tail] by auto
  then show "strstr (w @ tail) w = Some (Some 0)"
    using assms(1) unfolding strstr_0 by (simp add: cstr_append)
  then show "at_start (w @ tail) (w @ [0]) = Some True" by (simp add: at_start_def)
qed

text \<open>The commands without parameters.\<close>

definition plain_command :: "u8 list \<Rightarrow> bool" where
  "plain_command msg \<longleftrightarrow> 0 \<notin> set msg \<and> \<not> list_ex (\<lambda>w. take (length w) msg = w)
     [str ''GET_PARAM'', str ''SET_PARAM'', str ''SET_DRIVER_PARAM'', str ''GET_DRIVER_PARAM'']"

definition plain_answer :: "u8 list \<Rightarrow> u8 list" where
  "plain_answer msg = (if msg = str ''PING'' then lit ''PONG'' else if msg = str ''DISCONNECT'' then lit ''DISCONNECT_ACK''
     else lit ''UNRECOGNIZED_COMMAND'')"

section \<open>Properties\<close>

text \<open>
  C26. A complete control message without parameters, however it arrives in pieces, gets exactly one
  answer, on the control socket: \<open>PONG\<close> for \<open>PING\<close>, \<open>DISCONNECT_ACK\<close> for \<open>DISCONNECT\<close> (only then
  the client is to be disconnected), and \<open>UNRECOGNIZED_COMMAND\<close> for any other text; the driver is
  not touched. Before it disconnects, the code waits on the socket, whose number has to be below
  \<open>FD_SETSIZE\<close> for that.
\<close>

theorem control_answers_plain_commands:
  assumes "stream (rx (world s) (ctrl_fd client)) = msg @ 0 # rest" and "plain_command msg"
    and "length msg < unat (ctrl_rx_buff_sz (bufs s))"
    and "unat (ctrl_rx_buff_sz (bufs s)) \<le> length (ctrl_rx_buff (bufs s))"
    and "takes_all (ctrl_fd client) (world s)" and "msg = str ''DISCONNECT'' \<Longrightarrow> fd_settable (ctrl_fd client)"
  shows "\<exists>s'. process_control_message client s = Some (OK, msg = str ''DISCONNECT'', s') \<and>
    sent (world s') = (sent (world s))(ctrl_fd client := sent (world s) (ctrl_fd client) @ plain_answer msg) \<and>
    drv (mach s') = drv (mach s)"
proof -
  let ?fd = "ctrl_fd client"
  have no0: "0 \<notin> set msg" using assms(2) by (simp add: plain_command_def)
  obtain n junk w where recv: "socket_recv_until_null_reached ?fd (ctrl_rx_buff (bufs s)) (ctrl_rx_buff_sz (bufs s))
      (world s) = Some (OK, n, msg @ 0 # junk, w)" and w: "only_rx ?fd (world s) w"
    by (rule recv_text [OF assms(1) no0 assms(3,4)])
  let ?s = "upd_buff (\<lambda>b. b\<lparr>ctrl_rx_buff := msg @ 0 # junk\<rparr>) (set_world w s)"
  have takes: "takes_all ?fd (world ?s)"
    using assms(5) w by (auto simp: takes_all_def only_rx_def)
  let ?len = "if msg = str ''PING'' then PING_CMD_RSP_LEN else if msg = str ''DISCONNECT''
    then DISCONNECT_CMD_RSP_LEN else UNRECOGNIZED_CMD_RSP_LEN"
  have len: "unat (of_nat ?len :: size_t) = length (plain_answer msg)"
    by (simp add: plain_answer_def PING_CMD_RSP_LEN_def DISCONNECT_CMD_RSP_LEN_def UNRECOGNIZED_CMD_RSP_LEN_def)
  from send_all_takes [OF takes, of "of_nat ?len" "plain_answer msg"] len obtain w' where
    w': "send_all ?fd (plain_answer msg) (of_nat ?len) ?s = Some (OK, set_world w' ?s)"
      "sent w' ?fd = sent w ?fd @ plain_answer msg" "only_tx ?fd w w'"
    by auto
  have diff: "str ''PING'' \<noteq> str ''DISCONNECT''" by (simp add: str_def)
  have exact: "strncmp_eq (msg @ 0 # junk) PING_CMD PING_CMD_LEN = Some (msg = str ''PING'')"
    "strncmp_eq (msg @ 0 # junk) DISCONNECT_CMD DISCONNECT_CMD_LEN = Some (msg = str ''DISCONNECT'')"
    unfolding cmds by (rule strncmp_eq_text [OF no0]; simp)+
  have not_param: "at_start (msg @ 0 # junk) GET_PARAM_CMD = Some False" "at_start (msg @ 0 # junk) SET_PARAM_CMD = Some False"
    "at_start (msg @ 0 # junk) SET_DRIVER_PARAM_CMD = Some False" "at_start (msg @ 0 # junk) GET_DRIVER_PARAM_CMD = Some False"
    using assms(2) unfolding cmds at_start_text [OF no0] by (simp_all add: plain_command_def)
  have "process_control_message client s = Some (OK, msg = str ''DISCONNECT'', set_world w' ?s)"
    using recv w'(1) diff assms(6)
    by (simp add: process_control_message_def wait_for_read_event_def Let_def exact not_param
        plain_answer_def PING_CMD_RSP_def DISCONNECT_CMD_RSP_def UNRECOGNIZED_CMD_RSP_def split: if_splits)
  moreover have "sent w' = (sent (world s))(?fd := sent (world s) ?fd @ plain_answer msg)"
    using w'(2,3) w by (auto simp: only_tx_def only_rx_def)
  ultimately show ?thesis by (intro exI [of _ "set_world w' ?s"]) simp
qed

lemma control_answers_plain_commands_witness:
  "\<exists>s'. process_control_message (CLIENT_CONN_default\<lparr>ctrl_fd := 20\<rparr>)
      \<lparr>mach = \<lparr>drv = driver_start \<lparr>interfaces = empty_vec, device = ()\<rparr>,
         osys = quiet_os\<lparr>rx := (\<lambda>_. [Data (str ''DISC''), Data (lit ''ONNECT'')])\<rparr>,
         g_socket_recv_buff = None, g_socket_send_buff = None\<rparr>,
       conn = SERVER_CONN_default\<lparr>s_buff := SERVER_BUFFERS_default\<lparr>ctrl_rx_buff := replicate 512 0,
         ctrl_rx_buff_sz := 512\<rparr>\<rparr>\<rparr> = Some (OK, True, s') \<and>
    sent (world s') 20 = lit ''DISCONNECT_ACK''"
  using control_answers_plain_commands [of
      "\<lparr>mach = \<lparr>drv = driver_start \<lparr>interfaces = empty_vec, device = ()\<rparr>,
         osys = quiet_os\<lparr>rx := (\<lambda>_. [Data (str ''DISC''), Data (lit ''ONNECT'')])\<rparr>,
         g_socket_recv_buff = None, g_socket_send_buff = None\<rparr>,
       conn = SERVER_CONN_default\<lparr>s_buff := SERVER_BUFFERS_default\<lparr>ctrl_rx_buff := replicate 512 0,
         ctrl_rx_buff_sz := 512\<rparr>\<rparr>\<rparr>" "CLIENT_CONN_default\<lparr>ctrl_fd := 20\<rparr>" "str ''DISCONNECT''" "[]"]
  by (auto simp: world_def str_def lit_def plain_command_def plain_answer_def takes_all_def quiet_os_def
      CLIENT_CONN_default_def fd_settable_def FD_SETSIZE_def)

text \<open>
  C27. The loopback parameter round trip: setting it with any value is acknowledged, and reading it
  then gives 1 if the first byte of the value was \<open>1\<close> and 0 otherwise. The separators are not looked
  at: with \<open>sep\<close> the terminator, a bare \<open>SET_PARAM\<close> takes its parameter from what an earlier message
  left behind in the buffer.
\<close>

theorem loopback_param_reads_back:
  assumes "v \<noteq> 0"
  shows "\<exists>s'. set_parameter (str ''SET_PARAM'' @ sep # str ''SERVER_LOOPBACK'' @ sep' # v # 0 # rest) client s =
      Some (SET_PARAM_CMD_RSP, s') \<and>
    get_parameter (str ''GET_PARAM SERVER_LOOPBACK'' @ 0 # rest') s' = Some (lit (if v = 49 then ''1'' else ''0''), s')"
proof -
  let ?val = "sep' # v # 0 # rest"
  have param: "SERVER_LOOPBACK_MODE_PARAM = str ''SERVER_LOOPBACK'' @ [0]"
    "SERVER_LOOPBACK_MODE_PARAM_LEN = Suc (length (str ''SERVER_LOOPBACK''))"
    "SET_PARAM_CMD_LEN = Suc (length (str ''SET_PARAM''))" "GET_PARAM_CMD_LEN = Suc (length (str ''GET_PARAM''))"
    by (simp_all add: SERVER_LOOPBACK_MODE_PARAM_def SERVER_LOOPBACK_MODE_PARAM_LEN_def SET_PARAM_CMD_LEN_def
        GET_PARAM_CMD_LEN_def lit_def)
  have found: "strstr (str ''SET_PARAM'' @ sep # str ''SERVER_LOOPBACK'' @ ?val) (str ''SET_PARAM'') = Some (Some 0)"
    "at_start (str ''SERVER_LOOPBACK'' @ ?val) (str ''SERVER_LOOPBACK'' @ [0]) = Some True"
    by (simp_all add: strstr_here)
  have flag: "flag_value (v # 0 # rest) = Some (Some (if v = 49 then 1 else 0))"
    using assms by (simp add: flag_value_def)
  let ?s' = "s\<lparr>conn := (conn s)\<lparr>loopback_mode := if v = 49 then 1 else 0\<rparr>\<rparr>"
  have set: "set_parameter (str ''SET_PARAM'' @ sep # str ''SERVER_LOOPBACK'' @ ?val) client s = Some (SET_PARAM_CMD_RSP, ?s')"
    using found flag by (simp add: set_parameter_def cmds param Let_def)
  have loopback: "strncmp_eq (str ''SERVER_LOOPBACK'' @ 0 # rest') SERVER_LOOPBACK_MODE_PARAM
      SERVER_LOOPBACK_MODE_PARAM_LEN = Some True"
    unfolding param(1) by (rule strncmp_eq_lit) simp
  have get_cmd: "str ''GET_PARAM SERVER_LOOPBACK'' = str ''GET_PARAM'' @ 32 # str ''SERVER_LOOPBACK''"
    by (simp add: str_def)
  have "strstr (str ''GET_PARAM SERVER_LOOPBACK'' @ 0 # rest') (str ''GET_PARAM'') = Some (Some 0)"
    unfolding get_cmd append_assoc by (rule strstr_here) simp_all
  then have "get_parameter (str ''GET_PARAM SERVER_LOOPBACK'' @ 0 # rest') ?s' =
      Some (lit (if v = 49 then ''1'' else ''0''), ?s')"
    using loopback by (simp add: get_parameter_def cmds param(4) get_cmd Let_def)
  with set show ?thesis by blast
qed

lemma loopback_param_reads_back_witness:
  "\<exists>s'. set_parameter (lit ''SET_PARAM SERVER_LOOPBACK 1'') CLIENT_CONN_default
     \<lparr>mach = undefined, conn = SERVER_CONN_default\<rparr> = Some (SET_PARAM_CMD_RSP, s') \<and>
    get_parameter (lit ''GET_PARAM SERVER_LOOPBACK'') s' = Some (lit ''1'', s')"
  using loopback_param_reads_back [of 49 32 32 "[]" CLIENT_CONN_default "\<lparr>mach = undefined, conn = SERVER_CONN_default\<rparr>" "[]"]
  by (simp add: lit_def str_def)

text \<open>
  C28. Setting the hardware loopback without a value (the message ends behind the name) is undefined
  behaviour, whatever else the receive buffer holds: the code adds 1 to the null pointer that
  \<open>strstr\<close> returns and the driver reads the value through it.
\<close>

theorem hw_loopback_without_value_undefined:
  assumes "cb_set_param (hw_callbacks (conn s)) = Some (set_driver_param bus)"
  shows "set_driver_parameter (str ''SET_DRIVER_PARAM'' @ sep # str ''#HW_LOOPBACK'' @ 0 # rest) s = None"
proof -
  let ?name = "str ''#HW_LOOPBACK'' @ 0 # rest"
  have len: "SET_DRIVER_PARAM_CMD_LEN = Suc (length (str ''SET_DRIVER_PARAM''))"
    by (simp add: SET_DRIVER_PARAM_CMD_LEN_def)
  have found: "strstr (str ''SET_DRIVER_PARAM'' @ sep # ?name) (str ''SET_DRIVER_PARAM'') = Some (Some 0)"
    by (rule strstr_here) (simp_all add: str_def)
  have no_space: "strstr ?name (str '' '') = Some None"
    by (simp add: strstr_def str_def)
  have "set_driver_param bus (take 32 ?name @ [0]) wild d = None" for d :: "'a driver"
  proof -
    have "take 32 ?name @ [0] = str ''#HW_LOOPBACK'' @ 0 # (take 19 rest @ [0])"
      by (simp add: str_def)
    moreover have "strncmp_eq (str ''#HW_LOOPBACK'' @ 0 # (take 19 rest @ [0])) HW_LOOPBACK_PARAM HW_LOOPBACK_PARAM_LEN = Some True"
      unfolding HW_LOOPBACK_PARAM_def lit_def by (rule strncmp_eq_lit) (simp add: str_def)
    ultimately show ?thesis
      by (simp add: set_driver_param_def wild_def)
  qed
  moreover have "store_prefix (take 32 ?name) (replicate 33 0) = Some (take 32 ?name @ [0])" if "32 \<le> length ?name"
    using that by (simp add: store_prefix_def store_at_def)
  ultimately show ?thesis
    using assms found no_space
    by (simp add: set_driver_parameter_def cmds len MAX_DRIVER_PARAM_NAME_LEN_def Let_def on_drv_def)
qed

lemma hw_loopback_without_value_undefined_witness:
  "set_driver_parameter (str ''SET_DRIVER_PARAM '' @ str ''#HW_LOOPBACK'' @ 0 # replicate 64 0)
     \<lparr>mach = undefined, conn = SERVER_CONN_default\<lparr>hw_callbacks := get_hw_callbacks ram_bus True\<rparr>\<rparr> = None"
  using hw_loopback_without_value_undefined
    [of "\<lparr>mach = undefined, conn = SERVER_CONN_default\<lparr>hw_callbacks := get_hw_callbacks ram_bus True\<rparr>\<rparr>"
      ram_bus 32 "replicate 64 0"]
  by (simp add: get_hw_callbacks_def str_def)

end
