(* ===== verification/Control_Safety.thy ===== *)
theory Control_Safety
  imports Control_Laws
begin

text \<open>
  Which control messages are safe: whatever a client sends, as long as it leaves the last byte of the
  receive buffer alone, is handled without undefined behaviour, apart from the parameters of the
  driver; a message that fills the buffer is not.
\<close>

section \<open>Strings that end\<close>

lemma strncmp_eq_total: "0 \<in> set as \<Longrightarrow> 0 \<in> set bs \<Longrightarrow> \<exists>b. strncmp_eq as bs n = Some b"
  by (induction as bs n rule: strncmp_eq.induct) auto

lemma at_start_total: "0 \<in> set s \<Longrightarrow> \<exists>b. at_start s word = Some b"
  using cstr_None_iff [of s] by (cases "cstr s") (auto simp: at_start_def strstr_def)

lemma strnlen_total: "0 \<in> set bs \<Longrightarrow> \<exists>k. strnlen bs n = Some k \<and> k < length bs \<and> k \<le> n"
  by (induction bs n rule: strnlen.induct) auto

lemma at_start_True:
  assumes "at_start s word = Some True"
  shows "strstr s (butlast word) = Some (Some 0)" "take (length (butlast word)) s = butlast word"
proof -
  show found: "strstr s (butlast word) = Some (Some 0)"
    using assms by (auto simp: at_start_def bind_eq_Some_conv)
  then obtain t rest where t: "s = t @ 0 # rest" "take (length (butlast word)) t = butlast word"
    by (auto simp: strstr_0 cstr_Some_iff)
  then have "length (butlast word) \<le> length t" by (metis length_take min.cobounded1)
  with t show "take (length (butlast word)) s = butlast word" by simp
qed

lemma split_at_zero: "x @ 0 # y = x' @ (0 :: u8) # y' \<Longrightarrow> 0 \<notin> set x \<Longrightarrow> 0 \<notin> set x' \<Longrightarrow> x = x' \<and> y = y'"
  by (metis cstr_append_nul list.inject option.inject same_append_eq)

lemma at_start_stream:
  assumes "at_start (take k xs @ ys) word = Some True" and "0 \<in> set (take k xs)"
  shows "take (length (butlast word)) xs = butlast word"
proof -
  from assms(1) obtain t rest where t: "take k xs @ ys = t @ 0 # rest" "0 \<notin> set t"
    "take (length (butlast word)) t = butlast word"
    by (auto simp: at_start_def bind_eq_Some_conv strstr_0 cstr_Some_iff)
  from assms(2) obtain u v where u: "take k xs = u @ 0 # v" "0 \<notin> set u" by (meson split_list_first)
  with t have "u = t" using split_at_zero [of u "v @ ys" t rest] by simp
  with u have "xs = t @ 0 # v @ drop k xs" by (metis append_Cons append_assoc append_take_drop_id)
  moreover have "length (butlast word) \<le> length t" using t(3) by (metis length_take min.cobounded1)
  ultimately show ?thesis using t(3) by (metis append_eq_append_conv_if append_take_drop_id take_append diff_is_0_eq' take_0 append_Nil2)
qed

section \<open>Answering whatever the network does\<close>

text \<open>What answering a command leaves alone: everything but the text buffers and the modes.\<close>

definition undisturbed :: "'h srv \<Rightarrow> 'h srv \<Rightarrow> bool" where
  "undisturbed s s' \<longleftrightarrow> drv (mach s') = drv (mach s) \<and> g_socket_recv_buff (mach s') = g_socket_recv_buff (mach s) \<and>
     g_socket_send_buff (mach s') = g_socket_send_buff (mach s) \<and>
     (bufs s')\<lparr>ctrl_rx_buff := [], ctrl_tx_buff := []\<rparr> = (bufs s)\<lparr>ctrl_rx_buff := [], ctrl_tx_buff := []\<rparr> \<and>
     hw_callbacks (conn s') = hw_callbacks (conn s) \<and> server_fd (conn s') = server_fd (conn s) \<and>
     rx (world s') = rx (world s) \<and> accept_results (world s') = accept_results (world s)"

lemma undisturbed_refl [simp]: "undisturbed s s"
  by (simp add: undisturbed_def)

lemma undisturbed_trans: "undisturbed s s1 \<Longrightarrow> undisturbed s1 s2 \<Longrightarrow> undisturbed s s2"
  by (simp add: undisturbed_def)

lemma undisturbed_modes [simp]:
  "undisturbed s (s'\<lparr>conn := (conn s')\<lparr>loopback_mode := x\<rparr>\<rparr>) = undisturbed s s'"
  "undisturbed s (s'\<lparr>conn := (conn s')\<lparr>t2h_nagle := x\<rparr>\<rparr>) = undisturbed s s'"
  "undisturbed s (s'\<lparr>conn := (conn s')\<lparr>mgmt_rsp_nagle := x\<rparr>\<rparr>) = undisturbed s s'"
  by (simp_all add: undisturbed_def)

text \<open>The other parts of the world may change in any way.\<close>

definition same_input :: "os \<Rightarrow> os \<Rightarrow> bool" where
  "same_input w w' \<longleftrightarrow> rx w' = rx w \<and> accept_results w' = accept_results w"

lemma undisturbed_world [simp]:
  "same_input (world s') w \<Longrightarrow> undisturbed s (set_world w s') = undisturbed s s'"
  "same_input (world s') w \<Longrightarrow> undisturbed s ((set_world w s')\<lparr>conn := (conn s')\<lparr>t2h_nagle := x\<rparr>\<rparr>) = undisturbed s s'"
  "same_input (world s') w \<Longrightarrow> undisturbed s ((set_world w s')\<lparr>conn := (conn s')\<lparr>mgmt_rsp_nagle := x\<rparr>\<rparr>) = undisturbed s s'"
  by (simp_all add: undisturbed_def same_input_def) (simp_all add: set_world_def)

lemma undisturbed_tx_buff: "undisturbed s (upd_buff (\<lambda>b. b\<lparr>ctrl_tx_buff := t\<rparr>) s)"
  by (simp add: undisturbed_def)

lemma only_tx_same_input: "only_tx fd w w' \<Longrightarrow> same_input w w'"
  by (auto simp: only_tx_def same_input_def)

lemma send_all_total:
  assumes "unat len \<le> length bytes"
  shows "\<exists>rc w. send_all fd bytes len s = Some (rc, set_world w s) \<and> same_input (world s) w"
proof -
  from send_loop_result [OF order_refl assms, of fd "world s"] obtain rc r w where
    "send_loop fd bytes (unat len) (unat len) (world s) = Some (rc, r, w)" "only_tx fd (world s) w" by blast
  then show ?thesis
    by (intro exI [of _ rc] exI [of _ w]) (simp add: send_all_def socket_send_all_def only_tx_same_input)
qed

lemma respond_total:
  assumes "0 \<in> set (fst rs)" and "limit < 1000"
  shows "\<exists>rc w. respond fd limit rs = Some (rc, set_world w (snd rs)) \<and> same_input (world (snd rs)) w"
proof -
  obtain k where k: "strnlen (fst rs) limit = Some k" "k < length (fst rs)" "k \<le> limit"
    using strnlen_total [OF assms(1)] by blast
  have "take_bit 64 (k + 1) = k + 1" using k(3) assms(2) by (intro take_bit_nat_eq_self) simp
  with k(2) have "unat (of_nat (k + 1) :: size_t) \<le> length (fst rs)" by (simp add: unat_of_nat del: of_nat_add of_nat_Suc)
  from send_all_total [OF this] k show ?thesis by (auto simp: respond_def)
qed

section \<open>The commands\<close>

text \<open>
  The two text buffers have the sizes that the code takes them to have, and the last byte of the
  receive buffer is a terminator that no message has overwritten.
\<close>

definition text_buffers_ok :: "SERVER_BUFFERS \<Rightarrow> bool" where
  "text_buffers_ok b \<longleftrightarrow> length (ctrl_rx_buff b) = unat (ctrl_rx_buff_sz b) \<and> 64 \<le> unat (ctrl_rx_buff_sz b) \<and>
     last (ctrl_rx_buff b) = 0 \<and> 0 < ctrl_tx_buff_sz b \<and> unat (ctrl_tx_buff_sz b) \<le> length (ctrl_tx_buff b)"

text \<open>What the answer to a command must be, in a state that may have changed.\<close>

definition text_answer :: "'h srv \<Rightarrow> (u8 list \<times> 'h srv) option \<Rightarrow> bool" where
  "text_answer s m \<longleftrightarrow> (\<exists>r s'. m = Some (r, s') \<and> 0 \<in> set r \<and> text_buffers_ok (bufs s') \<and> undisturbed s s')"

lemma text_answer_Some [simp]:
  "text_answer s (Some (r, s')) \<longleftrightarrow> 0 \<in> set r \<and> text_buffers_ok (bufs s') \<and> undisturbed s s'"
  by (auto simp: text_answer_def)

text \<open>The rules follow the structure of the code.\<close>

named_theorems answer_rules \<open>computations that end with a text\<close>

lemma answer_strncmp [answer_rules]:
  "0 \<in> set as \<Longrightarrow> 0 \<in> set bs \<Longrightarrow> (\<And>b. text_answer s (f b)) \<Longrightarrow> text_answer s (strncmp_eq as bs n \<bind> f)"
  using strncmp_eq_total [of as bs n] by auto

lemma answer_at_start [answer_rules]:
  "0 \<in> set bs \<Longrightarrow> (\<And>b. text_answer s (f b)) \<Longrightarrow> text_answer s (at_start bs word \<bind> f)"
  using at_start_total [of bs word] by auto

lemma answer_found:
  "at_start cmd word = Some True \<Longrightarrow> text_answer s (f (Some 0)) \<Longrightarrow> text_answer s (strstr cmd (butlast word) \<bind> f)"
  by (simp add: at_start_True(1))

lemma answer_flag [answer_rules]:
  assumes "bs \<noteq> []" and "\<And>v. text_answer s (f v)"
  shows "text_answer s (flag_value bs \<bind> f)"
proof -
  from assms(1) obtain b bs' where "bs = b # bs'" by (cases bs) auto
  then have "\<exists>v. flag_value bs = Some v" by (auto simp: flag_value_def)
  with assms(2) show ?thesis by auto
qed

lemma answer_if [answer_rules]:
  "text_answer s m \<Longrightarrow> text_answer s m' \<Longrightarrow> text_answer s (if c then m else m')"
  by simp

lemma answer_option [answer_rules]:
  "text_answer s m \<Longrightarrow> (\<And>x. text_answer s (f x)) \<Longrightarrow> text_answer s (case v of None \<Rightarrow> m | Some x \<Rightarrow> f x)"
  by (cases v) simp_all

lemma answer_no_delay [answer_rules]:
  "(\<And>r w. same_input (world s) w \<Longrightarrow> text_answer s (f r (set_world w s))) \<Longrightarrow>
    text_answer s (case sys (set_tcp_no_delay fd x) s of (r, s1) \<Rightarrow> f r s1)"
  by (simp add: sys_calls same_input_def)

lemma print_number_answers [answer_rules]:
  assumes "text_buffers_ok (bufs s)"
  shows "text_answer s (print_number i s)"
proof -
  let ?n = "unat (ctrl_tx_buff_sz (bufs s))"
  have "0 < ?n" "?n \<le> length (ctrl_tx_buff (bufs s))"
    using assms by (auto simp: text_buffers_ok_def unat_gt_0)
  then have "ctrl_tx_buff_sz (bufs s) \<noteq> 0" "length (take (?n - 1) (dec_int i) @ [0 :: u8]) \<le> length (ctrl_tx_buff (bufs s))"
    by auto
  with assms show ?thesis
    by (auto simp: print_number_def snprintf_def text_buffers_ok_def undisturbed_tx_buff)
qed

lemma lit_ends [simp]: "0 \<in> set (lit w)"
  by (simp add: lit_def)

lemmas param_words = SERVER_LOOPBACK_MODE_PARAM_def H2T_RX_BUFFER_SIZE_PARAM_def MGMT_RX_BUFFER_SIZE_PARAM_def
  CTRL_RX_BUFFER_SIZE_PARAM_def T2H_NAGLE_PARAM_def MGMT_RSP_NAGLE_PARAM_def
  SET_PARAM_CMD_RSP_def SET_PARAM_CMD_FAIL_RSP_def GET_PARAM_CMD_FAIL_RSP_def

lemma zero_behind:
  assumes "length (cmd :: u8 list) = unat (ctrl_rx_buff_sz b)" and "last cmd = 0" and "text_buffers_ok b" and "n < 64"
  shows "0 \<in> set (drop n cmd)" "drop n cmd \<noteq> []"
proof -
  have "n < length cmd" using assms(1,3,4) by (simp add: text_buffers_ok_def)
  then show "drop n cmd \<noteq> []" and "0 \<in> set (drop n cmd)"
    using assms(2) by (auto simp: last_drop dest: last_in_set) (metis drop_eq_Nil last_drop last_in_set linorder_not_less)
qed

lemma get_parameter_answers:
  assumes "length cmd = unat (ctrl_rx_buff_sz (bufs s))" and "last cmd = 0" and ok: "text_buffers_ok (bufs s)"
    and get: "at_start cmd GET_PARAM_CMD = Some True"
  shows "text_answer s (get_parameter cmd s)"
proof -
  have "0 \<in> set (drop 10 cmd)" by (rule zero_behind [OF assms(1-3)]) simp
  with ok show ?thesis
    unfolding get_parameter_def Let_def
    by (intro answer_found [OF get] answer_rules; simp add: param_words GET_PARAM_CMD_LEN_def)
qed

lemma set_parameter_answers:
  assumes cmd: "length cmd = unat (ctrl_rx_buff_sz (bufs s))" "last cmd = 0" and ok: "text_buffers_ok (bufs s)"
    and set: "at_start cmd SET_PARAM_CMD = Some True"
  shows "text_answer s (set_parameter cmd client s)"
proof -
  have "0 \<in> set (drop 10 cmd)" by (rule zero_behind [OF cmd ok]) simp
  moreover have "drop n cmd \<noteq> []" if "n < 64" for n by (rule zero_behind(2) [OF cmd ok that])
  ultimately show ?thesis
    using ok unfolding set_parameter_def Let_def
    by (intro answer_found [OF set], simp only: option.case)
       (intro answer_rules; simp add: param_words SET_PARAM_CMD_LEN_def SERVER_LOOPBACK_MODE_PARAM_LEN_def
         T2H_NAGLE_PARAM_LEN_def MGMT_RSP_NAGLE_PARAM_LEN_def)
qed

text \<open>Answering, and the one answer that a command without parameters gets.\<close>

definition handled :: "'h srv \<Rightarrow> (RETURN_CODE \<times> bool \<times> 'h srv) option \<Rightarrow> bool" where
  "handled s m \<longleftrightarrow> (\<exists>rc quit s'. m = Some (rc, quit, s') \<and> text_buffers_ok (bufs s') \<and> undisturbed s s')"

lemma handled_text:
  assumes "text_answer s m" and "limit < 1000"
  shows "handled s (do { rs \<leftarrow> m; (r, s1) \<leftarrow> respond fd limit rs; Some (r, quit, s1) })"
proof -
  from assms(1) obtain r s' where m: "m = Some (r, s')" "0 \<in> set r" "text_buffers_ok (bufs s')"
    "undisturbed s s'" by (auto simp: text_answer_def)
  with respond_total [of "(r, s')" limit fd] assms(2) show ?thesis by (auto simp: handled_def)
qed

lemma handled_plain:
  assumes "unat len \<le> length bytes" and "text_buffers_ok (bufs s)"
  shows "handled s (do { (r, s1) \<leftarrow> send_all fd bytes len s; Some (f r, quit, s1) })"
  using send_all_total [OF assms(1), of fd s] assms(2) by (auto simp: handled_def)

lemma handled_test:
  "\<exists>b. m = Some b \<Longrightarrow> (m = Some True \<Longrightarrow> handled s t) \<Longrightarrow> (m = Some False \<Longrightarrow> handled s e) \<Longrightarrow>
    handled s (do { b \<leftarrow> m; if b then t else e })"
  by auto

lemmas plain_words = PING_CMD_def DISCONNECT_CMD_def PING_CMD_RSP_def PING_CMD_RSP_LEN_def DISCONNECT_CMD_RSP_def
  DISCONNECT_CMD_RSP_LEN_def UNRECOGNIZED_CMD_RSP_def UNRECOGNIZED_CMD_RSP_LEN_def MAX_SERVER_PARAM_VALUE_LEN_def

section \<open>One message\<close>

text \<open>A message that was received into the buffer, whose last byte it left alone.\<close>

lemma control_message_handled:
  assumes recv: "socket_recv_until_null_reached (ctrl_fd client) (ctrl_rx_buff (bufs s)) (ctrl_rx_buff_sz (bufs s)) (world s) =
      Some (rc, n, cmd, w)"
    and s1: "s1 = upd_buff (\<lambda>b. b\<lparr>ctrl_rx_buff := cmd\<rparr>) (set_world w s)" and ok: "text_buffers_ok (bufs s1)"
    and no_driver: "rc = OK \<Longrightarrow> at_start cmd SET_DRIVER_PARAM_CMD \<noteq> Some True"
      "rc = OK \<Longrightarrow> at_start cmd GET_DRIVER_PARAM_CMD \<noteq> Some True" and fd: "fd_settable (ctrl_fd client)"
  shows "handled s1 (process_control_message client s)"
proof (cases "rc = OK")
  case False
  with recv ok show ?thesis
    by (auto simp: process_control_message_def s1 [symmetric] handled_def)
next
  case True
  have cmd: "length cmd = unat (ctrl_rx_buff_sz (bufs s1))" "last cmd = 0" using ok by (simp_all add: s1 text_buffers_ok_def)
  have zero: "0 \<in> set cmd" using zero_behind(1) [OF cmd ok, of 0] by simp
  have "0 \<in> set PING_CMD" "0 \<in> set DISCONNECT_CMD" by (simp_all add: plain_words)
  note tests = at_start_total [OF zero] strncmp_eq_total [OF zero this(1)] strncmp_eq_total [OF zero this(2)]
  note answers = get_parameter_answers [OF cmd ok] set_parameter_answers [OF cmd ok]
  show ?thesis
    using recv True
    by (simp add: process_control_message_def wait_for_read_event_def fd s1 [symmetric] Let_def cong: if_cong)
       (intro handled_test tests handled_text answers handled_plain ok; simp add: plain_words no_driver)
qed

section \<open>Properties\<close>

text \<open>
  C11. Control messages are safe: whatever bytes a client has sent on the control socket, terminated or
  not, as long as they are fewer than the receive buffer holds and do not begin with one of the two
  commands for driver parameters, and the socket has a number below \<open>FD_SETSIZE\<close>, handling them has no undefined behaviour, whatever the network
  does with the answer; it leaves the driver alone and the text buffers as they must be for the next
  message.
\<close>

theorem control_messages_safe:
  assumes ok: "text_buffers_ok (bufs s)"
    and few: "length (stream (rx (world s) (ctrl_fd client))) < unat (ctrl_rx_buff_sz (bufs s))"
    and fd: "fd_settable (ctrl_fd client)"
    and server: "take 16 (stream (rx (world s) (ctrl_fd client))) \<notin> {str ''SET_DRIVER_PARAM'', str ''GET_DRIVER_PARAM''}"
  shows "\<exists>rc quit s'. process_control_message client s = Some (rc, quit, s') \<and>
    text_buffers_ok (bufs s') \<and> drv (mach s') = drv (mach s)"
proof -
  let ?in = "stream (rx (world s) (ctrl_fd client))" and ?b = "ctrl_rx_buff (bufs s)"
  from recv_null_loop_result [of 0 "unat (ctrl_rx_buff_sz (bufs s))" ?b] ok obtain rc n k w where
    recv: "socket_recv_until_null_reached (ctrl_fd client) ?b (ctrl_rx_buff_sz (bufs s)) (world s) =
        Some (rc, n, take k ?in @ drop k ?b, w)" "k \<le> length ?in" "rc = OK \<longrightarrow> 0 \<in> set (take k ?in)"
    by (fastforce simp: socket_recv_until_null_reached_def text_buffers_ok_def split: if_splits)
  define cmd where "cmd = take k ?in @ drop k ?b"
  define s1 where "s1 = upd_buff (\<lambda>b. b\<lparr>ctrl_rx_buff := cmd\<rparr>) (set_world w s)"
  have s1: "text_buffers_ok (bufs s1)" "drv (mach s1) = drv (mach s)"
    using ok recv(2) few by (auto simp: s1_def text_buffers_ok_def cmd_def)
  have "at_start cmd SET_DRIVER_PARAM_CMD \<noteq> Some True" "at_start cmd GET_DRIVER_PARAM_CMD \<noteq> Some True" if "rc = OK"
    using at_start_stream [of k ?in "drop k ?b" SET_DRIVER_PARAM_CMD] at_start_stream [of k ?in "drop k ?b" GET_DRIVER_PARAM_CMD]
      recv(3) that server by (auto simp: cmds cmd_def numeral_eq_Suc)
  then have "handled s1 (process_control_message client s)"
    by (rule control_message_handled [OF recv(1) [folded cmd_def] s1_def s1(1) _ _ fd])
  with s1(2) show ?thesis by (auto simp: handled_def undisturbed_def)
qed

text \<open>The start-up code sets the buffers up as they must be.\<close>

lemma start_text_buffers: "text_buffers_ok (start_buffers info)"
  by (simp add: text_buffers_ok_def start_buffers_def CTRL_RX_BUFF_SZ_def CTRL_TX_BUFF_SZ_def last_replicate)

definition asking :: "rx_event list \<Rightarrow> unit srv" where
  "asking events =
     \<lparr>mach = \<lparr>drv = driver_start \<lparr>interfaces = empty_vec, device = ()\<rparr>, osys = quiet_os\<lparr>rx := (\<lambda>_. events)\<rparr>,
        g_socket_recv_buff = None, g_socket_send_buff = None\<rparr>,
      conn = SERVER_CONN_default\<lparr>s_buff := start_buffers (get_design_info
         \<lparr>cxt_mmio_handle = 1, h2t_t2h_mem_size = 2048, cxt_port = 0\<rparr>)\<rparr>\<rparr>"

lemma control_messages_safe_witness:
  "\<exists>rc quit s'. process_control_message (CLIENT_CONN_default\<lparr>ctrl_fd := 20\<rparr>) (asking [Data (str ''SET_''), Data (lit ''PARAM'')]) =
      Some (rc, quit, s') \<and> text_buffers_ok (bufs s')"
  using control_messages_safe [of "asking [Data (str ''SET_''), Data (lit ''PARAM'')]" "CLIENT_CONN_default\<lparr>ctrl_fd := 20\<rparr>"]
    start_text_buffers
  by (fastforce simp: asking_def world_def str_def lit_def start_buffers_def CTRL_RX_BUFF_SZ_def fd_settable_def FD_SETSIZE_def)

text \<open>
  C29. A message that fills the receive buffer need not be safe: when \<open>SET_PARAM\<close>, its terminator and
  then bytes other than zero come in one piece and fill the buffer, the search for the name of the
  parameter, which starts behind the terminator, runs out of the buffer.
\<close>

theorem full_buffer_overread:
  assumes "rx (world s) (ctrl_fd client) = Data (str ''SET_PARAM'' @ 0 # junk) # events" and "0 \<notin> set junk"
    and "unat (ctrl_rx_buff_sz (bufs s)) = 10 + length junk"
    and "length (ctrl_rx_buff (bufs s)) = 10 + length junk"
  shows "process_control_message client s = None"
proof -
  let ?msg = "str ''SET_PARAM'' @ 0 # junk"
  have recv: "os_recv (ctrl_fd client) (10 + length junk) (world s) =
      (int (10 + length junk), ?msg, (world s)\<lparr>rx := (rx (world s))(ctrl_fd client := events)\<rparr>)"
    using assms(1) by (simp add: os_recv_def)
  then obtain n w where msg: "socket_recv_until_null_reached (ctrl_fd client) (ctrl_rx_buff (bufs s)) (ctrl_rx_buff_sz (bufs s))
      (world s) = Some (OK, n, ?msg, w)"
    using assms(3,4) by (simp add: socket_recv_until_null_reached_def recv_null_loop.simps store_at_def)
  have no0: "0 \<notin> set (str ''SET_PARAM'')" by simp
  have starts: "at_start ?msg GET_PARAM_CMD = Some False" "at_start ?msg SET_PARAM_CMD = Some True"
    unfolding cmds at_start_text [OF no0] by (simp_all add: str_def)
  have exact: "strncmp_eq ?msg PING_CMD PING_CMD_LEN = Some False" "strncmp_eq ?msg DISCONNECT_CMD DISCONNECT_CMD_LEN = Some False"
    unfolding cmds by (subst strncmp_eq_text [OF no0]; simp add: str_def)+
  have "strstr ?msg (str ''SET_PARAM'') = Some (Some 0)"
    using at_start_True(1) [OF starts(2)] by (simp add: cmds)
  moreover have "drop SET_PARAM_CMD_LEN ?msg = junk" "at_start junk SERVER_LOOPBACK_MODE_PARAM = None"
    using assms(2) by (simp_all add: SET_PARAM_CMD_LEN_def at_start_def strstr_def cstr_None_iff [THEN iffD2])
  ultimately have "set_parameter ?msg client s1 = None" for s1 :: "'a srv"
    by (simp add: set_parameter_def cmds Let_def)
  with msg starts exact show ?thesis
    by (simp add: process_control_message_def Let_def)
qed

lemma full_buffer_overread_witness:
  "process_control_message CLIENT_CONN_default (asking [Data (lit ''SET_PARAM'' @ replicate 502 65)]) = None"
  using full_buffer_overread [of "asking [Data (lit ''SET_PARAM'' @ replicate 502 65)]" CLIENT_CONN_default "replicate 502 65" "[]"]
  by (simp add: asking_def world_def lit_def start_buffers_def CTRL_RX_BUFF_SZ_def)

end
