(* ===== verification/Handshake.thy ===== *)
theory Handshake
  imports Control
begin

text \<open>
  Opening and closing connections: the listening socket, the handshake of the five sockets of a
  client, closing and rejecting, from \<^verbatim>\<open>streaming/src/intel_st_debug_if_server.c\<close>.

  A client connects a control socket, gets the welcome message with its handle, and then has to
  name the socket and the handle on each of the five sockets, in a fixed order.
\<close>

section \<open>The listening socket\<close>

text \<open>The error count only ever matters as zero or not; every call is guarded by it.\<close>

definition bind_server_socket :: "'h srv \<Rightarrow> RETURN_CODE \<times> 'h srv" where
  "bind_server_socket s0 =
     (let (fd, s1) = sys os_socket s0;
          s2 = s1\<lparr>conn := (conn s1)\<lparr>server_fd := fd\<rparr>\<rparr>;
          errors1 = (fd = INVALID_SOCKET);
          (errors2, s3) = (if \<not> errors1
             then (let (r, s) = sys (set_boolean_socket_option fd Reuseaddr 1) s2 in (r < 0, s))
             else (errors1, s2));
          (errors3, s4) = (if \<not> errors2 then (let (r, s) = sys os_bind s3 in (r < 0, s)) else (errors2, s3));
          (errors4, s5) = (if \<not> errors3 then (let (r, s) = sys os_listen s4 in (r < 0, s)) else (errors3, s4))
      in if errors4
         then if server_fd (conn s5) \<noteq> INVALID_SOCKET
              then (let (r, s6) = sys (close_socket_fd (server_fd (conn s5))) s5
                    in (FAILURE, s6\<lparr>conn := (conn s6)\<lparr>server_fd := INVALID_SOCKET\<rparr>\<rparr>))
              else (FAILURE, s5)
         else (OK, s5))"

text \<open>
  The port of \<open>server_addr\<close> is kept in host order. The port file gets the port in decimal; that it
  could not be opened is only logged.
\<close>

definition initialize_server :: "u16 \<Rightarrow> u8 list option \<Rightarrow> 'h srv \<Rightarrow> (RETURN_CODE \<times> 'h srv) option" where
  "initialize_server port port_filename s0 = do {
     if initialize_sockets_library = FAILURE then Some (FAILURE, s0)
     else do {
       g1 \<leftarrow> populate_guardband (mgmt_rsp_header_buff (bufs s0));
       g2 \<leftarrow> populate_guardband (t2h_header_buff (bufs s0));
       let s1 = upd_buff (\<lambda>b. b\<lparr>mgmt_rsp_header_buff := g1, t2h_header_buff := g2\<rparr>) s0;
       let s2 = s1\<lparr>conn := (conn s1)\<lparr>server_port := port\<rparr>\<rparr>;
       let (rc, s3) = bind_server_socket s2;
       if rc \<noteq> OK then Some (FAILURE, s3)
       else do {
         let (r, used) = getsockname_result (world s3);
         let s4 = (if port = 0 \<and> r \<ge> 0 then s3\<lparr>conn := (conn s3)\<lparr>server_port := used\<rparr>\<rparr> else s3);
         let w = world s4;
         Some (OK, case port_filename of
                     Some name \<Rightarrow>
                       if fopen_ok w
                       then set_world (w\<lparr>files_written := files_written w @
                              [(name, dec_nat (unat (server_port (conn s4))))]\<rparr>) s4
                       else s4
                   | None \<Rightarrow> s4)
       }
     }
   }"

section \<open>The handshake\<close>

definition MAX_HANDLE_RSP :: size_t where "MAX_HANDLE_RSP = 64"

text \<open>
  Receiving a handle message and answering it: what the code does the same way for the control
  socket and for each of the other four.
\<close>

definition check_handle ::
  "int \<Rightarrow> u8 list \<Rightarrow> int \<Rightarrow> 'h srv \<Rightarrow> (RETURN_CODE \<times> 'h srv) option" where
  "check_handle fd sock_name handle s0 = do {
     (rc, n, rxb, w) \<leftarrow> socket_recv_until_null_reached fd (ctrl_rx_buff (bufs s0)) MAX_HANDLE_RSP (world s0);
     let s = upd_buff (\<lambda>b. b\<lparr>ctrl_rx_buff := rxb\<rparr>) (set_world w s0);
     if rc \<noteq> OK then Some (rc, s)
     else do {
       txb \<leftarrow> generate_expected_handle_message (ctrl_tx_buff (bufs s)) (ctrl_tx_buff_sz (bufs s)) sock_name handle;
       let s1 = upd_buff (\<lambda>b. b\<lparr>ctrl_tx_buff := txb\<rparr>) s;
       same \<leftarrow> strncmp_eq rxb txb (unat MAX_HANDLE_RSP);
       if same then send_all fd READY_MSG (of_nat READY_MSG_LEN) s1
       else do {
         (rc1, s2) \<leftarrow> send_all fd NOT_READY_MSG (of_nat NOT_READY_MSG_LEN) s1;
         Some (FAILURE, s2)
       }
     }
   }"

text \<open>The accepted socket, which is stored in the client record, is returned too.\<close>

definition connect_client_socket ::
  "int \<Rightarrow> u8 list \<Rightarrow> int \<Rightarrow> 'h srv \<Rightarrow> (RETURN_CODE \<times> int \<times> 'h srv) option" where
  "connect_client_socket handle_id sock_name use_nagle s0 =
     (let (fd, s1) = sys os_accept s0
      in if fd = INVALID_SOCKET then Some (FAILURE, fd, s1)
         else (let (r, s2) = sys (set_tcp_no_delay fd (if use_nagle = 0 then 1 else 0)) s1
               in if r \<noteq> 0 then Some (FAILURE, fd, s2)
                  else do {
                    (rc, s3) \<leftarrow> check_handle fd sock_name handle_id s2;
                    Some (rc, fd, s3)
                  }))"

text \<open>The control socket: accept, welcome, handle.\<close>

definition connect_control ::
  "int \<Rightarrow> 'h srv \<Rightarrow> (RETURN_CODE \<times> int \<times> 'h srv) option" where
  "connect_control handle s0 =
     (let (fd, s1) = sys os_accept s0
      in if fd = INVALID_SOCKET then Some (FAILURE, fd, s1)
         else do {
           (support, s2) \<leftarrow> (case cb_has_mgmt_support (hw_callbacks (conn s1)) of
                               None \<Rightarrow> Some (0, s1) | Some f \<Rightarrow> on_drv f s1);
           txb \<leftarrow> generate_server_welcome_message (ctrl_tx_buff (bufs s2)) (ctrl_tx_buff_sz (bufs s2))
                    support (bufs s2) handle;
           let s3 = upd_buff (\<lambda>b. b\<lparr>ctrl_tx_buff := txb\<rparr>) s2;
           n \<leftarrow> strnlen txb (unat (ctrl_tx_buff_sz (bufs s3)));
           (rc, s4) \<leftarrow> send_all fd txb (of_nat n + 1) s3;
           if rc = FAILURE then Some (FAILURE, fd, s4)
           else do {
             (rc1, s5) \<leftarrow> check_handle fd CONTROL_SOCK_NAME handle s4;
             Some (rc1, fd, s5)
           }
         })"

text \<open>One of the other four sockets, when all went well so far; \<open>put\<close> stores it in the client record.\<close>

definition connect_next ::
  "int \<Rightarrow> u8 list \<Rightarrow> ('h SERVER_CONN \<Rightarrow> int) \<Rightarrow> (int \<Rightarrow> CLIENT_CONN \<Rightarrow> CLIENT_CONN) \<Rightarrow>
     RETURN_CODE \<times> CLIENT_CONN \<times> 'h srv \<Rightarrow> (RETURN_CODE \<times> CLIENT_CONN \<times> 'h srv) option" where
  "connect_next handle sock_name use_nagle put o0 =
     (let (r, c, s) = o0
      in if r = OK
         then do {
           (r1, fd, s1) \<leftarrow> connect_client_socket handle sock_name (use_nagle (conn s)) s;
           Some (r1, put fd c, s1)
         }
         else Some (r, c, s))"

text \<open>
  \<open>rands\<close> is the random source of \<open>get_random_id\<close>. The last step sends the final answer: a
  single \<open>send\<close> of \<open>NOT_READY\<close> after a failure.
\<close>

definition connect_client ::
  "(nat \<Rightarrow> int) \<Rightarrow> int \<Rightarrow> CLIENT_CONN \<Rightarrow> 'h srv \<Rightarrow> (RETURN_CODE \<times> CLIENT_CONN \<times> 'h srv) option" where
  "connect_client rands mmio_handle c0 s00 = do {
     handle \<leftarrow> get_random_id rands;
     let s0 = upd_stats (\<lambda>_. SERVER_PKT_STATS_default) s00;
     (init_rc, s1) \<leftarrow> (case cb_init_driver (hw_callbacks (conn s0)) of
                         None \<Rightarrow> Some (0, s0) | Some f \<Rightarrow> on_drv (f mmio_handle) s0);
     if init_rc \<noteq> 0 then Some (INIT_ERR, c0, s1)
     else do {
       (r1, fd1, s2) \<leftarrow> connect_control handle s1;
       o2 \<leftarrow> connect_next handle MANAGEMENT_SOCK_NAME (\<lambda>_. 0)
              (\<lambda>fd c. c\<lparr>mgmt_fd := fd\<rparr>) (r1, c0\<lparr>ctrl_fd := fd1\<rparr>, s2);
       o3 \<leftarrow> connect_next handle MANAGEMENT_RSP_SOCK_NAME mgmt_rsp_nagle
              (\<lambda>fd c. c\<lparr>mgmt_rsp_fd := fd\<rparr>) o2;
       o4 \<leftarrow> connect_next handle H2T_SOCK_NAME (\<lambda>_. 0) (\<lambda>fd c. c\<lparr>h2t_data_fd := fd\<rparr>) o3;
       (r5, c5, s6) \<leftarrow> connect_next handle T2H_SOCK_NAME t2h_nagle
              (\<lambda>fd c. c\<lparr>t2h_data_fd := fd\<rparr>) o4;
       if r5 \<noteq> OK
       then (let s7 = (if ctrl_fd c5 \<noteq> INVALID_SOCKET
                       then snd (sys (os_send (ctrl_fd c5) (take NOT_READY_MSG_LEN NOT_READY_MSG)) s6)
                       else s6)
             in Some (FAILURE, c5, s7))
       else do {
         (r, s7) \<leftarrow> send_all (ctrl_fd c5) READY_MSG (of_nat READY_MSG_LEN) s6;
         Some (if r = OK then OK else FAILURE, c5, s7)
       }
     }
   }"

section \<open>Closing and rejecting\<close>

text \<open>One socket of a client: whether closing it failed.\<close>

definition close_one :: "int \<Rightarrow> 'h srv \<Rightarrow> bool \<times> 'h srv" where
  "close_one fd s =
     (if fd \<noteq> INVALID_SOCKET
      then (let (r, s1) = sys (set_linger_socket_option fd 1 0) s;
                (r2, s2) = sys (close_socket_fd fd) s1
            in (r2 \<noteq> 0, s2))
      else (False, s))"

definition close_client_conn :: "CLIENT_CONN \<Rightarrow> 'h srv \<Rightarrow> RETURN_CODE \<times> 'h srv" where
  "close_client_conn c s =
     (let (e1, s1) = close_one (ctrl_fd c) s;
          (e2, s2) = close_one (mgmt_fd c) s1;
          (e3, s3) = close_one (mgmt_rsp_fd c) s2;
          (e4, s4) = close_one (h2t_data_fd c) s3;
          (e5, s5) = close_one (t2h_data_fd c) s4
      in (if e1 \<or> e2 \<or> e3 \<or> e4 \<or> e5 then FAILURE else OK, s5))"

definition reject_client :: "'h srv \<Rightarrow> 'h srv" where
  "reject_client s0 =
     (let (fd, s1) = sys os_accept s0
      in if fd = INVALID_SOCKET then s1
         else (let (r, s2) = sys (os_send fd (take 12 REJECT_MSG)) s1;
                   (r2, s3) = sys (set_linger_socket_option fd 1 0) s2;
                   (r3, s4) = sys (close_socket_fd fd) s3
               in s4))"

end
