(* ===== verification/Server_Loop.thy ===== *)
theory Server_Loop
  imports Handshake Data_Path
begin

text \<open>
  The loops of \<^verbatim>\<open>streaming/src/intel_st_debug_if_server.c\<close> (\<open>handle_client\<close>, \<open>server_main\<close>,
  \<open>server_terminate\<close>) and the entry point of \<^verbatim>\<open>streaming/src/intel_st_debug_if_stream_dbg.c\<close>.

  What \<open>select\<close> reports is a list of events, one per iteration, and the clients that come are a
  list of environments. The loops run along these lists; a list that is used up means that the
  server is still waiting.
\<close>

section \<open>One client\<close>

datatype select_result =
    Select_failed
  | Ready (readable: "int list") (writable: "int list") (excepted: "int list")

text \<open>The sockets of a connection, and the bound \<open>select\<close> gets for them.\<close>

definition all_fds :: "CLIENT_CONN \<Rightarrow> 'h srv \<Rightarrow> int list" where
  "all_fds client s =
     [server_fd (conn s), ctrl_fd client, mgmt_fd client, mgmt_rsp_fd client, h2t_data_fd client,
      t2h_data_fd client]"

text \<open>
  Putting them into the sets for \<open>select\<close>, at the start of every iteration: the writes are in the sets
  only for descriptors below \<open>FD_SETSIZE\<close>.
\<close>

definition fill_fd_sets :: "CLIENT_CONN \<Rightarrow> 'h srv \<Rightarrow> unit option" where
  "fill_fd_sets client s = (if list_all fd_settable (all_fds client s) then Some () else None)"

definition client_max_fd :: "CLIENT_CONN \<Rightarrow> 'h srv \<Rightarrow> int" where
  "client_max_fd client s = max_of (all_fds client s) + 1"

text \<open>
  An action of an iteration, run where its condition holds; a result of \<open>FAILURE\<close> leaves the
  loop. The first component of an outcome is whether the loop was left.
\<close>

definition guarded ::
  "bool \<Rightarrow> ('h srv \<Rightarrow> (RETURN_CODE \<times> 'h srv) option) \<Rightarrow> bool \<times> 'h srv \<Rightarrow> (bool \<times> 'h srv) option" where
  "guarded ready act o0 =
     (let (left, s) = o0
      in if left \<or> \<not> ready then Some (left, s)
         else do { (rc, s1) \<leftarrow> act s; Some (rc = FAILURE, s1) })"

definition control_act ::
  "CLIENT_CONN \<Rightarrow> bool \<Rightarrow> bool \<times> 'h srv \<Rightarrow> (bool \<times> 'h srv) option" where
  "control_act client ready o0 =
     (let (left, s) = o0
      in if left \<or> \<not> ready then Some (left, s)
         else do {
           (rc, disconnect, s1) \<leftarrow> process_control_message client s;
           Some (rc = FAILURE \<or> disconnect, s1)
         })"

text \<open>One iteration; \<open>pay0\<close> is what the local payload variables hold.\<close>

definition client_step ::
  "'h bus \<Rightarrow> u32 \<Rightarrow> CLIENT_CONN \<Rightarrow> select_result \<Rightarrow> 'h srv \<Rightarrow> (bool \<times> 'h srv) option" where
  "client_step bus pay0 client ev s0 = do {
     _ \<leftarrow> fill_fd_sets client s0;
     case ev of
       Select_failed \<Rightarrow> Some (True, s0)
     | Ready rd wr ex \<Rightarrow>
         if \<exists>fd \<in> set (all_fds client s0). fd \<in> set ex then Some (True, s0)
         else do {
           let s1 = (if server_fd (conn s0) \<in> set rd then reject_client s0 else s0);
           o1 \<leftarrow> control_act client (ctrl_fd client \<in> set rd) (False, s1);
           o2 \<leftarrow> guarded (mgmt_fd client \<in> set rd) (process_mgmt_data client) o1;
           o3 \<leftarrow> guarded (h2t_data_fd client \<in> set rd) (process_h2t_data bus client) o2;
           if fst o3 \<or> loopback_mode (conn (snd o3)) \<noteq> 0 then Some o3
           else do {
             o4 \<leftarrow> guarded (mgmt_rsp_fd client \<in> set wr \<and>
                            cb_acquire_mgmt_rsp_data (hw_callbacks (conn (snd o3))) \<noteq> None)
                     (process_mgmt_rsp_data pay0 client) o3;
             guarded (t2h_data_fd client \<in> set wr \<and>
                      cb_acquire_t2h_data (hw_callbacks (conn (snd o4))) \<noteq> None)
               (process_t2h_data bus pay0 client) o4
           }
         }
   }"

text \<open>With no event left the server waits in \<open>select\<close>, with its sets filled.\<close>

fun handle_client ::
  "'h bus \<Rightarrow> u32 \<Rightarrow> CLIENT_CONN \<Rightarrow> select_result list \<Rightarrow> 'h srv \<Rightarrow> (bool \<times> 'h srv) option" where
  "handle_client bus pay0 client [] s = do { _ \<leftarrow> fill_fd_sets client s; Some (False, s) }"
| "handle_client bus pay0 client (ev # evs) s = do {
     (left, s1) \<leftarrow> client_step bus pay0 client ev s;
     if left then Some (True, s1) else handle_client bus pay0 client evs s1
   }"

section \<open>One client after the other\<close>

text \<open>The result is the last return code where the loop ended, or none where it still runs.\<close>

fun serve ::
  "'h bus \<Rightarrow> u32 \<Rightarrow> int \<Rightarrow> SERVER_LIFESPAN \<Rightarrow> ((nat \<Rightarrow> int) \<times> select_result list) list \<Rightarrow> 'h srv \<Rightarrow>
     (RETURN_CODE option \<times> 'h srv) option" where
  "serve bus pay0 mmio lifespan [] s = Some (None, s)"
| "serve bus pay0 mmio lifespan ((rands, evs) # envs) s = do {
     s1 \<leftarrow> reset_buffers s;
     (rc, client, s2) \<leftarrow> connect_client rands mmio CLIENT_CONN_default s1;
     (left, s3) \<leftarrow> (if rc = OK then handle_client bus pay0 client evs s2 else Some (True, s2));
     if \<not> left then Some (None, s3)
     else (let (rc2, s4) = close_client_conn client s3
           in if rc = INIT_ERR then Some (Some rc, s4)
              else if lifespan = MULTIPLE_CLIENTS then serve bus pay0 mmio lifespan envs s4
              else Some (Some rc, s4))
   }"

definition close_listening :: "'h srv \<Rightarrow> 'h srv" where
  "close_listening s =
     (let (r, s1) = sys (set_linger_socket_option (server_fd (conn s)) 1 0) s;
          (r2, s2) = sys (close_socket_fd (server_fd (conn s1))) s1
      in if r2 \<noteq> 0 then s2 else s2\<lparr>conn := (conn s2)\<lparr>server_fd := INVALID_SOCKET\<rparr>\<rparr>)"

definition server_main ::
  "'h bus \<Rightarrow> u32 \<Rightarrow> (size_t \<Rightarrow> u8 list option) \<Rightarrow> (size_t \<Rightarrow> u8 list option) \<Rightarrow>
     intel_remote_debug_server_context \<Rightarrow> SERVER_LIFESPAN \<Rightarrow>
     ((nat \<Rightarrow> int) \<times> select_result list) list \<Rightarrow> 'h srv \<Rightarrow> (RETURN_CODE option \<times> 'h srv) option" where
  "server_main bus pay0 mem1 mem2 context lifespan envs s0 =
     (let (rc, m) = alloc_tcpip_recv_send_buffer mem1 mem2 (h2t_t2h_mem_size context) (mach s0);
          s = s0\<lparr>mach := m\<rparr>
      in if rc = FAILURE then Some (Some rc, s)
         else do {
           (rc1, s1) \<leftarrow> serve bus pay0 (cxt_mmio_handle context) lifespan envs s;
           Some (rc1, if rc1 = None then s1 else close_listening s1)
         })"

text \<open>
  The signal handler's way to stop the server. Whether the static pointer to the connection is
  set is \<open>ptr_set\<close>, before (\<open>server_main\<close> sets it, first thing) and in the result: it is reset
  at the end, and reading through it when it is null is undefined behaviour.
\<close>

definition server_terminate :: "bool \<Rightarrow> 'h srv \<Rightarrow> (bool \<times> 'h srv) option" where
  "server_terminate ptr_set s0 =
     (let s = s0\<lparr>mach := free_tcpip_recv_send_buffer (mach s0)\<rparr>
      in if \<not> ptr_set then None
         else if server_fd (conn s) \<noteq> INVALID_SOCKET then Some (False, close_listening s)
         else Some (False, s))"

definition terminate_st_dbg_transport_server_over_tcpip :: "bool \<Rightarrow> 'h srv \<Rightarrow> (bool \<times> 'h srv) option" where
  "terminate_st_dbg_transport_server_over_tcpip ptr_set s = server_terminate ptr_set s"

definition SERVER_PORT_FILE :: "u8 list" where
  "SERVER_PORT_FILE = lit ''.intel_reserved_debug_server.port''"

text \<open>The entry point: \<open>Some (-1)\<close> is the result when the server could not be initialised.\<close>

definition start_st_dbg_transport_server_over_tcpip ::
  "'h bus \<Rightarrow> bool \<Rightarrow> u32 \<Rightarrow> (size_t \<Rightarrow> u8 list option) \<Rightarrow> (size_t \<Rightarrow> u8 list option) \<Rightarrow>
     intel_remote_debug_server_context \<Rightarrow> ((nat \<Rightarrow> int) \<times> select_result list) list \<Rightarrow>
     'h machine \<Rightarrow> ((int + RETURN_CODE) option \<times> 'h srv) option" where
  "start_st_dbg_transport_server_over_tcpip bus char_signed pay0 mem1 mem2 context envs m = do {
     let info = get_design_info context;
     let s = \<lparr>mach = m\<lparr>drv := set_design_info info (drv m)\<rparr>, conn = start_conn bus char_signed info\<rparr>;
     (rc, s1) \<leftarrow> initialize_server (word_of_int (cxt_port context)) (Some SERVER_PORT_FILE) s;
     if rc = OK
     then do {
       (r, s2) \<leftarrow> server_main bus pay0 mem1 mem2 context MULTIPLE_CLIENTS envs s1;
       Some (map_option Inr r, s2)
     }
     else Some (Some (Inl (-1)), s1)
   }"

end
