(* ===== verification/Handshake_Laws.thy ===== *)
theory Handshake_Laws
  imports Handshake Server_Laws
begin

text \<open>
  What opening and closing connections guarantees: which sockets a client gets and in which
  order, that no socket is leaked or closed twice, that a second client is turned away without
  touching the first, and that a handle is accepted exactly when it is the expected text.
\<close>

section \<open>Closing\<close>

abbreviation valid_fds :: "int list \<Rightarrow> int list" where
  "valid_fds \<equiv> filter (\<lambda>fd. fd \<noteq> INVALID_SOCKET)"

text \<open>The five sockets of a client as one loop.\<close>

fun close_seq :: "int list \<Rightarrow> 'h srv \<Rightarrow> bool \<times> 'h srv" where
  "close_seq [] s = (False, s)"
| "close_seq (fd # fds) s =
     (let (e, s1) = close_one fd s; (e', s2) = close_seq fds s1 in (e \<or> e', s2))"

definition client_fds :: "CLIENT_CONN \<Rightarrow> int list" where
  "client_fds c = [ctrl_fd c, mgmt_fd c, mgmt_rsp_fd c, h2t_data_fd c, t2h_data_fd c]"

lemma close_client_conn_seq:
  "close_client_conn c s =
     (let (e, s') = close_seq (client_fds c) s in (if e then FAILURE else OK, s'))"
  by (simp add: close_client_conn_def client_fds_def Let_def split: prod.splits)

lemma close_one_result:
  "\<exists>w. close_one fd s = (fd \<noteq> INVALID_SOCKET \<and> \<not> list_all (\<lambda>r. r = 0) (take 1 (close_results (world s))),
      set_world w s) \<and> closed w = closed (world s) @ valid_fds [fd] \<and>
    close_results w = drop (length (valid_fds [fd])) (close_results (world s)) \<and>
    accept_results w = accept_results (world s) \<and> sent w = sent (world s) \<and> rx w = rx (world s)"
proof (cases "fd = INVALID_SOCKET")
  case True
  have "set_world (world s) s = s" by (simp add: set_world_def world_def)
  with True show ?thesis by (intro exI [of _ "world s"]) (simp add: close_one_def)
next
  case False
  let ?w = "(world s)\<lparr>setsockopt_results := tl (setsockopt_results (world s)),
    options_set := options_set (world s) @ [(fd, Linger 1 0)],
    close_results := tl (close_results (world s)), closed := closed (world s) @ [fd]\<rparr>"
  have "list_all (\<lambda>r. r = 0) (take 1 rs) = (rs = [] \<or> hd rs = 0)" for rs :: "int list"
    by (cases rs) simp_all
  with False show ?thesis
    by (intro exI [of _ ?w]) (simp add: close_one_def sys_calls drop_Suc)
qed

lemma close_seq_result:
  "\<exists>w. close_seq fds s = (\<not> list_all (\<lambda>r. r = 0) (take (length (valid_fds fds)) (close_results (world s))),
      set_world w s) \<and> closed w = closed (world s) @ valid_fds fds \<and>
    accept_results w = accept_results (world s) \<and> sent w = sent (world s) \<and> rx w = rx (world s)"
proof (induction fds arbitrary: s)
  case Nil
  have "set_world (world s) s = s" by (simp add: set_world_def world_def)
  then show ?case by (intro exI [of _ "world s"]) simp
next
  case (Cons fd fds)
  from close_one_result [of fd s] obtain w where
    w: "close_one fd s = (fd \<noteq> INVALID_SOCKET \<and> \<not> list_all (\<lambda>r. r = 0) (take 1 (close_results (world s))),
      set_world w s)" "closed w = closed (world s) @ valid_fds [fd]"
    "close_results w = drop (length (valid_fds [fd])) (close_results (world s))"
    "accept_results w = accept_results (world s)" "sent w = sent (world s)" "rx w = rx (world s)" by blast
  from Cons.IH [of "set_world w s"] obtain w' where
    w': "close_seq fds (set_world w s) = (\<not> list_all (\<lambda>r. r = 0) (take (length (valid_fds fds))
      (close_results w)), set_world w' s)" "closed w' = closed w @ valid_fds fds"
    "accept_results w' = accept_results w" "sent w' = sent w" "rx w' = rx w" by auto
  let ?rs = "close_results (world s)" and ?n = "length (valid_fds fds)"
  have "take (Suc ?n) ?rs = take 1 ?rs @ take ?n (drop 1 ?rs)"
    by (cases ?rs) simp_all
  then have "list_all (\<lambda>r. r = 0) (take (length (valid_fds (fd # fds))) ?rs) =
    ((fd \<noteq> INVALID_SOCKET \<longrightarrow> list_all (\<lambda>r. r = 0) (take 1 ?rs)) \<and>
     list_all (\<lambda>r. r = 0) (take ?n (drop (length (valid_fds [fd])) ?rs)))"
    by (simp del: take_Suc)
  then show ?case
    using w w' by (intro exI [of _ w']) (auto simp del: take_Suc)
qed

section \<open>The listening socket\<close>

lemma sys_result:
  "sys f s = (fst (f (world s)), set_world (snd (f (world s))) s)"
  by (simp add: sys_def split: prod.splits)

section \<open>The sockets a client gets\<close>

text \<open>What the calls of the handshake change: sockets are taken from the list of accepted ones.\<close>

definition accepted_only :: "'h srv \<Rightarrow> 'h srv \<Rightarrow> int list \<Rightarrow> bool" where
  "accepted_only s s' fds \<longleftrightarrow>
     accept_results (world s) = fds @ accept_results (world s') \<and> closed (world s') = closed (world s) \<and>
     h2t_waiting (conn s') = h2t_waiting (conn s) \<and> mgmt_waiting (conn s') = mgmt_waiting (conn s) \<and>
     server_fd (conn s') = server_fd (conn s)"

lemma accepted_only_refl [simp]: "accepted_only s s []"
  by (simp add: accepted_only_def)

lemma accepted_only_trans:
  "accepted_only s s1 fds \<Longrightarrow> accepted_only s1 s2 fds' \<Longrightarrow> accepted_only s s2 (fds @ fds')"
  by (simp add: accepted_only_def)

lemma accepted_only_step:
  "accepted_only s s1 [] \<Longrightarrow> accepted_only s1 s2 fds \<Longrightarrow> accepted_only s s2 fds"
  by (simp add: accepted_only_def)

lemma accepted_only_buff [simp]: "accepted_only s (upd_buff f s') fds = accepted_only s s' fds"
  by (simp add: accepted_only_def upd_buff_def world_def)

lemma accepted_only_buff_then [simp]:
  "accepted_only (upd_buff f s) s' fds = accepted_only s s' fds"
  by (simp add: accepted_only_def upd_buff_def world_def)

lemma only_tx_accepted: "only_tx fd (world s) w \<Longrightarrow> accepted_only s (set_world w s) []"
  by (auto simp: only_tx_def accepted_only_def)

lemma only_rx_accepted: "only_rx fd (world s) w \<Longrightarrow> accepted_only s (set_world w s) []"
  by (auto simp: only_rx_def accepted_only_def)

lemma send_loop_only_tx:
  "send_loop fd buff len n w = Some (rc, r, w') \<Longrightarrow> only_tx fd w w' \<and> (rc = OK \<or> rc = FAILURE)"
proof (induction fd buff len n w rule: send_loop.induct)
  case (1 fd buff len n w)
  obtain k w1 where os: "os_send fd (take n (drop (len - n) buff)) w = (k, w1)" by fastforce
  have first: "only_tx fd w w1"
  proof (cases "take n (drop (len - n) buff) = []")
    case True
    have "\<exists>ts bs. w1 = w\<lparr>tx := (tx w)(fd := ts), sent := (sent w)(fd := bs)\<rparr>"
    proof (cases "tx w fd")
      case Nil
      with os True have "w1 = w" by (simp add: os_send_def)
      then have "w1 = w\<lparr>tx := (tx w)(fd := tx w fd), sent := (sent w)(fd := sent w fd)\<rparr>"
        by simp
      then show ?thesis by blast
    next
      case (Cons r rs)
      with os True have "w1 = w\<lparr>tx := (tx w)(fd := rs), sent := (sent w)(fd := sent w fd)\<rparr>"
        by (auto simp: os_send_def split: if_splits)
      then show ?thesis by blast
    qed
    then show ?thesis by (simp add: only_tx_def)
  next
    case False
    then show ?thesis by (cases rule: os_send_cases [of _ fd w]) (use os in auto)
  qed
  show ?case
  proof (cases "n = 0 \<or> length buff < len \<or> k \<le> 0")
    case True
    with 1(2) os first show ?thesis by (subst (asm) send_loop.simps) (auto split: if_splits)
  next
    case False
    with 1(2) os have "send_loop fd buff len (n - nat k) w1 = Some (rc, r, w')"
      by (subst (asm) send_loop.simps) auto
    with 1(1) [OF _ _ os [symmetric]] False have "only_tx fd w1 w' \<and> (rc = OK \<or> rc = FAILURE)" by auto
    with first show ?thesis by (blast intro: only_tx_trans)
  qed
qed

lemma send_all_frame:
  assumes "send_all fd bytes len s = Some (rc, s')"
  shows "accepted_only s s' [] \<and> (rc = OK \<or> rc = FAILURE)"
  using assms
  by (auto simp: send_all_def socket_send_all_def dest!: send_loop_only_tx intro: only_tx_accepted
      split: bind_splits)

lemma recv_null_only_rx:
  "recv_null_loop fd max_len n off buff w = Some (rc, r, buff', w') \<Longrightarrow> only_rx fd w w'"
proof (induction fd max_len n off buff w rule: recv_null_loop.induct)
  case (1 fd max_len n off buff w)
  obtain k bs w1 where os: "os_recv fd n w = (k, bs, w1)" by (cases "os_recv fd n w") auto
  note first = os_recv_only_rx [OF os]
  show ?case
  proof (cases "n = 0 \<or> k \<le> 0 \<or> 0 \<in> set bs")
    case True
    with 1(2) os first show ?thesis
      by (subst (asm) recv_null_loop.simps) (auto split: if_splits option.splits)
  next
    case False
    with 1(2) os obtain buff1 where st: "store_at off bs buff = Some buff1"
      "recv_null_loop fd max_len (n - nat k) (off + nat k) buff1 w1 = Some (rc, r, buff', w')"
      by (subst (asm) recv_null_loop.simps) (auto split: option.splits)
    with 1(1) [OF _ os [symmetric] refl refl _ st(1)] False have "only_rx fd w1 w'" by auto
    with first show ?thesis by (rule only_rx_trans)
  qed
qed

lemma check_handle_frame:
  assumes "check_handle fd name handle s = Some (rc, s')"
  shows "accepted_only s s' []"
  using assms
  by (auto simp: check_handle_def socket_recv_until_null_reached_def Let_def bind_eq_Some_conv
      dest!: recv_null_only_rx only_rx_accepted send_all_frame intro: accepted_only_step
      split: if_splits)

lemma on_drv_frame: "on_drv f s = Some (r, s') \<Longrightarrow> accepted_only s s' []"
  by (auto simp: on_drv_def accepted_only_def world_def bind_eq_Some_conv)

lemma accept_frame:
  assumes "sys os_accept s = (fd, s')"
  obtains fds where "accepted_only s s' fds" "valid_fds [fd] = valid_fds fds" "fd \<noteq> INVALID_SOCKET \<longrightarrow> fds = [fd]"
proof
  show "accepted_only s s' (take 1 (accept_results (world s)))"
    using assms by (cases "accept_results (world s)") (auto simp: sys_accept accepted_only_def)
  show "valid_fds [fd] = valid_fds (take 1 (accept_results (world s)))"
    "fd \<noteq> INVALID_SOCKET \<longrightarrow> take 1 (accept_results (world s)) = [fd]"
    using assms by (cases "accept_results (world s)"; auto simp: sys_accept)+
qed

lemma no_delay_frame: "sys (set_tcp_no_delay fd x) s = (r, s') \<Longrightarrow> accepted_only s s' []"
  by (auto simp: sys_no_delay sys_setsockopt accepted_only_def)

lemma connect_client_socket_frame:
  assumes "connect_client_socket h name nagle s = Some (rc, fd, s')"
  shows "\<exists>fds. accepted_only s s' fds \<and> valid_fds [fd] = valid_fds fds \<and>
    (rc = OK \<longrightarrow> fds = [fd] \<and> fd \<noteq> INVALID_SOCKET)"
proof -
  obtain fd1 s1 where acc: "sys os_accept s = (fd1, s1)" by fastforce
  from accept_frame [OF this] obtain fds where fds: "accepted_only s s1 fds"
    "valid_fds [fd1] = valid_fds fds" "fd1 \<noteq> INVALID_SOCKET \<longrightarrow> fds = [fd1]" by blast
  obtain r s2 where opt: "sys (set_tcp_no_delay fd1 (if nagle = 0 then 1 else 0)) s1 = (r, s2)" by fastforce
  have then_nothing: "accepted_only s s3 fds" if "accepted_only s1 s3 []" for s3
    using accepted_only_trans [OF fds(1) that] by simp
  show ?thesis
  proof (cases "fd1 = INVALID_SOCKET \<or> r \<noteq> 0")
    case True
    with assms acc opt fds then_nothing no_delay_frame [OF opt] show ?thesis
      by (intro exI [of _ fds]) (auto simp: connect_client_socket_def Let_def split: if_splits)
  next
    case False
    with assms acc opt have ch: "check_handle fd1 name h s2 = Some (rc, s')" and "fd = fd1"
      by (auto simp: connect_client_socket_def bind_eq_Some_conv)
    moreover have "accepted_only s1 s' []"
      by (rule accepted_only_step [OF no_delay_frame [OF opt] check_handle_frame [OF ch]])
    ultimately show ?thesis using then_nothing fds False by (intro exI [of _ fds]) auto
  qed
qed

lemma connect_control_frame:
  assumes "connect_control h s = Some (rc, fd, s')"
  shows "\<exists>fds. accepted_only s s' fds \<and> valid_fds [fd] = valid_fds fds \<and>
    (rc = OK \<longrightarrow> fds = [fd] \<and> fd \<noteq> INVALID_SOCKET)"
proof -
  obtain fd1 s1 where acc: "sys os_accept s = (fd1, s1)" by fastforce
  from accept_frame [OF this] obtain fds where fds: "accepted_only s s1 fds"
    "valid_fds [fd1] = valid_fds fds" "fd1 \<noteq> INVALID_SOCKET \<longrightarrow> fds = [fd1]" by blast
  have "accepted_only s1 s' [] \<and> fd = fd1 \<and> (rc = OK \<longrightarrow> fd1 \<noteq> INVALID_SOCKET)"
    using assms acc
    by (auto simp: connect_control_def bind_eq_Some_conv split: if_splits option.splits
        dest!: on_drv_frame send_all_frame check_handle_frame
        intro: accepted_only_step accepted_only_step [OF _ accepted_only_step])
  with fds accepted_only_trans [OF fds(1), of s' "[]"] show ?thesis by (intro exI [of _ fds]) auto
qed

text \<open>The whole handshake: after \<open>k\<close> sockets of the five.\<close>

definition handshake_at :: "'h srv \<Rightarrow> nat \<Rightarrow> RETURN_CODE \<times> CLIENT_CONN \<times> 'h srv \<Rightarrow> bool" where
  "handshake_at s0 k o0 \<longleftrightarrow>
     (case o0 of (r, c, s) \<Rightarrow> \<exists>fds. accepted_only s0 s fds \<and> valid_fds (client_fds c) = valid_fds fds \<and>
        (r = OK \<longrightarrow> client_fds c = fds @ replicate (5 - k) INVALID_SOCKET \<and> length fds = k \<and>
           list_all (\<lambda>fd. fd \<noteq> INVALID_SOCKET) fds))"

lemma connect_next_step:
  assumes "handshake_at s0 k o0" and "connect_next h name nagle put o0 = Some o1" and "k < 5"
    and "\<And>fd c. client_fds (put fd c) = (client_fds c)[k := fd]"
  shows "handshake_at s0 (Suc k) o1"
proof -
  obtain r c s where o0: "o0 = (r, c, s)" by (cases o0)
  from assms(1) o0 obtain fds where fds: "accepted_only s0 s fds" "valid_fds (client_fds c) = valid_fds fds"
    "r = OK \<Longrightarrow> client_fds c = fds @ replicate (5 - k) INVALID_SOCKET \<and> length fds = k \<and>
       list_all (\<lambda>fd. fd \<noteq> INVALID_SOCKET) fds"
    by (auto simp: handshake_at_def)
  show ?thesis
  proof (cases "r = OK")
    case False
    with assms(2) o0 fds(1,2) show ?thesis by (auto simp: connect_next_def handshake_at_def)
  next
    case True
    with assms(2) o0 obtain r1 fd s1 where
      s1: "connect_client_socket h name (nagle (conn s)) s = Some (r1, fd, s1)" "o1 = (r1, put fd c, s1)"
      by (auto simp: connect_next_def bind_eq_Some_conv)
    from connect_client_socket_frame [OF s1(1)] obtain fds1 where
      f1: "accepted_only s s1 fds1" "valid_fds [fd] = valid_fds fds1"
        "r1 = OK \<longrightarrow> fds1 = [fd] \<and> fd \<noteq> INVALID_SOCKET" by blast
    have "replicate (5 - k) INVALID_SOCKET = INVALID_SOCKET # replicate (5 - Suc k) INVALID_SOCKET"
      using assms(3) by (simp add: Suc_diff_Suc flip: replicate_Suc)
    with fds(3) [OF True] assms(4) [of fd c]
    have new: "client_fds (put fd c) = fds @ fd # replicate (5 - Suc k) INVALID_SOCKET"
      by (simp add: list_update_append)
    have "valid_fds (replicate n INVALID_SOCKET) = []" for n
      by (induction n) simp_all
    with new f1(2) have "valid_fds (client_fds (put fd c)) = valid_fds (fds @ fds1)"
      by (simp split: if_splits)
    with s1(2) accepted_only_trans [OF fds(1) f1(1)] f1(3) fds(3) [OF True] new show ?thesis
      by (auto simp: handshake_at_def)
  qed
qed

lemma client_fds_put [simp]:
  "client_fds (c\<lparr>mgmt_fd := fd\<rparr>) = (client_fds c)[1 := fd]"
  "client_fds (c\<lparr>mgmt_rsp_fd := fd\<rparr>) = (client_fds c)[2 := fd]"
  "client_fds (c\<lparr>h2t_data_fd := fd\<rparr>) = (client_fds c)[3 := fd]"
  "client_fds (c\<lparr>t2h_data_fd := fd\<rparr>) = (client_fds c)[4 := fd]"
  by (simp_all add: client_fds_def eval_nat_numeral)

lemma handshake_at_then:
  assumes "handshake_at s0 k (r, c, s)" and "accepted_only s s' []" and "r' = OK \<longrightarrow> r = OK"
  shows "handshake_at s0 k (r', c, s')"
proof -
  from assms(1) obtain fds where fds: "accepted_only s0 s fds" "valid_fds (client_fds c) = valid_fds fds"
    "r = OK \<longrightarrow> client_fds c = fds @ replicate (5 - k) INVALID_SOCKET \<and> length fds = k \<and>
       list_all (\<lambda>fd. fd \<noteq> INVALID_SOCKET) fds"
    by (auto simp: handshake_at_def)
  have "accepted_only s0 s' fds" using accepted_only_trans [OF fds(1) assms(2)] by simp
  with fds assms(3) show ?thesis by (auto simp: handshake_at_def)
qed

lemma raw_send_frame: "bytes \<noteq> [] \<Longrightarrow> accepted_only s (snd (sys (os_send fd bytes) s)) []"
  by (cases rule: os_send_cases [of bytes fd "world s"]) (auto simp: sys_result intro: only_tx_accepted)

lemma connect_client_start:
  assumes "connect_client rands mmio CLIENT_CONN_default s = Some (rc, c, s')"
  obtains "rc = INIT_ERR" "c = CLIENT_CONN_default" "accepted_only s s' []"
  | h s1 r1 fd s2 o2 o3 o4 o5 where "accepted_only s s1 []" "connect_control h s1 = Some (r1, fd, s2)"
      "connect_next h MANAGEMENT_SOCK_NAME (\<lambda>_. 0) (\<lambda>fd c. c\<lparr>mgmt_fd := fd\<rparr>)
         (r1, CLIENT_CONN_default\<lparr>ctrl_fd := fd\<rparr>, s2) = Some o2"
      "connect_next h MANAGEMENT_RSP_SOCK_NAME mgmt_rsp_nagle (\<lambda>fd c. c\<lparr>mgmt_rsp_fd := fd\<rparr>) o2 = Some o3"
      "connect_next h H2T_SOCK_NAME (\<lambda>_. 0) (\<lambda>fd c. c\<lparr>h2t_data_fd := fd\<rparr>) o3 = Some o4"
      "connect_next h T2H_SOCK_NAME t2h_nagle (\<lambda>fd c. c\<lparr>t2h_data_fd := fd\<rparr>) o4 = Some o5"
      "fst (snd o5) = c" "accepted_only (snd (snd o5)) s' []" "rc = OK \<longrightarrow> fst o5 = OK"
proof -
  let ?s0 = "upd_stats (\<lambda>_. SERVER_PKT_STATS_default) s"
  have start: "accepted_only s ?s0 []"
    by (simp add: accepted_only_def upd_stats_def world_def)
  from assms obtain h init_rc s1 where
    init: "(case cb_init_driver (hw_callbacks (conn ?s0)) of None \<Rightarrow> Some (0, ?s0)
      | Some f \<Rightarrow> on_drv (f mmio) ?s0) = Some (init_rc, s1)"
    and h: "get_random_id rands = Some h"
    by (auto simp: connect_client_def bind_eq_Some_conv Let_def)
  have s1: "accepted_only s s1 []"
    using init start by (auto split: option.splits dest!: on_drv_frame intro: accepted_only_step)
  show thesis
  proof (cases "init_rc = 0")
    case False
    with assms init h s1 that(1) show ?thesis by (auto simp: connect_client_def Let_def)
  next
    case True
    have not_ready: "take NOT_READY_MSG_LEN NOT_READY_MSG \<noteq> []"
      by (simp add: NOT_READY_MSG_def NOT_READY_MSG_LEN_def lit_def)
    from True assms init h obtain r1 fd s2 o2 o3 o4 r5 c5 s6 where chain:
      "connect_control h s1 = Some (r1, fd, s2)"
      "connect_next h MANAGEMENT_SOCK_NAME (\<lambda>_. 0) (\<lambda>fd c. c\<lparr>mgmt_fd := fd\<rparr>)
         (r1, CLIENT_CONN_default\<lparr>ctrl_fd := fd\<rparr>, s2) = Some o2"
      "connect_next h MANAGEMENT_RSP_SOCK_NAME mgmt_rsp_nagle (\<lambda>fd c. c\<lparr>mgmt_rsp_fd := fd\<rparr>) o2 = Some o3"
      "connect_next h H2T_SOCK_NAME (\<lambda>_. 0) (\<lambda>fd c. c\<lparr>h2t_data_fd := fd\<rparr>) o3 = Some o4"
      "connect_next h T2H_SOCK_NAME t2h_nagle (\<lambda>fd c. c\<lparr>t2h_data_fd := fd\<rparr>) o4 = Some (r5, c5, s6)"
      and last_step: "if r5 \<noteq> OK
       then (rc, c, s') = (FAILURE, c5, if ctrl_fd c5 \<noteq> INVALID_SOCKET
              then snd (sys (os_send (ctrl_fd c5) (take NOT_READY_MSG_LEN NOT_READY_MSG)) s6) else s6)
       else \<exists>r. send_all (ctrl_fd c5) READY_MSG (of_nat READY_MSG_LEN) s6 = Some (r, s') \<and>
              rc = (if r = OK then OK else FAILURE) \<and> c = c5"
      by (auto simp: connect_client_def bind_eq_Some_conv Let_def split: if_splits)
    have "c5 = c \<and> accepted_only s6 s' [] \<and> (rc = OK \<longrightarrow> r5 = OK)"
      using last_step raw_send_frame [OF not_ready]
      by (cases "r5 = OK") (auto split: if_splits dest!: send_all_frame)
    with s1 chain that(2) show ?thesis by simp
  qed
qed

lemma connect_client_frame:
  assumes "connect_client rands mmio CLIENT_CONN_default s = Some (rc, c, s')"
  shows "handshake_at s 5 (rc, c, s')"
  using assms
proof (cases rule: connect_client_start)
  case 1
  then show ?thesis
    by (auto simp: handshake_at_def client_fds_def CLIENT_CONN_default_def intro!: exI [of _ "[]"])
next
  case (2 h s1 r1 fd s2 o2 o3 o4 o5)
  from connect_control_frame [OF 2(2)] obtain fds where fds: "accepted_only s1 s2 fds"
    "valid_fds [fd] = valid_fds fds" "r1 = OK \<longrightarrow> fds = [fd] \<and> fd \<noteq> INVALID_SOCKET" by blast
  have new: "client_fds (CLIENT_CONN_default\<lparr>ctrl_fd := fd\<rparr>) = fd # replicate 4 INVALID_SOCKET"
    by (simp add: client_fds_def CLIENT_CONN_default_def eval_nat_numeral)
  have "valid_fds (replicate n INVALID_SOCKET) = []" for n
    by (induction n) simp_all
  with new fds accepted_only_step [OF 2(1) fds(1)]
  have "handshake_at s 1 (r1, CLIENT_CONN_default\<lparr>ctrl_fd := fd\<rparr>, s2)"
    by (auto simp: handshake_at_def intro!: exI [of _ fds] split: if_splits)
  from connect_next_step [OF this 2(3)] have "handshake_at s 2 o2" by (simp add: eval_nat_numeral)
  from connect_next_step [OF this 2(4)] have "handshake_at s 3 o3" by (simp add: eval_nat_numeral)
  from connect_next_step [OF this 2(5)] have "handshake_at s 4 o4" by (simp add: eval_nat_numeral)
  from connect_next_step [OF this 2(6)] have "handshake_at s 5 o5" by (simp add: eval_nat_numeral)
  then have "handshake_at s 5 (fst o5, c, snd (snd o5))" using 2(7) by (cases o5) auto
  then show ?thesis using 2(8,9) by (rule handshake_at_then)
qed

section \<open>A client that follows the protocol\<close>

text \<open>A conversation on one socket leaves the others, and the results to come, alone.\<close>

definition only_fd :: "int \<Rightarrow> os \<Rightarrow> os \<Rightarrow> bool" where
  "only_fd fd w w' \<longleftrightarrow>
     (\<forall>f. f \<noteq> fd \<longrightarrow> rx w' f = rx w f \<and> tx w' f = tx w f \<and> sent w' f = sent w f) \<and>
     accept_results w' = accept_results w \<and> setsockopt_results w' = setsockopt_results w \<and>
     closed w' = closed w"

lemma only_fd_rx: "only_rx fd w w' \<Longrightarrow> only_fd fd w w'"
  by (auto simp: only_rx_def only_fd_def)

lemma only_fd_tx: "only_tx fd w w' \<Longrightarrow> only_fd fd w w'"
  by (auto simp: only_tx_def only_fd_def)

lemma only_fd_trans: "only_fd fd w w1 \<Longrightarrow> only_fd fd w1 w2 \<Longrightarrow> only_fd fd w w2"
  by (simp add: only_fd_def)

text \<open>The buffers the handshake works in.\<close>

definition ctrl_ready :: "SERVER_BUFFERS \<Rightarrow> bool" where
  "ctrl_ready b \<longleftrightarrow> 64 \<le> length (ctrl_rx_buff b) \<and> 64 \<le> unat (ctrl_tx_buff_sz b) \<and>
     unat (ctrl_tx_buff_sz b) \<le> length (ctrl_tx_buff b)"

lemma generate_expected_result:
  assumes "ctrl_ready b" and "cstr sock_name = Some name" and "length (handle_text name h) < 64"
  shows "generate_expected_handle_message (ctrl_tx_buff b) (ctrl_tx_buff_sz b) sock_name h =
    Some (handle_text name h @ 0 # drop (Suc (length (handle_text name h))) (ctrl_tx_buff b))"
proof -
  have "ctrl_tx_buff_sz b \<noteq> 0" "take (unat (ctrl_tx_buff_sz b) - 1) (handle_text name h) = handle_text name h"
    "Suc (length (handle_text name h)) \<le> length (ctrl_tx_buff b)"
    using assms(1,3) by (auto simp: ctrl_ready_def)
  with assms(2) show ?thesis by (simp add: generate_expected_handle_message_def snprintf_def)
qed

lemma handle_text_no_nul: "0 \<notin> set name \<Longrightarrow> 0 \<notin> set (handle_text name h)"
  by (simp add: handle_text_def dec_int_no_nul str_def)

definition answer :: "bool \<Rightarrow> u8 list" where
  "answer ok = (if ok then lit ''READY'' else lit ''NOT_READY'')"

lemma check_handle_result:
  assumes "stream (rx (world s) fd) = msg @ 0 # rest" and "0 \<notin> set msg" and "length msg < 64"
    and "ctrl_ready (bufs s)" and "cstr sock_name = Some name" and "length (handle_text name h) < 64"
    and "takes_all fd (world s)"
  shows "\<exists>s'. check_handle fd sock_name h s = Some (if msg = handle_text name h then OK else FAILURE, s') \<and>
    sent (world s') fd = sent (world s) fd @ answer (msg = handle_text name h) \<and>
    only_fd fd (world s) (world s') \<and> takes_all fd (world s') \<and> ctrl_ready (bufs s') \<and>
    conn s' = (conn s)\<lparr>s_buff := bufs s'\<rparr> \<and> drv (mach s') = drv (mach s)"
proof -
  let ?b = "ctrl_rx_buff (bufs s)" and ?ok = "msg = handle_text name h"
  have len64: "unat MAX_HANDLE_RSP = 64" by (simp add: MAX_HANDLE_RSP_def)
  have fit: "length msg < unat MAX_HANDLE_RSP" "unat MAX_HANDLE_RSP \<le> length ?b"
    using assms(3,4) by (simp_all add: len64 ctrl_ready_def)
  obtain k junk w where
    k: "socket_recv_until_null_reached fd ?b MAX_HANDLE_RSP (world s) = Some (OK, k, msg @ 0 # junk, w)"
    and lenrx: "length msg + Suc (length junk) = length ?b" and w: "only_rx fd (world s) w"
    by (rule recv_text [OF assms(1,2) fit])
  let ?rx = "msg @ 0 # junk"
  have name0: "0 \<notin> set (handle_text name h)"
    using assms(5) by (intro handle_text_no_nul) (simp add: cstr_Some_iff)
  let ?s1 = "upd_buff (\<lambda>b. b\<lparr>ctrl_rx_buff := ?rx\<rparr>) (set_world w s)"
  have ready1: "ctrl_ready (bufs ?s1)" using assms(4) lenrx by (simp add: ctrl_ready_def)
  let ?tx = "handle_text name h @ 0 # drop (Suc (length (handle_text name h))) (ctrl_tx_buff (bufs ?s1))"
  have gen: "generate_expected_handle_message (ctrl_tx_buff (bufs ?s1)) (ctrl_tx_buff_sz (bufs ?s1)) sock_name h = Some ?tx"
    by (rule generate_expected_result [OF ready1 assms(5,6)])
  have same: "strncmp_eq ?rx ?tx (unat MAX_HANDLE_RSP) = Some ?ok"
    unfolding len64 using assms(2,6) name0 by (intro strncmp_eq_exact)
  let ?s2 = "upd_buff (\<lambda>b. b\<lparr>ctrl_tx_buff := ?tx\<rparr>) ?s1"
  have takes: "takes_all fd (world ?s2)"
    using assms(7) w by (auto simp: takes_all_def only_rx_def)
  have lens: "unat (of_nat READY_MSG_LEN :: size_t) = 6" "unat (of_nat NOT_READY_MSG_LEN :: size_t) = 10"
    by (simp_all add: READY_MSG_LEN_def NOT_READY_MSG_LEN_def)
  have "\<exists>w'. send_all fd (answer ?ok) (if ?ok then of_nat READY_MSG_LEN else of_nat NOT_READY_MSG_LEN) ?s2 =
      Some (OK, set_world w' ?s2) \<and> sent w' fd = sent w fd @ answer ?ok \<and> only_tx fd w w' \<and> takes_all fd w'"
    using send_all_takes [OF takes, of "if ?ok then of_nat READY_MSG_LEN else of_nat NOT_READY_MSG_LEN" "answer ?ok"]
      lens by (auto simp: answer_def)
  then obtain w' where w': "send_all fd (answer ?ok) (if ?ok then of_nat READY_MSG_LEN else of_nat NOT_READY_MSG_LEN) ?s2 =
      Some (OK, set_world w' ?s2)" "sent w' fd = sent w fd @ answer ?ok" "only_tx fd w w'" "takes_all fd w'"
    by blast
  have "check_handle fd sock_name h s = Some (if ?ok then OK else FAILURE, set_world w' ?s2)"
    using k gen same w'(1)
    by (auto simp: check_handle_def answer_def READY_MSG_def NOT_READY_MSG_def Let_def split: if_splits)
  moreover have "only_fd fd (world s) w'"
    using only_fd_rx [OF w] only_fd_tx [OF w'(3)] by (rule only_fd_trans)
  moreover have "sent w fd = sent (world s) fd" using w by (auto simp: only_rx_def)
  moreover have "ctrl_ready (bufs ?s2)" using ready1 assms(6) by (auto simp: ctrl_ready_def)
  moreover have "conn ?s2 = (conn s)\<lparr>s_buff := bufs ?s2\<rparr>" by (simp add: upd_buff_def)
  ultimately show ?thesis
    using w'(2,4) by (intro exI [of _ "set_world w' ?s2"]) simp
qed

text \<open>
  What the operating system has for a client on the sockets still to be connected: the
  connections in order, and on each the message with its name and the handle.
\<close>

definition client_ready :: "int \<Rightarrow> (int \<times> u8 list) list \<Rightarrow> os \<Rightarrow> bool" where
  "client_ready h socks w \<longleftrightarrow>
     accept_results w = map fst socks \<and> setsockopt_results w = [] \<and> distinct (map fst socks) \<and>
     (\<forall>(fd, sock_name) \<in> set socks. fd \<noteq> INVALID_SOCKET \<and> takes_all fd w \<and>
        (\<exists>name rest. cstr sock_name = Some name \<and> length (handle_text name h) < 64 \<and>
           stream (rx w fd) = handle_text name h @ 0 # rest))"

lemma client_ready_step:
  assumes "client_ready h ((fd, sock_name) # socks) w" and "only_fd fd w' w''"
    and "rx w' = rx w" and "tx w' = tx w" and "accept_results w' = tl (accept_results w)"
    and "setsockopt_results w' = []"
  shows "client_ready h socks w''"
proof -
  have "fd \<notin> fst ` set socks" using assms(1) by (simp add: client_ready_def)
  then have "fd \<noteq> fd'" if "(fd', n) \<in> set socks" for fd' n
    using that by force
  then have other: "rx w'' fd' = rx w fd'" "tx w'' fd' = tx w fd'" if "(fd', n) \<in> set socks" for fd' n
    using assms(2-4) that by (auto simp: only_fd_def) metis+
  show ?thesis unfolding client_ready_def
  proof (intro conjI ballI)
    show "accept_results w'' = map fst socks" "setsockopt_results w'' = []" "distinct (map fst socks)"
      using assms by (auto simp: client_ready_def only_fd_def)
  next
    fix x assume x: "x \<in> set socks"
    obtain fd' n where [simp]: "x = (fd', n)" by (cases x)
    show "case x of (fd, sock_name) \<Rightarrow> fd \<noteq> INVALID_SOCKET \<and> takes_all fd w'' \<and>
        (\<exists>name rest. cstr sock_name = Some name \<and> length (handle_text name h) < 64 \<and>
           stream (rx w'' fd) = handle_text name h @ 0 # rest)"
      using assms(1) x other [of fd' n] by (auto simp: client_ready_def takes_all_def)
  qed
qed

lemma connect_client_socket_ok:
  assumes "client_ready h ((fd, sock_name) # socks) (world s)" and "ctrl_ready (bufs s)"
  shows "\<exists>s'. connect_client_socket h sock_name nagle s = Some (OK, fd, s') \<and>
    client_ready h socks (world s') \<and> ctrl_ready (bufs s') \<and> closed (world s') = closed (world s) \<and>
    sent (world s') fd = sent (world s) fd @ lit ''READY'' \<and>
    (\<forall>f. f \<noteq> fd \<longrightarrow> sent (world s') f = sent (world s) f \<and> rx (world s') f = rx (world s) f \<and> tx (world s') f = tx (world s) f) \<and>
    conn s' = (conn s)\<lparr>s_buff := bufs s'\<rparr> \<and> drv (mach s') = drv (mach s)"
proof -
  from assms(1) obtain name rest where nm: "cstr sock_name = Some name" "length (handle_text name h) < 64"
    "stream (rx (world s) fd) = handle_text name h @ 0 # rest" "takes_all fd (world s)"
    and fd: "fd \<noteq> INVALID_SOCKET" "accept_results (world s) = fd # map fst socks" "setsockopt_results (world s) = []"
    by (auto simp: client_ready_def)
  let ?w1 = "(world s)\<lparr>accept_results := tl (accept_results (world s)),
    setsockopt_results := tl (setsockopt_results (world s)),
    options_set := options_set (world s) @ [(fd, Tcp_nodelay (if nagle = 0 then 1 else 0))]\<rparr>"
  let ?s1 = "set_world ?w1 s"
  have open_socket: "connect_client_socket h sock_name nagle s = (do {
      (rc, s3) \<leftarrow> check_handle fd sock_name h ?s1; Some (rc, fd, s3) })"
    using fd by (simp add: connect_client_socket_def sys_calls Let_def)
  have no_nul: "0 \<notin> set (handle_text name h)"
    using nm(1) by (intro handle_text_no_nul) (simp add: cstr_Some_iff)
  have stream1: "stream (rx (world ?s1) fd) = handle_text name h @ 0 # rest" using nm(3) by simp
  have takes1: "takes_all fd (world ?s1)" using nm(4) by (simp add: takes_all_def)
  have ready1: "ctrl_ready (bufs ?s1)" using assms(2) by simp
  from check_handle_result [OF stream1 no_nul nm(2) ready1 nm(1,2) takes1] obtain s' where
    s': "check_handle fd sock_name h ?s1 = Some (OK, s')"
      "sent (world s') fd = sent (world s) fd @ lit ''READY''" "only_fd fd ?w1 (world s')"
      "takes_all fd (world s')" "ctrl_ready (bufs s')" "conn s' = (conn s)\<lparr>s_buff := bufs s'\<rparr>"
      "drv (mach s') = drv (mach s)"
    by (auto simp: answer_def)
  have "client_ready h socks (world s')"
    by (rule client_ready_step [OF assms(1) s'(3)]) (simp_all add: fd)
  with open_socket s' show ?thesis
    by (intro exI [of _ s']) (auto simp: only_fd_def)
qed

lemma welcome_text_no_nul: "0 \<notin> set (welcome_text v b h)"
  by (auto simp: welcome_text_def dec_int_no_nul str_def msg_defs lit_def)

text \<open>The welcome message as it is sent.\<close>

definition welcome_sent :: "int \<Rightarrow> SERVER_BUFFERS \<Rightarrow> int \<Rightarrow> u8 list" where
  "welcome_sent v b h = take (unat (ctrl_tx_buff_sz b) - 1) (welcome_text v b h) @ [0]"

lemma welcome_result:
  assumes "ctrl_ready b"
  obtains txb where
    "generate_server_welcome_message (ctrl_tx_buff b) (ctrl_tx_buff_sz b) v b h = Some txb"
    "strnlen txb (unat (ctrl_tx_buff_sz b)) = Some (length (welcome_sent v b h) - 1)"
    "take (length (welcome_sent v b h)) txb = welcome_sent v b h" "length txb = length (ctrl_tx_buff b)"
    "length (welcome_sent v b h) \<le> length txb"
proof -
  let ?n = "unat (ctrl_tx_buff_sz b)"
  define t where "t = take (?n - 1) (welcome_text v b h)"
  let ?txb = "t @ 0 # drop (Suc (length t)) (ctrl_tx_buff b)"
  have sent_t: "welcome_sent v b h = t @ [0]" by (simp add: welcome_sent_def t_def)
  have sz: "ctrl_tx_buff_sz b \<noteq> 0" "Suc (length t) \<le> length (ctrl_tx_buff b)" "length t \<le> ?n"
    using assms by (auto simp: ctrl_ready_def t_def)
  then have gen: "generate_server_welcome_message (ctrl_tx_buff b) (ctrl_tx_buff_sz b) v b h = Some ?txb"
    by (simp add: generate_server_welcome_message_def snprintf_def t_def)
  have "0 \<notin> set t" using welcome_text_no_nul [of v b h] by (auto simp: t_def dest: in_set_takeD)
  then have "strnlen ?txb ?n = Some (min ?n (length t))" by (rule strnlen_append_nul)
  with gen sz show thesis
    by (intro that [of ?txb]) (simp_all add: sent_t)
qed

lemma send_welcome:
  assumes ready: "ctrl_ready (bufs s)" and takes: "takes_all fd (world s)"
  shows "\<exists>txb n w. generate_server_welcome_message (ctrl_tx_buff (bufs s)) (ctrl_tx_buff_sz (bufs s)) v (bufs s) h = Some txb \<and>
    strnlen txb (unat (ctrl_tx_buff_sz (bufs s))) = Some n \<and>
    send_all fd txb (of_nat n + 1) (upd_buff (\<lambda>b. b\<lparr>ctrl_tx_buff := txb\<rparr>) s) =
      Some (OK, set_world w (upd_buff (\<lambda>b. b\<lparr>ctrl_tx_buff := txb\<rparr>) s)) \<and>
    sent w fd = sent (world s) fd @ welcome_sent v (bufs s) h \<and> only_tx fd (world s) w \<and> takes_all fd w \<and>
    ctrl_ready (bufs (upd_buff (\<lambda>b. b\<lparr>ctrl_tx_buff := txb\<rparr>) s))"
proof -
  let ?wel = "welcome_sent v (bufs s) h"
  from welcome_result [OF ready, of v h] obtain txb where txb:
    "generate_server_welcome_message (ctrl_tx_buff (bufs s)) (ctrl_tx_buff_sz (bufs s)) v (bufs s) h = Some txb"
    "strnlen txb (unat (ctrl_tx_buff_sz (bufs s))) = Some (length ?wel - 1)" "take (length ?wel) txb = ?wel"
    "length txb = length (ctrl_tx_buff (bufs s))" "length ?wel \<le> length txb" by blast
  let ?s1 = "upd_buff (\<lambda>b. b\<lparr>ctrl_tx_buff := txb\<rparr>) s"
  have "length ?wel \<le> unat (ctrl_tx_buff_sz (bufs s))"
    using ready by (auto simp: welcome_sent_def ctrl_ready_def)
  also have "\<dots> < 2 ^ LENGTH(64)" by (rule unsigned_less)
  finally have unlen: "unat (of_nat (length ?wel) :: size_t) = length ?wel" by (intro unat_of_nat_small) simp
  have "0 < length ?wel" by (simp add: welcome_sent_def)
  then have lenw: "of_nat (length ?wel - 1) + 1 = (of_nat (length ?wel) :: size_t)"
    by (cases "length ?wel") simp_all
  have "takes_all fd (world ?s1)" "ctrl_ready (bufs ?s1)" using takes ready txb(4) by (simp_all add: ctrl_ready_def)
  with send_all_takes [of fd ?s1 "of_nat (length ?wel)" txb] unlen txb lenw show ?thesis by auto
qed

lemma send_ready:
  assumes "takes_all fd (world s)"
  shows "\<exists>w. send_all fd READY_MSG (of_nat READY_MSG_LEN) s = Some (OK, set_world w s) \<and>
    sent w fd = sent (world s) fd @ lit ''READY'' \<and> only_tx fd (world s) w"
proof -
  have "unat (of_nat READY_MSG_LEN :: size_t) = 6" by (simp add: READY_MSG_LEN_def)
  with send_all_takes [OF assms, of "of_nat READY_MSG_LEN" READY_MSG] show ?thesis by (auto simp: READY_MSG_def)
qed

lemma connect_control_ok:
  assumes "client_ready h ((fd, CONTROL_SOCK_NAME) # socks) (world s)" and "ctrl_ready (bufs s)"
    and "cb_has_mgmt_support (hw_callbacks (conn s)) = Some support_fn" and "support_fn (drv (mach s)) = Some (v, d)"
  shows "\<exists>s'. connect_control h s = Some (OK, fd, s') \<and>
    client_ready h socks (world s') \<and> ctrl_ready (bufs s') \<and> closed (world s') = closed (world s) \<and>
    sent (world s') fd = sent (world s) fd @ welcome_sent v (bufs s) h @ lit ''READY'' \<and> takes_all fd (world s') \<and>
    (\<forall>f. f \<noteq> fd \<longrightarrow> sent (world s') f = sent (world s) f) \<and> drv (mach s') = d"
proof -
  from assms(1) obtain name rest where nm: "cstr CONTROL_SOCK_NAME = Some name" "length (handle_text name h) < 64"
    "stream (rx (world s) fd) = handle_text name h @ 0 # rest" "takes_all fd (world s)"
    and fd: "fd \<noteq> INVALID_SOCKET" "accept_results (world s) = fd # map fst socks" "setsockopt_results (world s) = []"
    by (auto simp: client_ready_def)
  let ?w1 = "(world s)\<lparr>accept_results := tl (accept_results (world s))\<rparr>"
  let ?s2 = "(set_world ?w1 s)\<lparr>mach := (mach (set_world ?w1 s))\<lparr>drv := d\<rparr>\<rparr>"
  have acc: "sys os_accept s = (fd, set_world ?w1 s)"
    using fd by (simp add: sys_accept)
  have support: "on_drv support_fn (set_world ?w1 s) = Some (v, ?s2)"
    using assms(4) by (simp add: on_drv_def)
  have s2: "bufs ?s2 = bufs s" "world ?s2 = ?w1" "ctrl_ready (bufs ?s2)" "conn ?s2 = conn s"
    using assms(2) by (simp_all add: world_def set_world_def)
  have takes2: "takes_all fd (world ?s2)" using nm(4) s2(2) by (simp add: takes_all_def)
  let ?wel = "welcome_sent v (bufs s) h"
  from send_welcome [OF s2(3) takes2, of v h] obtain txb n w4 where
    txb: "generate_server_welcome_message (ctrl_tx_buff (bufs s)) (ctrl_tx_buff_sz (bufs s)) v (bufs s) h = Some txb"
      "strnlen txb (unat (ctrl_tx_buff_sz (bufs s))) = Some n" and
    w4: "send_all fd txb (of_nat n + 1) (upd_buff (\<lambda>b. b\<lparr>ctrl_tx_buff := txb\<rparr>) ?s2) =
        Some (OK, set_world w4 (upd_buff (\<lambda>b. b\<lparr>ctrl_tx_buff := txb\<rparr>) ?s2))"
      "sent w4 fd = sent (world s) fd @ ?wel" "only_tx fd ?w1 w4" "takes_all fd w4"
    and ready3: "ctrl_ready (bufs (upd_buff (\<lambda>b. b\<lparr>ctrl_tx_buff := txb\<rparr>) ?s2))"
    unfolding s2(1,2) by auto
  let ?s3 = "upd_buff (\<lambda>b. b\<lparr>ctrl_tx_buff := txb\<rparr>) ?s2"
  let ?s4 = "set_world w4 ?s3"
  have no_nul: "0 \<notin> set (handle_text name h)"
    using nm(1) by (intro handle_text_no_nul) (simp add: cstr_Some_iff)
  have stream4: "stream (rx (world ?s4) fd) = handle_text name h @ 0 # rest"
    using nm(3) w4(3) by (auto simp: only_tx_def)
  have ready4: "ctrl_ready (bufs ?s4)" "takes_all fd (world ?s4)" using ready3 w4(4) by simp_all
  from check_handle_result [OF stream4 no_nul nm(2) ready4(1) nm(1,2) ready4(2)] obtain s' where
    s': "check_handle fd CONTROL_SOCK_NAME h ?s4 = Some (OK, s')"
      "sent (world s') fd = sent (world s) fd @ ?wel @ lit ''READY''" "only_fd fd w4 (world s')"
      "takes_all fd (world s')" "ctrl_ready (bufs s')" "drv (mach s') = d"
    using w4(2) by (auto simp: answer_def)
  have all: "only_fd fd ?w1 (world s')"
    using only_fd_tx [OF w4(3)] s'(3) by (rule only_fd_trans)
  have "connect_control h s = Some (OK, fd, s')"
    using acc fd(1) assms(3) support txb s2(1) w4(1) s'(1)
    by (simp add: connect_control_def Let_def)
  moreover have "client_ready h socks (world s')"
    by (rule client_ready_step [OF assms(1) all]) (simp_all add: fd)
  ultimately show ?thesis using all s'(2,4,5,6)
    by (intro exI [of _ s']) (auto simp: only_fd_def)
qed

text \<open>A socket the client is let in on, and all the others left alone.\<close>

definition let_in :: "int \<Rightarrow> (int \<times> u8 list) list \<Rightarrow> int \<Rightarrow> 'h srv \<Rightarrow> 'h srv \<Rightarrow> bool" where
  "let_in h socks fd s s' \<longleftrightarrow>
     client_ready h socks (world s') \<and> ctrl_ready (bufs s') \<and> closed (world s') = closed (world s) \<and>
     sent (world s') fd = sent (world s) fd @ lit ''READY'' \<and>
     (\<forall>f. f \<noteq> fd \<longrightarrow> sent (world s') f = sent (world s) f \<and> tx (world s') f = tx (world s) f)"

lemma connect_next_ok:
  assumes "client_ready h ((fd, sock_name) # socks) (world s)" and "ctrl_ready (bufs s)"
  shows "\<exists>s'. connect_next h sock_name nagle put (OK, c, s) = Some (OK, put fd c, s') \<and> let_in h socks fd s s'"
  using connect_client_socket_ok [OF assms, of "nagle (conn s)"]
  by (auto simp: connect_next_def let_in_def)

lemma let_in_ready:
  "let_in h socks fd s s' \<Longrightarrow> client_ready h socks (world s') \<and> ctrl_ready (bufs s')"
  by (simp add: let_in_def)

text \<open>The four sockets after the control socket.\<close>

lemma connect_rest_ok:
  assumes "client_ready h [(f2, MANAGEMENT_SOCK_NAME), (f3, MANAGEMENT_RSP_SOCK_NAME),
      (f4, H2T_SOCK_NAME), (f5, T2H_SOCK_NAME)] (world s)" and "ctrl_ready (bufs s)"
  shows "\<exists>s'. (do {
       o2 \<leftarrow> connect_next h MANAGEMENT_SOCK_NAME n2 (\<lambda>fd c. c\<lparr>mgmt_fd := fd\<rparr>) (OK, c, s);
       o3 \<leftarrow> connect_next h MANAGEMENT_RSP_SOCK_NAME n3 (\<lambda>fd c. c\<lparr>mgmt_rsp_fd := fd\<rparr>) o2;
       o4 \<leftarrow> connect_next h H2T_SOCK_NAME n4 (\<lambda>fd c. c\<lparr>h2t_data_fd := fd\<rparr>) o3;
       connect_next h T2H_SOCK_NAME n5 (\<lambda>fd c. c\<lparr>t2h_data_fd := fd\<rparr>) o4
     }) = Some (OK, c\<lparr>mgmt_fd := f2, mgmt_rsp_fd := f3, h2t_data_fd := f4, t2h_data_fd := f5\<rparr>, s') \<and>
     closed (world s') = closed (world s) \<and> accept_results (world s') = [] \<and>
     list_all (\<lambda>f. sent (world s') f = sent (world s) f @ lit ''READY'') [f2, f3, f4, f5] \<and>
     (\<forall>f. f \<notin> {f2, f3, f4, f5} \<longrightarrow> sent (world s') f = sent (world s) f \<and> tx (world s') f = tx (world s) f)"
proof -
  from connect_next_ok [OF assms, of n2 "\<lambda>fd c. c\<lparr>mgmt_fd := fd\<rparr>" c] obtain s2 where
    2: "connect_next h MANAGEMENT_SOCK_NAME n2 (\<lambda>fd c. c\<lparr>mgmt_fd := fd\<rparr>) (OK, c, s) =
      Some (OK, c\<lparr>mgmt_fd := f2\<rparr>, s2)"
    "let_in h [(f3, MANAGEMENT_RSP_SOCK_NAME), (f4, H2T_SOCK_NAME), (f5, T2H_SOCK_NAME)] f2 s s2" by blast
  from connect_next_ok [OF let_in_ready [OF 2(2), THEN conjunct1] let_in_ready [OF 2(2), THEN conjunct2],
      of n3 "\<lambda>fd c. c\<lparr>mgmt_rsp_fd := fd\<rparr>" "c\<lparr>mgmt_fd := f2\<rparr>"] obtain s3 where
    3: "connect_next h MANAGEMENT_RSP_SOCK_NAME n3 (\<lambda>fd c. c\<lparr>mgmt_rsp_fd := fd\<rparr>) (OK, c\<lparr>mgmt_fd := f2\<rparr>, s2) =
       Some (OK, c\<lparr>mgmt_fd := f2, mgmt_rsp_fd := f3\<rparr>, s3)"
    "let_in h [(f4, H2T_SOCK_NAME), (f5, T2H_SOCK_NAME)] f3 s2 s3" by auto
  from connect_next_ok [OF let_in_ready [OF 3(2), THEN conjunct1] let_in_ready [OF 3(2), THEN conjunct2],
      of n4 "\<lambda>fd c. c\<lparr>h2t_data_fd := fd\<rparr>" "c\<lparr>mgmt_fd := f2, mgmt_rsp_fd := f3\<rparr>"]
  obtain s4 where
    4: "connect_next h H2T_SOCK_NAME n4 (\<lambda>fd c. c\<lparr>h2t_data_fd := fd\<rparr>) (OK, c\<lparr>mgmt_fd := f2, mgmt_rsp_fd := f3\<rparr>, s3) =
       Some (OK, c\<lparr>mgmt_fd := f2, mgmt_rsp_fd := f3, h2t_data_fd := f4\<rparr>, s4)"
    "let_in h [(f5, T2H_SOCK_NAME)] f4 s3 s4" by auto
  from connect_next_ok [OF let_in_ready [OF 4(2), THEN conjunct1] let_in_ready [OF 4(2), THEN conjunct2],
      of n5 "\<lambda>fd c. c\<lparr>t2h_data_fd := fd\<rparr>" "c\<lparr>mgmt_fd := f2, mgmt_rsp_fd := f3, h2t_data_fd := f4\<rparr>"]
  obtain s5 where
    5: "connect_next h T2H_SOCK_NAME n5 (\<lambda>fd c. c\<lparr>t2h_data_fd := fd\<rparr>)
       (OK, c\<lparr>mgmt_fd := f2, mgmt_rsp_fd := f3, h2t_data_fd := f4\<rparr>, s4) =
       Some (OK, c\<lparr>mgmt_fd := f2, mgmt_rsp_fd := f3, h2t_data_fd := f4, t2h_data_fd := f5\<rparr>, s5)"
    "let_in h [] f5 s4 s5" by auto
  have "distinct [f2, f3, f4, f5]" using assms(1) by (simp add: client_ready_def)
  with 2 3 4 5 show ?thesis
    by (intro exI [of _ s5]) (auto simp: let_in_def client_ready_def)
qed

lemma connect_client_ok:
  assumes "client_ready h [(f1, CONTROL_SOCK_NAME), (f2, MANAGEMENT_SOCK_NAME),
      (f3, MANAGEMENT_RSP_SOCK_NAME), (f4, H2T_SOCK_NAME), (f5, T2H_SOCK_NAME)] (world s)"
    and "ctrl_ready (bufs s)" and "get_random_id rands = Some h"
    and "cb_init_driver (hw_callbacks (conn s)) = Some init" and "init mmio (drv (mach s)) = Some (0, d)"
    and "cb_has_mgmt_support (hw_callbacks (conn s)) = Some support" and "support d = Some (v, d')"
  shows "\<exists>s'. connect_client rands mmio CLIENT_CONN_default s =
      Some (OK, \<lparr>ctrl_fd = f1, mgmt_fd = f2, mgmt_rsp_fd = f3, h2t_data_fd = f4, t2h_data_fd = f5\<rparr>, s') \<and>
    accept_results (world s') = [] \<and> closed (world s') = closed (world s) \<and>
    sent (world s') f1 = sent (world s) f1 @ welcome_sent v (bufs s) h @ lit ''READY'' @ lit ''READY'' \<and>
    list_all (\<lambda>f. sent (world s') f = sent (world s) f @ lit ''READY'') [f2, f3, f4, f5]"
proof -
  let ?s1 = "(upd_stats (\<lambda>_. SERVER_PKT_STATS_default) s)\<lparr>mach := (mach s)\<lparr>drv := d\<rparr>\<rparr>"
  have s1: "world ?s1 = world s" "bufs ?s1 = bufs s" "mach (upd_stats (\<lambda>_. SERVER_PKT_STATS_default) s) = mach s"
    "hw_callbacks (conn ?s1) = hw_callbacks (conn s)" "drv (mach ?s1) = d"
    "hw_callbacks (conn (upd_stats (\<lambda>_. SERVER_PKT_STATS_default) s)) = hw_callbacks (conn s)"
    by (simp_all add: world_def upd_stats_def)
  have diff: "distinct [f1, f2, f3, f4, f5]" using assms(1) by (simp add: client_ready_def)
  have init: "on_drv (init mmio) (upd_stats (\<lambda>_. SERVER_PKT_STATS_default) s) = Some (0, ?s1)"
    using assms(5) s1 by (simp add: on_drv_def)
  let ?rest = "[(f2, MANAGEMENT_SOCK_NAME), (f3, MANAGEMENT_RSP_SOCK_NAME), (f4, H2T_SOCK_NAME), (f5, T2H_SOCK_NAME)]"
  from connect_control_ok [of h f1 ?rest ?s1 support v d'] assms s1 obtain s2 where
    2: "connect_control h ?s1 = Some (OK, f1, s2)" "client_ready h ?rest (world s2)" "ctrl_ready (bufs s2)"
      "closed (world s2) = closed (world s)" "takes_all f1 (world s2)"
      "sent (world s2) f1 = sent (world s) f1 @ welcome_sent v (bufs s) h @ lit ''READY''"
      "\<forall>f. f \<noteq> f1 \<longrightarrow> sent (world s2) f = sent (world s) f"
    by auto
  from connect_rest_ok [OF 2(2,3), of "\<lambda>_. 0" "CLIENT_CONN_default\<lparr>ctrl_fd := f1\<rparr>" mgmt_rsp_nagle "\<lambda>_. 0" t2h_nagle]
  obtain o2 o3 o4 s6 where 3:
    "connect_next h MANAGEMENT_SOCK_NAME (\<lambda>_. 0) (\<lambda>fd c. c\<lparr>mgmt_fd := fd\<rparr>)
       (OK, CLIENT_CONN_default\<lparr>ctrl_fd := f1\<rparr>, s2) = Some o2"
    "connect_next h MANAGEMENT_RSP_SOCK_NAME mgmt_rsp_nagle (\<lambda>fd c. c\<lparr>mgmt_rsp_fd := fd\<rparr>) o2 = Some o3"
    "connect_next h H2T_SOCK_NAME (\<lambda>_. 0) (\<lambda>fd c. c\<lparr>h2t_data_fd := fd\<rparr>) o3 = Some o4"
    "connect_next h T2H_SOCK_NAME t2h_nagle (\<lambda>fd c. c\<lparr>t2h_data_fd := fd\<rparr>) o4 =
       Some (OK, CLIENT_CONN_default\<lparr>ctrl_fd := f1, mgmt_fd := f2, mgmt_rsp_fd := f3, h2t_data_fd := f4,
         t2h_data_fd := f5\<rparr>, s6)"
    and 6: "closed (world s6) = closed (world s2)" "accept_results (world s6) = []"
      "list_all (\<lambda>f. sent (world s6) f = sent (world s2) f @ lit ''READY'') [f2, f3, f4, f5]"
      "sent (world s6) f1 = sent (world s2) f1" "tx (world s6) f1 = tx (world s2) f1"
    using diff by (auto simp: bind_eq_Some_conv)
  have takes6: "takes_all f1 (world s6)" using 2(5) 6(5) by (simp add: takes_all_def)
  from send_ready [OF takes6] obtain w7 where
    7: "send_all f1 READY_MSG (of_nat READY_MSG_LEN) s6 = Some (OK, set_world w7 s6)"
      "sent w7 f1 = sent (world s6) f1 @ lit ''READY''" "only_tx f1 (world s6) w7" by blast
  have "connect_client rands mmio CLIENT_CONN_default s =
      Some (OK, CLIENT_CONN_default\<lparr>ctrl_fd := f1, mgmt_fd := f2, mgmt_rsp_fd := f3, h2t_data_fd := f4,
         t2h_data_fd := f5\<rparr>, set_world w7 s6)"
    using assms(3,4) s1(6) init 2(1) 3 7(1) by (simp add: connect_client_def Let_def)
  moreover have "sent w7 f = sent (world s6) f" if "f \<noteq> f1" for f
    using 7(3) that by (auto simp: only_tx_def)
  moreover have "closed w7 = closed (world s6)" "accept_results w7 = accept_results (world s6)"
    using 7(3) by (auto simp: only_tx_def)
  ultimately show ?thesis
    using 2(4,6,7) 7(2) 6 diff
    by (intro exI [of _ "set_world w7 s6"]) (auto simp: CLIENT_CONN_default_def)
qed

section \<open>Properties\<close>

text \<open>
  Disconnecting a client closes each of its sockets that was opened exactly once, in a fixed
  order, and no other; it reports \<open>OK\<close> exactly when every one of these calls succeeded, and one
  that fails does not keep the later sockets open.
\<close>

theorem close_client_closes_each_once:
  "\<exists>rc w. close_client_conn c s = (rc, set_world w s) \<and>
    closed w = closed (world s) @ valid_fds (client_fds c) \<and>
    sent w = sent (world s) \<and> rx w = rx (world s) \<and>
    (rc = (if list_all (\<lambda>r. r = 0) (take (length (valid_fds (client_fds c))) (close_results (world s)))
           then OK else FAILURE))"
  using close_seq_result [of "client_fds c" s] by (auto simp: close_client_conn_seq)

text \<open>
  C35. A client that comes while another is served is told so and turned away: the socket is given the
  rejection message, of which it takes as many bytes as it accepts at once, the whole message unless the
  next send on it is cut short or fails; then the connection is closed, with no lingering. No other socket
  and no other state changes.
\<close>

theorem reject_client_isolated:
  assumes "accept_results (world s) = fd # rest" and "fd \<noteq> INVALID_SOCKET"
  shows "\<exists>w. reject_client s = set_world w s \<and> accept_results w = rest \<and>
    sent w fd = sent (world s) fd @
      (case tx (world s) fd of [] \<Rightarrow> lit ''SERVER_BUSY'' | r # rs \<Rightarrow> take (nat r) (lit ''SERVER_BUSY'')) \<and>
    tx w fd = tl (tx (world s) fd) \<and>
    options_set w = options_set (world s) @ [(fd, Linger 1 0)] \<and> closed w = closed (world s) @ [fd] \<and>
    (\<forall>f. f \<noteq> fd \<longrightarrow> sent w f = sent (world s) f \<and> tx w f = tx (world s) f) \<and> rx w = rx (world s)"
proof -
  let ?w1 = "(world s)\<lparr>accept_results := rest\<rparr>"
  have acc: "sys os_accept s = (fd, set_world ?w1 s)"
    using assms(1) by (simp add: sys_def os_accept_def pop_def)
  have msg: "take 12 REJECT_MSG = lit ''SERVER_BUSY''" by (simp add: REJECT_MSG_def lit_def)
  obtain r w2 where w2: "os_send fd (lit ''SERVER_BUSY'') ?w1 = (r, w2)" by fastforce
  then have "only_tx fd ?w1 w2"
    using os_send_cases [of "lit ''SERVER_BUSY''" fd ?w1] by (auto simp: lit_def)
  then have other: "accept_results w2 = rest" "closed w2 = closed (world s)" "rx w2 = rx (world s)"
    "options_set w2 = options_set (world s)" "f \<noteq> fd \<Longrightarrow> sent w2 f = sent (world s) f \<and> tx w2 f = tx (world s) f" for f
    by (auto simp: only_tx_def)
  have told: "sent w2 fd = sent (world s) fd @
      (case tx (world s) fd of [] \<Rightarrow> lit ''SERVER_BUSY'' | r # rs \<Rightarrow> take (nat r) (lit ''SERVER_BUSY''))"
    "tx w2 fd = tl (tx (world s) fd)"
    using w2 by (auto simp: os_send_def split: list.splits if_splits)
  let ?w = "w2\<lparr>setsockopt_results := tl (setsockopt_results w2),
    options_set := options_set w2 @ [(fd, Linger 1 0)],
    close_results := tl (close_results w2), closed := closed w2 @ [fd]\<rparr>"
  have "sys (os_send fd (lit ''SERVER_BUSY'')) (set_world ?w1 s) = (r, set_world w2 s)"
    using w2 by (simp add: sys_def)
  then have "reject_client s = set_world ?w s"
    using acc assms(2) by (simp add: reject_client_def sys_calls msg)
  then show ?thesis
    using told other by (intro exI [of _ ?w]) simp
qed

lemma reject_client_isolated_witness:
  "\<exists>w. reject_client \<lparr>mach = \<lparr>drv = driver_start \<lparr>interfaces = empty_vec, device = ()\<rparr>,
      osys = quiet_os\<lparr>accept_results := [9]\<rparr>, g_socket_recv_buff = None, g_socket_send_buff = None\<rparr>,
      conn = SERVER_CONN_default\<rparr> = set_world w \<lparr>mach = \<lparr>drv = driver_start \<lparr>interfaces = empty_vec, device = ()\<rparr>,
      osys = quiet_os\<lparr>accept_results := [9]\<rparr>, g_socket_recv_buff = None, g_socket_send_buff = None\<rparr>,
      conn = SERVER_CONN_default\<rparr> \<and> closed w = [9] \<and> sent w 9 = lit ''SERVER_BUSY''"
  using reject_client_isolated [of "\<lparr>mach = \<lparr>drv = driver_start \<lparr>interfaces = empty_vec, device = ()\<rparr>,
      osys = quiet_os\<lparr>accept_results := [9]\<rparr>, g_socket_recv_buff = None, g_socket_send_buff = None\<rparr>,
      conn = SERVER_CONN_default\<rparr>" 9 "[]"]
  by (auto simp: world_def quiet_os_def INVALID_SOCKET_def)

text \<open>
  C8. A client that follows the protocol (connects its five sockets in order and sends on each the
  message with its name and the handle of the session) is let in when the driver starts: the
  handshake ends with \<open>OK\<close>, the client record holds the five sockets in order, the control socket got
  the welcome message and \<open>READY\<close> twice (for its own handle and when all are connected), each other
  socket got \<open>READY\<close> once, and nothing was closed.
\<close>

theorem client_connects:
  assumes "client_ready h [(f1, CONTROL_SOCK_NAME), (f2, MANAGEMENT_SOCK_NAME),
      (f3, MANAGEMENT_RSP_SOCK_NAME), (f4, H2T_SOCK_NAME), (f5, T2H_SOCK_NAME)] (world s)"
    and "ctrl_ready (bufs s)" and "get_random_id rands = Some h"
    and "cb_init_driver (hw_callbacks (conn s)) = Some init" and "init mmio (drv (mach s)) = Some (0, d)"
    and "cb_has_mgmt_support (hw_callbacks (conn s)) = Some support" and "support d = Some (v, d')"
  shows "\<exists>s'. connect_client rands mmio CLIENT_CONN_default s =
      Some (OK, \<lparr>ctrl_fd = f1, mgmt_fd = f2, mgmt_rsp_fd = f3, h2t_data_fd = f4, t2h_data_fd = f5\<rparr>, s') \<and>
    accept_results (world s') = [] \<and> closed (world s') = closed (world s) \<and>
    sent (world s') f1 = sent (world s) f1 @ welcome_sent v (bufs s) h @ lit ''READY'' @ lit ''READY'' \<and>
    list_all (\<lambda>f. sent (world s') f = sent (world s) f @ lit ''READY'') [f2, f3, f4, f5]"
  by (rule connect_client_ok [OF assms])

text \<open>A client with handle 7 on the sockets 20 to 24, and a server ready for it.\<close>

definition demo_client :: os where
  "demo_client = quiet_os\<lparr>accept_results := [20, 21, 22, 23, 24],
     rx := (\<lambda>_. [])(20 := [Data (handle_text (butlast CONTROL_SOCK_NAME) 7 @ [0])],
       21 := [Data (handle_text (butlast MANAGEMENT_SOCK_NAME) 7 @ [0])],
       22 := [Data (handle_text (butlast MANAGEMENT_RSP_SOCK_NAME) 7 @ [0])],
       23 := [Data (handle_text (butlast H2T_SOCK_NAME) 7 @ [0])],
       24 := [Data (handle_text (butlast T2H_SOCK_NAME) 7 @ [0])])\<rparr>"

definition demo_srv :: "unit srv" where
  "demo_srv = \<lparr>mach = \<lparr>drv = driver_start \<lparr>interfaces = empty_vec, device = ()\<rparr>,
       osys = demo_client, g_socket_recv_buff = None, g_socket_send_buff = None\<rparr>,
     conn = SERVER_CONN_default\<lparr>server_fd := 3, s_buff := start_buffers (get_design_info
         \<lparr>cxt_mmio_handle = 1, h2t_t2h_mem_size = 2048, cxt_port = 0\<rparr>),
       hw_callbacks := SERVER_HW_CALLBACKS_default\<lparr>cb_init_driver := Some (\<lambda>_ d. Some (0, d)),
         cb_has_mgmt_support := Some (\<lambda>d. Some (0, d))\<rparr>\<rparr>\<rparr>"

lemma handle_7: "dec_int 7 = [55]"
  by (simp add: dec_int_def dec_nat.simps digit_def)

lemma demo_ready:
  "client_ready 7 [(20, CONTROL_SOCK_NAME), (21, MANAGEMENT_SOCK_NAME),
      (22, MANAGEMENT_RSP_SOCK_NAME), (23, H2T_SOCK_NAME), (24, T2H_SOCK_NAME)] (world demo_srv)"
  "ctrl_ready (bufs demo_srv)" "get_random_id (\<lambda>_. 7) = Some 7"
  subgoal
    by (simp add: client_ready_def demo_srv_def demo_client_def world_def quiet_os_def INVALID_SOCKET_def
        takes_all_def handle_text_def handle_7 lit_def str_def CONTROL_SOCK_NAME_def MANAGEMENT_SOCK_NAME_def
        MANAGEMENT_RSP_SOCK_NAME_def H2T_SOCK_NAME_def T2H_SOCK_NAME_def)
  subgoal
    by (simp add: ctrl_ready_def demo_srv_def start_buffers_def CTRL_RX_BUFF_SZ_def CTRL_TX_BUFF_SZ_def)
  subgoal using get_random_id_first [of "\<lambda>_. 7" 0] by simp
  done

lemma client_connects_witness:
  "\<exists>s'. connect_client (\<lambda>_. 7) 1 CLIENT_CONN_default demo_srv =
     Some (OK, \<lparr>ctrl_fd = 20, mgmt_fd = 21, mgmt_rsp_fd = 22, h2t_data_fd = 23, t2h_data_fd = 24\<rparr>, s') \<and>
     closed (world s') = []"
  using client_connects [OF demo_ready, of "\<lambda>_ d. Some (0, d)" 1 "drv (mach demo_srv)" "\<lambda>d. Some (0, d)" 0
      "drv (mach demo_srv)"]
  by (auto simp: demo_srv_def world_def demo_client_def quiet_os_def)

text \<open>
  Whatever the clients send, and whichever call fails: the handshake takes connections only
  from the listening socket, in the order in which they come, keeps each valid one in the client
  record (so that disconnecting closes it), and closes none; it ends with \<open>OK\<close> only when the five
  sockets of the record are five valid connections, in the order control, management, management
  response, host to target, target to host.
\<close>

theorem connect_client_sockets:
  assumes "connect_client rands mmio CLIENT_CONN_default s = Some (rc, c, s')"
  shows "\<exists>fds. accept_results (world s) = fds @ accept_results (world s') \<and>
    closed (world s') = closed (world s) \<and> valid_fds (client_fds c) = valid_fds fds \<and>
    (rc \<noteq> OK \<or> client_fds c = fds \<and> list_all (\<lambda>fd. fd \<noteq> INVALID_SOCKET) fds)"
  using connect_client_frame [OF assms] by (fastforce simp: handshake_at_def accepted_only_def)

lemma connect_client_sockets_witness:
  "\<exists>fds s'. connect_client (\<lambda>_. 7) 1 CLIENT_CONN_default (set_world quiet_os demo_srv) =
     Some (FAILURE, CLIENT_CONN_default, s') \<and> valid_fds fds = [] \<and>
     accept_results (world (set_world quiet_os demo_srv)) = fds @ accept_results (world s')"
proof -
  have "\<exists>s'. connect_client (\<lambda>_. 7) 1 CLIENT_CONN_default (set_world quiet_os demo_srv) =
     Some (FAILURE, CLIENT_CONN_default, s')"
    using demo_ready(3)
    by (simp add: connect_client_def Let_def demo_srv_def upd_stats_def set_world_def on_drv_def connect_control_def
      sys_accept world_def quiet_os_def connect_next_def INVALID_SOCKET_def CLIENT_CONN_default_def)
  then obtain s' where s': "connect_client (\<lambda>_. 7) 1 CLIENT_CONN_default (set_world quiet_os demo_srv) =
     Some (FAILURE, CLIENT_CONN_default, s')" ..
  from connect_client_sockets [OF s'] s' show ?thesis
    by (auto simp: client_fds_def CLIENT_CONN_default_def)
qed

text \<open>
  C25. A handle message is decided exactly: with any text of fewer than 64 bytes and its terminator on
  the socket, the answer is \<open>OK\<close> and \<open>READY\<close> if the text is the expected one, and otherwise
  \<open>FAILURE\<close> and \<open>NOT_READY\<close>; nothing is sent to another socket and none is closed.
\<close>

theorem check_handle_decides:
  assumes "stream (rx (world s) fd) = msg @ 0 # rest" and "0 \<notin> set msg" and "length msg < 64"
    and "ctrl_ready (bufs s)" and "cstr sock_name = Some name" and "length (handle_text name h) < 64"
    and "takes_all fd (world s)"
  shows "\<exists>s'. check_handle fd sock_name h s = Some (if msg = handle_text name h then OK else FAILURE, s') \<and>
    sent (world s') = (sent (world s))(fd := sent (world s) fd @
      (if msg = handle_text name h then lit ''READY'' else lit ''NOT_READY'')) \<and>
    closed (world s') = closed (world s)"
  using check_handle_result [OF assms] by (auto simp: only_fd_def answer_def fun_eq_iff)

lemma check_handle_decides_witness:
  "\<exists>s'. check_handle 20 H2T_SOCK_NAME 7 demo_srv = Some (FAILURE, s') \<and>
    sent (world s') 20 = lit ''NOT_READY''"
proof -
  have "\<exists>s'. check_handle 20 H2T_SOCK_NAME 7 demo_srv =
      Some (if handle_text (str ''Control'') 7 = handle_text (str ''H2T'') 7 then OK else FAILURE, s') \<and>
    sent (world s') = (sent (world demo_srv))(20 := sent (world demo_srv) 20 @
      (if handle_text (str ''Control'') 7 = handle_text (str ''H2T'') 7 then lit ''READY'' else lit ''NOT_READY'')) \<and>
    closed (world s') = closed (world demo_srv)"
  proof (rule check_handle_decides [where rest = "[]"])
    show "stream (rx (world demo_srv) 20) = handle_text (str ''Control'') 7 @ 0 # []"
      by (simp add: demo_srv_def demo_client_def world_def handle_text_def CONTROL_SOCK_NAME_def lit_def str_def)
    show "ctrl_ready (bufs demo_srv)" by (rule demo_ready(2))
  qed (simp_all add: handle_text_def handle_7 H2T_SOCK_NAME_def lit_def str_def takes_all_def
      demo_srv_def demo_client_def world_def quiet_os_def)
  then show ?thesis
    by (auto simp: handle_text_def str_def demo_srv_def world_def demo_client_def quiet_os_def)
qed

text \<open>
  Opening the listening socket succeeds or leaves nothing open: on \<open>FAILURE\<close>, whichever call
  failed, no valid socket is left in the connection and one that was created is closed once.
\<close>

theorem bind_server_socket_all_or_nothing:
  "\<exists>rc s'. bind_server_socket s = (rc, s') \<and>
     (if rc = OK
      then server_fd (conn s') \<noteq> INVALID_SOCKET \<and> closed (world s') = closed (world s) \<and>
           socket_results (world s) = server_fd (conn s') # socket_results (world s')
      else rc = FAILURE \<and> server_fd (conn s') = INVALID_SOCKET \<and>
           closed (world s') = closed (world s) @ valid_fds (take 1 (socket_results (world s))))"
proof (cases "socket_results (world s)")
  case Nil
  then show ?thesis
    by (simp add: bind_server_socket_def Let_def sys_def os_socket_def pop_eq world_def set_world_def)
next
  case (Cons fd fds)
  then show ?thesis
    by (simp add: bind_server_socket_def Let_def sys_def os_socket_def os_bind_def os_listen_def
        set_boolean_socket_option_def os_setsockopt_def close_socket_fd_def os_close_def pop_eq
        world_def set_world_def)
qed

end
