(* ===== verification/Loop_Laws.thy ===== *)
theory Loop_Laws
  imports Server_Loop Handshake_Laws "HOL-Library.Multiset" Descriptor_Ring
begin

text \<open>
  What the server keeps over whole sessions: the sockets. Serving a client opens and closes nothing
  but the connections that are turned away, so that every connection that was ever taken from the
  listening socket is closed exactly once, whatever the clients and the driver do.
\<close>

section \<open>Serving leaves the connections alone\<close>

definition keeps_open :: "'h srv \<Rightarrow> 'h srv \<Rightarrow> bool" where
  "keeps_open s s' \<longleftrightarrow> accept_results (world s') = accept_results (world s) \<and>
     closed (world s') = closed (world s) \<and> server_fd (conn s') = server_fd (conn s)"

lemma keeps_open_refl [simp]: "keeps_open s s"
  by (simp add: keeps_open_def)

lemma keeps_open_trans [trans]: "keeps_open s s1 \<Longrightarrow> keeps_open s1 s2 \<Longrightarrow> keeps_open s s2"
  by (simp add: keeps_open_def)

lemma keeps_open_upd [simp]:
  "keeps_open s (upd_buff f s') = keeps_open s s'" "keeps_open s (upd_stats g s') = keeps_open s s'"
  "keeps_open (upd_buff f s) s' = keeps_open s s'" "keeps_open (upd_stats g s) s' = keeps_open s s'"
  "keeps_open s (s'\<lparr>conn := (conn s')\<lparr>h2t_waiting := b\<rparr>\<rparr>) = keeps_open s s'"
  "keeps_open s (s'\<lparr>conn := (conn s')\<lparr>mgmt_waiting := b\<rparr>\<rparr>) = keeps_open s s'"
  "keeps_open (s\<lparr>conn := (conn s)\<lparr>h2t_waiting := b\<rparr>\<rparr>) s' = keeps_open s s'"
  "keeps_open (s\<lparr>conn := (conn s)\<lparr>mgmt_waiting := b\<rparr>\<rparr>) s' = keeps_open s s'"
  "keeps_open s (s'\<lparr>conn := (conn s')\<lparr>loopback_mode := x\<rparr>\<rparr>) = keeps_open s s'"
  "keeps_open s (s'\<lparr>conn := (conn s')\<lparr>t2h_nagle := x\<rparr>\<rparr>) = keeps_open s s'"
  "keeps_open s (s'\<lparr>conn := (conn s')\<lparr>mgmt_rsp_nagle := x\<rparr>\<rparr>) = keeps_open s s'"
  "keeps_open s (s'\<lparr>mach := (mach s')\<lparr>drv := d\<rparr>\<rparr>) = keeps_open s s'"
  "keeps_open (s\<lparr>mach := (mach s)\<lparr>drv := d\<rparr>\<rparr>) s' = keeps_open s s'"
  by (auto simp: keeps_open_def upd_buff_def upd_stats_def world_def)

lemma accepted_only_keeps: "accepted_only s s' [] \<Longrightarrow> keeps_open s s'"
  by (simp add: accepted_only_def keeps_open_def)

text \<open>
  A computation that keeps them, from \<open>s\<close> on; \<open>st\<close> is the state in its result. The rules follow the
  structure of the code.
\<close>

definition keeping :: "('a \<Rightarrow> 'h srv) \<Rightarrow> 'h srv \<Rightarrow> 'a option \<Rightarrow> bool" where
  "keeping st s m \<longleftrightarrow> (\<forall>x. m = Some x \<longrightarrow> keeps_open s (st x))"

named_theorems keeping_rules \<open>computations that leave the connections alone\<close>

lemma keeping_None [simp]: "keeping st s None"
  by (simp add: keeping_def)

lemma keeping_Some [simp]: "keeping st s (Some x) = keeps_open s (st x)"
  by (simp add: keeping_def)

lemma keeping_step [keeping_rules]:
  "keeping snd s m \<Longrightarrow> (\<And>r s1. keeps_open s s1 \<Longrightarrow> keeping st s (f (r, s1))) \<Longrightarrow> keeping st s (m \<bind> f)"
  by (auto simp: keeping_def bind_eq_Some_conv)

lemma keeping_step_flag [keeping_rules]:
  "keeping (\<lambda>x. snd (snd x)) s m \<Longrightarrow> (\<And>r b s1. keeps_open s s1 \<Longrightarrow> keeping st s (f (r, b, s1))) \<Longrightarrow>
    keeping st s (m \<bind> f)"
  by (auto simp: keeping_def bind_eq_Some_conv)

lemma keeping_pure:
  fixes m :: "'pure option"
  shows "(\<And>x. keeping st s (f x)) \<Longrightarrow> keeping st s (m \<bind> f)"
  by (auto simp: keeping_def bind_eq_Some_conv)

text \<open>The computations without a state.\<close>

lemmas keeping_pure_steps [keeping_rules] =
  keeping_pure [where 'pure = bool] keeping_pure [where 'pure = nat] keeping_pure [where 'pure = "u8 list"]
  keeping_pure [where 'pure = "nat option"] keeping_pure [where 'pure = "int option"]
  keeping_pure [where 'pure = unit] keeping_pure [where 'pure = H2T_PACKET_HEADER] keeping_pure [where 'pure = MGMT_PACKET_HEADER]

lemma keeping_text_pair [keeping_rules]:
  fixes p :: "u8 list \<times> nat"
  shows "(\<And>a b. keeping st s (f a b)) \<Longrightarrow> keeping st s (case p of (a, b) \<Rightarrow> f a b)"
  by (cases p) simp

lemma keeping_pair [keeping_rules]:
  "keeping st s (f a b) \<Longrightarrow> keeping st s (case (a, b) of (a, b) \<Rightarrow> f a b)"
  by simp

lemma keeping_if [keeping_rules]:
  "(c \<Longrightarrow> keeping st s m) \<Longrightarrow> (\<not> c \<Longrightarrow> keeping st s m') \<Longrightarrow> keeping st s (if c then m else m')"
  by simp

lemma keeping_option [keeping_rules]:
  "(o1 = None \<Longrightarrow> keeping st s m) \<Longrightarrow> (\<And>x. o1 = Some x \<Longrightarrow> keeping st s (f x)) \<Longrightarrow>
    keeping st s (case o1 of None \<Rightarrow> m | Some x \<Rightarrow> f x)"
  by (cases o1) simp_all

lemma send_all_keeps [keeping_rules]: "keeps_open s s1 \<Longrightarrow> keeping snd s (send_all fd bytes len s1)"
  by (auto simp: keeping_def dest!: send_all_frame accepted_only_keeps intro: keeps_open_trans)

lemma on_drv_keeps [keeping_rules]: "keeps_open s s1 \<Longrightarrow> keeping snd s (on_drv f s1)"
  by (auto simp: keeping_def dest!: on_drv_frame accepted_only_keeps intro: keeps_open_trans)

lemma keeping_no_delay [keeping_rules]:
  "(\<And>r s2. keeps_open s1 s2 \<Longrightarrow> keeping st s (f r s2)) \<Longrightarrow>
    keeping st s (case sys (set_tcp_no_delay fd x) s1 of (r, s2) \<Rightarrow> f r s2)"
  by (cases "sys (set_tcp_no_delay fd x) s1") (auto dest!: no_delay_frame accepted_only_keeps)

lemma keeping_recv [keeping_rules]:
  assumes "keeps_open s s1"
    and "\<And>rc n b w. keeps_open s (set_world w s1) \<Longrightarrow> keeping st s (f (rc, n, b, w))"
  shows "keeping st s (socket_recv_accumulate fd buff len (world s1) \<bind> f)"
proof -
  have "keeps_open s (set_world w s1)"
    if "socket_recv_accumulate fd buff len (world s1) = Some (rc, n, b, w)" for rc n b w
    using that assms(1) by (auto simp: socket_recv_accumulate_def
        dest!: recv_loop_only_rx only_rx_accepted accepted_only_keeps intro: keeps_open_trans)
  with assms(2) show ?thesis by (fastforce simp: keeping_def bind_eq_Some_conv)
qed

lemma keeping_recv_null [keeping_rules]:
  assumes "keeps_open s s1"
    and "\<And>rc n b w. keeps_open s (set_world w s1) \<Longrightarrow> keeping st s (f (rc, n, b, w))"
  shows "keeping st s (socket_recv_until_null_reached fd buff len (world s1) \<bind> f)"
proof -
  have "keeps_open s (set_world w s1)"
    if "socket_recv_until_null_reached fd buff len (world s1) = Some (rc, n, b, w)" for rc n b w
    using that assms(1) by (auto simp: socket_recv_until_null_reached_def
        dest!: recv_null_only_rx only_rx_accepted accepted_only_keeps intro: keeps_open_trans)
  with assms(2) show ?thesis by (fastforce simp: keeping_def bind_eq_Some_conv)
qed

lemma recv_h2t_keeps [keeping_rules]: "keeps_open s s1 \<Longrightarrow> keeping snd s (recv_h2t bus fd buff len s1)"
  by (auto simp: keeping_def recv_h2t_def socket_recv_accumulate_h2t_data_def socket_recv_accumulate_def Let_def
      bind_eq_Some_conv keeps_open_def world_def only_rx_def dest!: recv_loop_only_rx)

lemma send_t2h_keeps [keeping_rules]: "keeps_open s s1 \<Longrightarrow> keeping snd s (send_t2h bus fd buff len s1)"
  by (auto simp: keeping_def send_t2h_def socket_send_all_t2h_data_def socket_send_all_def Let_def
      bind_eq_Some_conv keeps_open_def world_def only_tx_def dest!: send_loop_only_tx)

section \<open>The control channel\<close>

lemma print_number_keeps [keeping_rules]: "keeps_open s s1 \<Longrightarrow> keeping snd s (print_number i s1)"
  unfolding print_number_def by (intro keeping_rules) simp

lemma get_parameter_keeps [keeping_rules]: "keeps_open s s1 \<Longrightarrow> keeping snd s (get_parameter cmd s1)"
  unfolding get_parameter_def Let_def by (intro keeping_rules) simp_all

lemma set_parameter_keeps [keeping_rules]: "keeps_open s s1 \<Longrightarrow> keeping snd s (set_parameter cmd client s1)"
  unfolding set_parameter_def Let_def by (intro keeping_rules) (auto intro: keeps_open_trans)

lemma driver_parameter_keeps [keeping_rules]:
  "keeps_open s s1 \<Longrightarrow> keeping snd s (get_driver_parameter cmd s1)"
  "keeps_open s s1 \<Longrightarrow> keeping snd s (set_driver_parameter cmd s1)"
  subgoal unfolding get_driver_parameter_def Let_def by (intro keeping_rules) simp_all
  subgoal unfolding set_driver_parameter_def Let_def by (intro keeping_rules) simp_all
  done

lemma respond_keeps [keeping_rules]:
  "keeps_open s (snd rs) \<Longrightarrow> keeping snd s (respond fd limit rs)"
  unfolding respond_def by (intro keeping_rules) simp_all

lemma process_control_message_keeps:
  "keeping (\<lambda>x. snd (snd x)) s (process_control_message client s)"
  unfolding process_control_message_def Let_def by (intro keeping_rules) simp_all

section \<open>The data paths\<close>

text \<open>The driver's answers.\<close>

lemma keeping_acquire [keeping_rules]:
  fixes m :: "(int \<times> 'x \<times> 'y \<times> 'h driver) option"
  shows "(\<And>r h b d. keeping st s (f (r, h, b, d))) \<Longrightarrow> keeping st s (m \<bind> f)"
  by (auto simp: keeping_def bind_eq_Some_conv)

lemmas keeping_drv_steps [keeping_rules] =
  keeping_pure [where 'pure = "'x \<Rightarrow> 'y"] keeping_pure [where 'pure = "'h driver"]

lemma target_keeps [keeping_rules]:
  "keeps_open s s1 \<Longrightarrow> keeping snd s (h2t_target len s1)"
  "keeps_open s s1 \<Longrightarrow> keeping snd s (mgmt_target len s1)"
  unfolding h2t_target_def mgmt_target_def by (intro keeping_rules; simp)+

lemma header_keeps [keeping_rules]:
  "keeps_open s s1 \<Longrightarrow> keeping snd s (update_curr_h2t_header client s1)"
  "keeps_open s s1 \<Longrightarrow> keeping snd s (update_curr_mgmt_header client s1)"
  unfolding update_curr_h2t_header_def update_curr_mgmt_header_def by (intro keeping_rules; simp)+

lemma payload_keeps [keeping_rules]:
  "keeps_open s s1 \<Longrightarrow> keeping snd s (recv_wild fd len s1)"
  "keeps_open s s1 \<Longrightarrow> keeping snd s (recv_h2t_payload bus fd buff len s1)"
  "keeps_open s s1 \<Longrightarrow> keeping snd s (recv_mgmt_payload fd buff len s1)"
  "keeps_open s s1 \<Longrightarrow> keeping snd s (send_t2h_payload bus fd buff len s1)"
  "keeps_open s s1 \<Longrightarrow> keeping snd s (send_mgmt_rsp_payload fd buff len s1)"
proof -
  show wild: "keeps_open s s1 \<Longrightarrow> keeping snd s (recv_wild fd len s1)" for fd len s1
    unfolding recv_wild_def by (intro keeping_rules) simp_all
  show "keeps_open s s1 \<Longrightarrow> keeping snd s (recv_mgmt_payload fd buff len s1)"
    unfolding recv_mgmt_payload_def Let_def by (intro keeping_rules wild) simp_all
qed (unfold recv_h2t_payload_def send_t2h_payload_def send_mgmt_rsp_payload_def Let_def, (intro keeping_rules; simp)+)

lemma process_h2t_data_keeps: "keeping snd s (process_h2t_data bus client s)"
  unfolding process_h2t_data_def Let_def by (intro keeping_rules) simp_all

lemma process_mgmt_data_keeps: "keeping snd s (process_mgmt_data client s)"
  unfolding process_mgmt_data_def Let_def by (intro keeping_rules) simp_all

lemma process_t2h_data_keeps: "keeping snd s (process_t2h_data bus pay0 client s)"
  unfolding process_t2h_data_def Let_def by (intro keeping_rules) simp_all

lemma process_mgmt_rsp_data_keeps: "keeping snd s (process_mgmt_rsp_data pay0 client s)"
  unfolding process_mgmt_rsp_data_def Let_def by (intro keeping_rules) simp_all

section \<open>One client\<close>

lemma fill_fd_sets_then [simp]:
  "fill_fd_sets client s \<bind> f = (if list_all fd_settable (all_fds client s) then f () else None)"
  by (simp add: fill_fd_sets_def)

text \<open>Serving takes connections only to turn them away: each valid one is closed at once.\<close>

definition turned_away :: "'h srv \<Rightarrow> 'h srv \<Rightarrow> int list \<Rightarrow> bool" where
  "turned_away s s' fds \<longleftrightarrow> accept_results (world s) = fds @ accept_results (world s') \<and>
     closed (world s') = closed (world s) @ valid_fds fds \<and> server_fd (conn s') = server_fd (conn s)"

lemma turned_away_trans: "turned_away s s1 fds \<Longrightarrow> turned_away s1 s2 fds' \<Longrightarrow> turned_away s s2 (fds @ fds')"
  by (simp add: turned_away_def)

lemma turned_away_keeps: "turned_away s s1 fds \<Longrightarrow> keeps_open s1 s2 \<Longrightarrow> turned_away s s2 fds"
  by (simp add: turned_away_def keeps_open_def)

lemma turned_away_none [simp]: "turned_away s s []"
  by (simp add: turned_away_def)

lemma reject_client_turns_away: "\<exists>fds. turned_away s (reject_client s) fds"
proof -
  obtain fd s1 where acc: "sys os_accept s = (fd, s1)" by fastforce
  from accept_frame [OF this] obtain fds where fds: "accepted_only s s1 fds" "valid_fds [fd] = valid_fds fds"
    "fd \<noteq> INVALID_SOCKET \<longrightarrow> fds = [fd]" by blast
  have "take 12 REJECT_MSG \<noteq> []" by (simp add: REJECT_MSG_def lit_def)
  from raw_send_frame [OF this, of s1 fd]
  have "accepted_only s1 (snd (sys (os_send fd (take 12 REJECT_MSG)) s1)) []" .
  with acc fds show ?thesis
    by (intro exI [of _ fds])
       (auto simp: reject_client_def Let_def sys_calls turned_away_def accepted_only_def split: prod.splits)
qed

lemma guarded_keeps:
  assumes "\<And>s. keeping snd s (act s)" and "keeps_open s (snd o1)"
  shows "keeping snd s (guarded ready act o1)"
proof (cases o1)
  case (Pair b s1)
  with assms(2) have "keeps_open s s1" by simp
  with assms(1) [of s1] Pair show ?thesis
    by (auto simp: guarded_def keeping_def bind_eq_Some_conv intro: keeps_open_trans)
qed

lemmas guards_keep = guarded_keeps [OF process_mgmt_data_keeps] guarded_keeps [OF process_h2t_data_keeps]
  guarded_keeps [OF process_mgmt_rsp_data_keeps] guarded_keeps [OF process_t2h_data_keeps]

lemma control_act_keeps: "keeping snd s (control_act client ready (b, s))"
  using process_control_message_keeps [of s client]
  by (auto simp: control_act_def keeping_def bind_eq_Some_conv)

lemma client_step_turns_away:
  assumes "client_step bus pay0 client ev s = Some (left, s')"
  shows "\<exists>fds. turned_away s s' fds"
proof (cases ev)
  case Select_failed
  with assms show ?thesis by (auto simp: client_step_def split: if_splits intro: exI [of _ "[]"])
next
  case (Ready rd wr ex)
  define s1 where "s1 = (if server_fd (conn s) \<in> set rd then reject_client s else s)"
  have "\<exists>fds. turned_away s s1 fds"
    using reject_client_turns_away [of s] by (auto simp: s1_def intro: exI [of _ "[]"])
  then obtain fds where away: "turned_away s s1 fds" ..
  show ?thesis
  proof (cases "\<exists>fd \<in> set (all_fds client s). fd \<in> set ex")
    case True
    with assms Ready show ?thesis by (auto simp: client_step_def split: if_splits intro: exI [of _ "[]"])
  next
    case False
    have "keeping snd s1 (client_step bus pay0 client ev s)"
      using False unfolding client_step_def Ready Let_def
      by (simp del: not_None_eq flip: s1_def) (intro impI keeping_rules control_act_keeps guards_keep; simp)
    with assms have "keeps_open s1 s'" by (simp add: keeping_def)
    with away show ?thesis by (blast intro: turned_away_keeps)
  qed
qed

lemma handle_client_turns_away:
  "handle_client bus pay0 client evs s = Some (left, s') \<Longrightarrow> \<exists>fds. turned_away s s' fds"
proof (induction evs arbitrary: s)
  case Nil
  then show ?case by (auto split: if_splits intro: exI [of _ "[]"])
next
  case (Cons ev evs)
  from Cons.prems obtain l s1 where s1: "client_step bus pay0 client ev s = Some (l, s1)"
    and rest: "if l then left \<and> s' = s1 else handle_client bus pay0 client evs s1 = Some (left, s')"
    by (auto simp: bind_eq_Some_conv split: if_splits)
  from client_step_turns_away [OF s1] obtain fds where "turned_away s s1 fds" ..
  with rest Cons.IH [of s1] show ?case
    by (cases l) (auto intro: turned_away_trans)
qed

text \<open>Where the descriptors that the system gives out are small, a client that is let in can be waited for.\<close>

definition small_fds :: "int list \<Rightarrow> bool" where
  "small_fds = list_all (\<lambda>fd. fd = INVALID_SOCKET \<or> fd_settable fd)"

lemma connected_settable:
  assumes "connect_client rands mmio CLIENT_CONN_default s = Some (OK, c, s')" and "small_fds (accept_results (world s))"
  shows "list_all fd_settable (client_fds c)"
  using connect_client_frame [OF assms(1)] assms(2)
  by (auto simp: handshake_at_def accepted_only_def small_fds_def list_all_iff)

section \<open>All clients\<close>

lemma close_client_conn_closes:
  assumes "close_client_conn c s = (rc, s')"
  shows "closed (world s') = closed (world s) @ valid_fds (client_fds c)"
    "accept_results (world s') = accept_results (world s)" "server_fd (conn s') = server_fd (conn s)"
  using assms close_seq_result [of "client_fds c" s] by (auto simp: close_client_conn_seq)

lemma reset_buffers_keeps: "reset_buffers s = Some s' \<Longrightarrow> keeps_open s s'"
  by (auto simp: reset_buffers_def bind_eq_Some_conv)

text \<open>
  After any number of sessions: \<open>fds\<close> were taken from the listening socket, of which \<open>live\<close> are open,
  and each other valid one was closed once.
\<close>

definition sockets_accounted :: "'h srv \<Rightarrow> 'h srv \<Rightarrow> int list \<Rightarrow> bool" where
  "sockets_accounted s s' live \<longleftrightarrow> server_fd (conn s') = server_fd (conn s) \<and>
     (\<exists>fds. accept_results (world s) = fds @ accept_results (world s') \<and>
        mset (closed (world s')) + mset live = mset (closed (world s)) + mset (valid_fds fds))"

lemma sockets_accounted_none [simp]: "sockets_accounted s s []"
  by (simp add: sockets_accounted_def)

lemma sockets_accounted_trans:
  assumes "sockets_accounted s s1 []" and "sockets_accounted s1 s2 live"
  shows "sockets_accounted s s2 live"
proof -
  from assms obtain fds fds' where "accept_results (world s) = (fds @ fds') @ accept_results (world s2)"
    "mset (closed (world s2)) + mset live = mset (closed (world s)) + mset (valid_fds (fds @ fds'))"
    by (auto simp: sockets_accounted_def)
  with assms show ?thesis unfolding sockets_accounted_def by metis
qed

text \<open>One session, from the reset of the buffers until the client is gone.\<close>

lemma session_accounted:
  assumes "reset_buffers s = Some s1" and "connect_client rands mmio CLIENT_CONN_default s1 = Some (rc, c, s2)"
    and "turned_away s2 s3 fds"
  shows "sockets_accounted s s3 (valid_fds (client_fds c))"
    and "close_client_conn c s3 = (rc2, s4) \<Longrightarrow> sockets_accounted s s4 []"
proof -
  from connect_client_frame [OF assms(2)] obtain fds0 where
    f0: "accepted_only s1 s2 fds0" "valid_fds (client_fds c) = valid_fds fds0" by (auto simp: handshake_at_def)
  have "accept_results (world s) = (fds0 @ fds) @ accept_results (world s3)"
    "closed (world s3) = closed (world s) @ valid_fds fds" "server_fd (conn s3) = server_fd (conn s)"
    using reset_buffers_keeps [OF assms(1)] f0(1) assms(3)
    by (simp_all add: keeps_open_def accepted_only_def turned_away_def)
  note all = this
  then show "sockets_accounted s s3 (valid_fds (client_fds c))"
    unfolding sockets_accounted_def f0(2) by (intro conjI exI [of _ "fds0 @ fds"]) simp_all
  assume "close_client_conn c s3 = (rc2, s4)"
  from close_client_conn_closes [OF this] all f0(2) show "sockets_accounted s s4 []"
    unfolding sockets_accounted_def by (intro conjI exI [of _ "fds0 @ fds"]) simp_all
qed

lemma serve_accounted:
  "serve bus pay0 mmio lifespan envs s = Some (r, s') \<Longrightarrow>
    \<exists>live. sockets_accounted s s' live \<and> length live \<le> 5 \<and> (r = None \<or> live = [])"
proof (induction envs arbitrary: s)
  case Nil
  then show ?case by (auto intro: exI [of _ "[]"])
next
  case (Cons env envs)
  obtain rands evs where env: "env = (rands, evs)" by (cases env)
  from Cons.prems env obtain s1 rc c s2 left s3 where
    s1: "reset_buffers s = Some s1" and s2: "connect_client rands mmio CLIENT_CONN_default s1 = Some (rc, c, s2)"
    and s3: "(if rc = OK then handle_client bus pay0 c evs s2 else Some (True, s2)) = Some (left, s3)"
    and rest: "(if \<not> left then Some (None, s3)
      else (let (rc2, s4) = close_client_conn c s3
            in if rc = INIT_ERR then Some (Some rc, s4)
               else if lifespan = MULTIPLE_CLIENTS then serve bus pay0 mmio lifespan envs s4
               else Some (Some rc, s4))) = Some (r, s')"
    by (auto simp: bind_eq_Some_conv)
  have "\<exists>fds. turned_away s2 s3 fds"
    using s3 by (auto split: if_splits dest: handle_client_turns_away intro: exI [of _ "[]"])
  then obtain fds where fds: "turned_away s2 s3 fds" ..
  obtain rc2 s4 where s4: "close_client_conn c s3 = (rc2, s4)" by fastforce
  note now = session_accounted(1) [OF s1 s2 fds] and then_closed = session_accounted(2) [OF s1 s2 fds s4]
  show ?case
  proof (cases "left \<and> rc \<noteq> INIT_ERR \<and> lifespan = MULTIPLE_CLIENTS")
    case True
    with rest s4 Cons.IH [of s4] then_closed show ?thesis by (auto intro: sockets_accounted_trans)
  next
    case False
    have "length (valid_fds (client_fds c)) \<le> 5"
      by (rule order_trans [OF length_filter_le]) (simp add: client_fds_def)
    with False rest s4 now then_closed show ?thesis
      by (cases left) (auto split: if_splits)
  qed
qed

section \<open>Properties\<close>

text \<open>
  C9. The server leaks no connection: whatever the clients send, however the driver answers and
  whichever call fails, at any moment each valid connection taken from the listening socket has been
  closed exactly once, except for at most five that belong to the client being served; when the loop
  has ended none is open.
\<close>

theorem serve_leaks_no_socket:
  assumes "serve bus pay0 mmio lifespan envs s = Some (r, s')"
  shows "\<exists>fds live. accept_results (world s) = fds @ accept_results (world s') \<and>
    mset (closed (world s')) + mset live = mset (closed (world s)) + mset (valid_fds fds) \<and>
    length live \<le> 5 \<and> (r = None \<or> live = [])"
  using serve_accounted [OF assms] by (auto simp: sockets_accounted_def)

lemma serve_leaks_no_socket_witness:
  "\<exists>s'. serve idle_bus 0 1 SINGLE_CLIENT [(\<lambda>_. 7, [Select_failed])] demo_srv = Some (Some OK, s') \<and>
    mset (closed (world s')) = mset [20, 21, 22, 23, 24]"
proof -
  have "reset_buffers demo_srv = Some demo_srv"
    by (simp add: reset_buffers_def demo_srv_def start_buffers_def CTRL_RX_BUFF_SZ_def CTRL_TX_BUFF_SZ_def
        zero_mem_result big_size_def upd_buff_def)
  moreover obtain s1 where s1: "connect_client (\<lambda>_. 7) 1 CLIENT_CONN_default demo_srv =
      Some (OK, \<lparr>ctrl_fd = 20, mgmt_fd = 21, mgmt_rsp_fd = 22, h2t_data_fd = 23, t2h_data_fd = 24\<rparr>, s1)"
    "accept_results (world s1) = []"
    using connect_client_ok [OF demo_ready, of "\<lambda>_ d. Some (0, d)" 1 "drv (mach demo_srv)" "\<lambda>d. Some (0, d)" 0
      "drv (mach demo_srv)"]
    by (auto simp: demo_srv_def)
  moreover have "server_fd (conn s1) = 3"
    using connect_client_frame [OF s1(1)] by (auto simp: handshake_at_def accepted_only_def demo_srv_def)
  moreover obtain rc s' where s': "close_client_conn \<lparr>ctrl_fd = 20, mgmt_fd = 21, mgmt_rsp_fd = 22,
      h2t_data_fd = 23, t2h_data_fd = 24\<rparr> s1 = (rc, s')" by fastforce
  ultimately have run: "serve idle_bus 0 1 SINGLE_CLIENT [(\<lambda>_. 7, [Select_failed])] demo_srv = Some (Some OK, s')"
    by (simp add: client_step_def all_fds_def fd_settable_def FD_SETSIZE_def)
  have "accept_results (world s') = []" using close_client_conn_closes(2) [OF s'] s1(2) by simp
  with run serve_leaks_no_socket [OF run] show ?thesis
    by (intro exI [of _ s']) (auto simp: demo_srv_def world_def demo_client_def quiet_os_def INVALID_SOCKET_def)
qed

text \<open>
  C30. A packet that waits for room outlives its client: when the flag is set as the client goes, the
  buffers are reset and a new client is let in, the flag is still set, so that the server does not
  read the header of the new client's first packet and goes on with that of the old one.
\<close>

theorem waiting_packet_outlives_client:
  assumes "h2t_waiting (conn s)" and "reset_buffers s = Some s1"
    and "connect_client rands mmio CLIENT_CONN_default s1 = Some (OK, c, s2)"
  shows "update_curr_h2t_header c s2 = Some (OK, s2)"
proof -
  have "h2t_waiting (conn s1)" using assms(1,2) by (auto simp: reset_buffers_def bind_eq_Some_conv)
  moreover have "h2t_waiting (conn s2) = h2t_waiting (conn s1)"
    using connect_client_frame [OF assms(3)] by (auto simp: handshake_at_def accepted_only_def)
  ultimately show ?thesis by (simp add: update_curr_h2t_header_def)
qed

lemma demo_reset: "reset_buffers (demo_srv\<lparr>conn := (conn demo_srv)\<lparr>h2t_waiting := b\<rparr>\<rparr>) =
  Some (demo_srv\<lparr>conn := (conn demo_srv)\<lparr>h2t_waiting := b\<rparr>\<rparr>)"
  by (simp add: reset_buffers_def demo_srv_def start_buffers_def CTRL_RX_BUFF_SZ_def CTRL_TX_BUFF_SZ_def
      zero_mem_result big_size_def upd_buff_def)

lemma waiting_packet_outlives_client_witness:
  "\<exists>c s2. connect_client (\<lambda>_. 7) 1 CLIENT_CONN_default (demo_srv\<lparr>conn := (conn demo_srv)\<lparr>h2t_waiting := True\<rparr>\<rparr>) =
      Some (OK, c, s2) \<and> update_curr_h2t_header c s2 = Some (OK, s2)"
proof -
  let ?s = "demo_srv\<lparr>conn := (conn demo_srv)\<lparr>h2t_waiting := True\<rparr>\<rparr>"
  have ready: "client_ready 7 [(20, CONTROL_SOCK_NAME), (21, MANAGEMENT_SOCK_NAME),
      (22, MANAGEMENT_RSP_SOCK_NAME), (23, H2T_SOCK_NAME), (24, T2H_SOCK_NAME)] (world ?s)" "ctrl_ready (bufs ?s)"
    using demo_ready by simp_all
  from connect_client_ok [OF ready demo_ready(3), of "\<lambda>_ d. Some (0, d)" 1 "drv (mach demo_srv)"
      "\<lambda>d. Some (0, d)" 0 "drv (mach demo_srv)"]
  obtain c s2 where c: "connect_client (\<lambda>_. 7) 1 CLIENT_CONN_default ?s = Some (OK, c, s2)"
    by (auto simp: demo_srv_def)
  with waiting_packet_outlives_client [OF _ demo_reset c] show ?thesis by auto
qed

text \<open>
  When the driver cannot be initialised the server stops for good: with one client or with many,
  the loop ends with \<open>INIT_ERR\<close> before a connection is accepted, and the clients that come later
  are not served.
\<close>

theorem driver_failure_stops_server:
  assumes "reset_buffers s = Some s1" and "get_random_id rands = Some h"
    and "cb_init_driver (hw_callbacks (conn s1)) = Some init" and "init mmio (drv (mach s1)) = Some (r, d)" and "r \<noteq> 0"
  shows "\<exists>s'. serve bus pay0 mmio lifespan ((rands, evs) # envs) s = Some (Some INIT_ERR, s') \<and>
    accept_results (world s') = accept_results (world s1) \<and> closed (world s') = closed (world s1)"
proof -
  let ?s0 = "upd_stats (\<lambda>_. SERVER_PKT_STATS_default) s1"
  let ?s2 = "?s0\<lparr>mach := (mach ?s0)\<lparr>drv := d\<rparr>\<rparr>"
  have "cb_init_driver (hw_callbacks (conn ?s0)) = Some init" using assms(3) by (simp add: upd_stats_def)
  with assms have "connect_client rands mmio CLIENT_CONN_default s1 = Some (INIT_ERR, CLIENT_CONN_default, ?s2)"
    by (simp add: connect_client_def Let_def on_drv_def)
  moreover have "close_client_conn CLIENT_CONN_default ?s2 = (OK, ?s2)"
    by (simp add: close_client_conn_def close_one_def CLIENT_CONN_default_def)
  ultimately have "serve bus pay0 mmio lifespan ((rands, evs) # envs) s = Some (Some INIT_ERR, ?s2)"
    using assms(1) by simp
  moreover have "world ?s2 = world s1" by (simp add: world_def)
  ultimately show ?thesis by auto
qed

lemma driver_failure_stops_server_witness:
  "\<exists>s'. serve idle_bus 0 1 MULTIPLE_CLIENTS [(\<lambda>_. 7, []), (\<lambda>_. 7, [])]
     (demo_srv\<lparr>conn := (conn demo_srv)\<lparr>hw_callbacks := SERVER_HW_CALLBACKS_default
       \<lparr>cb_init_driver := Some (\<lambda>_ d. Some (1, d))\<rparr>\<rparr>\<rparr>) = Some (Some INIT_ERR, s')"
proof -
  let ?s = "demo_srv\<lparr>conn := (conn demo_srv)\<lparr>hw_callbacks := SERVER_HW_CALLBACKS_default
       \<lparr>cb_init_driver := Some (\<lambda>_ d. Some (1, d))\<rparr>\<rparr>\<rparr>"
  have reset: "reset_buffers ?s = Some ?s"
    by (simp add: reset_buffers_def demo_srv_def start_buffers_def CTRL_RX_BUFF_SZ_def CTRL_TX_BUFF_SZ_def
        zero_mem_result big_size_def upd_buff_def)
  from driver_failure_stops_server [OF reset demo_ready(3), of "\<lambda>_ d. Some (1, d)" 1 1 "drv (mach demo_srv)"
      idle_bus 0 MULTIPLE_CLIENTS "[]" "[(\<lambda>_. 7, [])]"]
  show ?thesis by auto
qed

text \<open>
  The address map that the server derives from the memory size keeps the regions apart, up to
  1 GiB: the host-to-target memory lies behind the first 2 KiB (the registers of the IP), the
  target-to-host memory behind it, and both below the end of the 32-bit address space.
\<close>

theorem design_memory_layout:
  assumes "h2t_t2h_mem_size context \<le> 0x40000000"
  shows "0x800 \<le> unat (H2T_MEM_BASE_ADDR (get_design_info context)) \<and>
    unat (H2T_MEM_BASE_ADDR (get_design_info context)) + unat (H2T_MEM_SZ (get_design_info context))
      \<le> unat (T2H_MEM_BASE_ADDR (get_design_info context)) \<and>
    unat (T2H_MEM_BASE_ADDR (get_design_info context)) + unat (T2H_MEM_SZ (get_design_info context)) \<le> 2 ^ 32"
proof -
  let ?sz = "h2t_t2h_mem_size context"
  have small: "unat ?sz \<le> 0x40000000" using assms by (simp add: word_le_nat_alt)
  have twice: "unat (2 * ?sz) = 2 * unat ?sz" using small by (subst unat_mult_lem [THEN iffD1]) simp_all
  have cast: "unat (ucast ?sz :: u32) = unat ?sz" "unat (ucast (2 * ?sz) :: u32) = 2 * unat ?sz"
    using small twice by (simp_all add: unsigned_ucast_eq take_bit_nat_eq_self)
  show ?thesis
  proof (cases "?sz > JOP_MEM_SIZE_2K")
    case True
    then have "2048 < unat ?sz" by (simp add: JOP_MEM_SIZE_2K_def word_less_nat_alt)
    with True cast small show ?thesis by (simp add: get_design_info_def Let_def)
  next
    case False
    then have "unat ?sz \<le> 2048" by (simp add: JOP_MEM_SIZE_2K_def word_less_nat_alt)
    with False show ?thesis
      by (simp add: get_design_info_def Let_def H2T_MEM_BASE_2K_def T2H_MEM_BASE_4K_def)
  qed
qed

lemma design_memory_layout_witness:
  "unat (T2H_MEM_BASE_ADDR (get_design_info \<lparr>cxt_mmio_handle = 1, h2t_t2h_mem_size = 4096, cxt_port = 0\<rparr>)) + 4096 \<le> 2 ^ 32"
  using design_memory_layout [of "\<lparr>cxt_mmio_handle = 1, h2t_t2h_mem_size = 4096, cxt_port = 0\<rparr>"]
  by (simp add: get_design_info_def Let_def)

end
