(* ===== verification/Session_Safety.thy ===== *)
theory Session_Safety
  imports Ip_Contract Control_Safety Loop_Laws
begin

text \<open>
  Serving a client is free of undefined behaviour: the lemmas of the control channel, of the data
  channels and of the handshake come together. The device is any that keeps to the contract of the IP,
  the network does what it likes, and the client may send any bytes on the data sockets; what is asked
  of it is that its control messages are of the harmless kind.
\<close>

section \<open>Control messages\<close>

text \<open>
  A message that is no command for a driver parameter, does not switch the loopback mode of the server
  and, if it sets a parameter, has the name of the parameter in it.
\<close>

definition tame_command :: "u8 list \<Rightarrow> bool" where
  "tame_command m \<longleftrightarrow> take 16 m \<notin> {str ''SET_DRIVER_PARAM'', str ''GET_DRIVER_PARAM''} \<and>
     (take 9 m = str ''SET_PARAM'' \<longrightarrow> 0 \<in> set (drop 10 m) \<and> take 15 (drop 10 m) \<noteq> str ''SERVER_LOOPBACK'')"

text \<open>
  What arrives on a control socket: messages that are tame and, with all that comes in the same piece as
  their end, shorter than the receive buffer. \<open>acc\<close> is the part of a message that has arrived.
\<close>

fun commands_ok :: "nat \<Rightarrow> u8 list \<Rightarrow> rx_event list \<Rightarrow> bool" where
  "commands_ok sz acc [] = True"
| "commands_ok sz acc (Fail r # es) = True"
| "commands_ok sz acc (Data bs # es) =
     (bs = [] \<or> length acc + length bs < sz \<and>
        (if 0 \<in> set bs then tame_command (acc @ bs) \<and> commands_ok sz [] es else commands_ok sz (acc @ bs) es))"

lemma recv_command:
  assumes "commands_ok (off + n) acc (rx w fd)" and "length acc = off" and "off + n \<le> length buff" and "0 < n"
  shows "\<exists>rc r got w'. recv_null_loop fd mx n off buff w =
      Some (rc, r, take off buff @ got @ drop (off + length got) buff, w') \<and> length got < n \<and> only_rx fd w w' \<and>
    (rc = OK \<longrightarrow> 0 \<in> set got \<and> tame_command (acc @ got) \<and> commands_ok (off + n) [] (rx w' fd))"
  using assms
proof (induction "rx w fd" arbitrary: off n acc buff w)
  case Nil
  then show ?case by (subst recv_null_loop.simps) (auto simp: os_recv_def Nil.hyps [symmetric] intro: exI [of _ "[]"])
next
  case (Cons e es)
  let ?w = "w\<lparr>rx := (rx w)(fd := es)\<rparr>"
  have o1: "only_rx fd w ?w" by (auto simp: only_rx_def)
  show ?case
  proof (cases "\<exists>bs. e = Data bs \<and> bs \<noteq> []")
    case False
    then have "\<exists>r. r \<le> 0 \<and> os_recv fd n w = (r, [], ?w)"
      by (cases e) (auto simp: os_recv_def Cons.hyps(2) [symmetric])
    with recv_null_stops Cons.prems(4) o1 show ?thesis by (fastforce intro!: exI [of _ "[]"])
  next
    case True
    then obtain bs where e: "e = Data bs" "bs \<noteq> []" by blast
    have ok: "length bs < n" "if 0 \<in> set bs then tame_command (acc @ bs) \<and> commands_ok (off + n) [] es
        else commands_ok (off + n) (acc @ bs) es"
      using Cons.prems(1,2) e by (auto simp: Cons.hyps(2) [symmetric])
    have r: "os_recv fd n w = (int (length bs), bs, ?w)"
      using e ok(1) by (simp add: os_recv_def Cons.hyps(2) [symmetric])
    let ?b = "take off buff @ bs @ drop (off + length bs) buff"
    note turn = recv_null_piece [OF r refl _ _ Cons.prems(3), of mx]
    show ?thesis
    proof (cases "0 \<in> set bs")
      case True
      with turn e(2) ok o1 show ?thesis by (auto intro!: exI [of _ bs])
    next
      case False
      have len: "length ?b = length buff" using ok(1) Cons.prems(3) by simp
      from Cons.hyps(1) [of ?w "off + length bs" "n - length bs" "acc @ bs" ?b] ok False Cons.prems len
      obtain rc r' got w' where *: "recv_null_loop fd mx (n - length bs) (off + length bs) ?b ?w =
          Some (rc, r', take (off + length bs) ?b @ got @ drop (off + length bs + length got) ?b, w')"
        "length got < n - length bs" "only_rx fd ?w w'"
        "rc = OK \<longrightarrow> 0 \<in> set got \<and> tame_command ((acc @ bs) @ got) \<and> commands_ok (off + n) [] (rx w' fd)"
        by auto
      have "take (off + length bs) ?b = take off buff @ bs" using ok(1) Cons.prems(3) by simp
      moreover have "drop (off + length bs + length got) ?b = drop (off + length (bs @ got)) buff"
        using ok(1) Cons.prems(3) by (simp add: ac_simps)
      ultimately show ?thesis
        using * turn e(2) ok(1) False only_rx_trans [OF o1 *(3)] by (auto intro!: exI [of _ "bs @ got"])
    qed
  qed
qed

section \<open>The server between clients and during a session\<close>

text \<open>
  What a run takes place on: the device, the place, the size and the handle of its mapping, the
  descriptors of the IP, the number that it holds in a state, and the addresses of the design.
\<close>

record 'h target =
  t_bus :: "'h bus"
  t_char_signed :: bool
  t_base :: u64
  t_span :: nat
  t_mmio :: int
  t_slots :: nat
  t_held :: "'h \<Rightarrow> nat"
  t_info :: ST_DBG_IP_DESIGN_INFO

abbreviation t_size :: "'h target \<Rightarrow> nat" where
  "t_size t \<equiv> unat (H2T_MEM_SZ (t_info t))"

text \<open>
  The memories have the same size and lie above the registers that take a write. The mapping holds the
  registers and both memories; as copies go in whole words, up to 7 bytes behind the end of a memory are
  touched. Its offsets fit into the 31 bits of the addresses that the driver copies with.
\<close>

definition sound_target :: "'h target \<Rightarrow> bool" where
  "sound_target t \<longleftrightarrow> honest_ip (t_bus t) (t_base t) (t_slots t) (t_size t) (t_held t) \<and>
     0 < t_size t \<and> T2H_MEM_SZ (t_info t) = H2T_MEM_SZ (t_info t) \<and> 0x118 \<le> unat (H2T_MEM_BASE_ADDR (t_info t)) \<and>
     mapped_bytes (t_bus t) (t_base t) (t_span t) \<and> register_space \<le> t_span t \<and> t_span t < 2 ^ 31 \<and>
     unat (H2T_MEM_BASE_ADDR (t_info t)) + t_size t + 7 \<le> t_span t \<and>
     unat (T2H_MEM_BASE_ADDR (t_info t)) + t_size t + 7 \<le> t_span t"

lemma sound_targetD:
  assumes "sound_target t"
  shows "honest_ip (t_bus t) (t_base t) (t_slots t) (t_size t) (t_held t)"
    "mapped_bytes (t_bus t) (t_base t) (t_span t)" "register_space \<le> t_span t" "t_span t < 2 ^ 31"
    "0 < t_size t" "T2H_MEM_SZ (t_info t) = H2T_MEM_SZ (t_info t)" "0x118 \<le> unat (H2T_MEM_BASE_ADDR (t_info t))"
    "unat (H2T_MEM_BASE_ADDR (t_info t)) + t_size t + 7 \<le> t_span t"
    "unat (T2H_MEM_BASE_ADDR (t_info t)) + t_size t + 7 \<le> t_span t"
  using assms by (simp_all add: sound_target_def)

definition memory_ok :: "ST_DBG_IP_DESIGN_INFO \<Rightarrow> SERVER_BUFFERS \<Rightarrow> bool" where
  "memory_ok info b \<longleftrightarrow> use_wrapping_data_buffers b \<and> h2t_rx_buff b = H2T_MEM_BASE_ADDR info \<and>
     h2t_rx_buff_sz b = H2T_MEM_SZ info \<and> t2h_tx_buff b = T2H_MEM_BASE_ADDR info \<and> t2h_tx_buff_sz b = T2H_MEM_SZ info \<and>
     mgmt_rx_buff b = 0 \<and> ctrl_rx_buff_sz b = 512 \<and> ctrl_tx_buff_sz b = 512 \<and> length (h2t_header_buff b) = 10 \<and> length (t2h_header_buff b) = 10 \<and>
     length (mgmt_header_buff b) = 10 \<and> length (mgmt_rsp_header_buff b) = 10"

definition server_idle :: "'h target \<Rightarrow> 'h srv \<Rightarrow> bool" where
  "server_idle t s \<longleftrightarrow> text_buffers_ok (bufs s) \<and> memory_ok (t_info t) (bufs s) \<and>
     hw_callbacks (conn s) = get_hw_callbacks (t_bus t) (t_char_signed t) \<and> loopback_mode (conn s) = 0 \<and>
     fd_settable (server_fd (conn s)) \<and> buffers_ready (t_size t + 64) (mach s) \<and> driver_idle (t_base t) (t_mmio t) (t_info t) (drv (mach s))"

text \<open>During a session the driver is in step with the IP; \<open>r\<close> is 1 between taking a buffer and pushing it.\<close>

definition in_session :: "'h target \<Rightarrow> nat \<Rightarrow> 'h srv \<Rightarrow> bool" where
  "in_session t r s \<longleftrightarrow> server_idle t s \<and> in_step (t_base t) (t_mmio t) (t_slots t) (t_held t) (t_info t) r (drv (mach s))"

abbreviation t_in_step :: "'h target \<Rightarrow> nat \<Rightarrow> 'h driver \<Rightarrow> bool" where
  "t_in_step t \<equiv> in_step (t_base t) (t_mmio t) (t_slots t) (t_held t) (t_info t)"

lemma in_session_drv:
  "in_session t r s \<Longrightarrow> t_in_step t r' d \<Longrightarrow> in_session t r' (s\<lparr>mach := (mach s)\<lparr>drv := d\<rparr>\<rparr>)"
  by (auto simp: in_session_def server_idle_def in_step_def)

lemma in_session_world [simp]: "in_session t r (set_world w s) = in_session t r s"
  by (simp add: in_session_def server_idle_def)

lemma in_session_conn [simp]:
  "in_session t r (upd_stats f s) = in_session t r s"
  "in_session t r (s\<lparr>conn := (conn s)\<lparr>h2t_waiting := b\<rparr>\<rparr>) = in_session t r s"
  "in_session t r (s\<lparr>conn := (conn s)\<lparr>mgmt_waiting := b\<rparr>\<rparr>) = in_session t r s"
  by (simp_all add: in_session_def server_idle_def upd_stats_def)

lemma in_session_header [simp]:
  "length hb = 10 \<Longrightarrow> in_session t r s \<Longrightarrow> in_session t r (upd_buff (\<lambda>b. b\<lparr>h2t_header_buff := hb\<rparr>) s)"
  "length hb = 10 \<Longrightarrow> in_session t r s \<Longrightarrow> in_session t r (upd_buff (\<lambda>b. b\<lparr>t2h_header_buff := hb\<rparr>) s)"
  "length hb = 10 \<Longrightarrow> in_session t r s \<Longrightarrow> in_session t r (upd_buff (\<lambda>b. b\<lparr>mgmt_header_buff := hb\<rparr>) s)"
  by (auto simp: in_session_def server_idle_def memory_ok_def text_buffers_ok_def)

text \<open>What the data channels do to the network: the input of another socket is kept.\<close>

definition input_kept :: "int \<Rightarrow> os \<Rightarrow> os \<Rightarrow> bool" where
  "input_kept c w w' \<longleftrightarrow> rx w' c = rx w c \<and> accept_results w' = accept_results w"

lemma input_kept_refl [simp]: "input_kept c w w"
  by (simp add: input_kept_def)

lemma input_kept_trans: "input_kept c w w1 \<Longrightarrow> input_kept c w1 w2 \<Longrightarrow> input_kept c w w2"
  by (simp add: input_kept_def)

lemma only_rx_kept: "only_rx fd w w' \<Longrightarrow> c \<noteq> fd \<Longrightarrow> input_kept c w w'"
  by (auto simp: only_rx_def input_kept_def)

lemma same_input_kept: "same_input w w' \<Longrightarrow> input_kept c w w'"
  by (simp add: same_input_def input_kept_def)

section \<open>Transfers\<close>

lemma recv_accumulate_total:
  assumes "unat len \<le> length buff"
  shows "runs (socket_recv_accumulate fd buff len w) (\<lambda>(rc, n, b, w'). length b = length buff \<and> only_rx fd w w')"
proof (cases "unat len \<le> length (stream (rx w fd))")
  case True
  from recv_loop_ok [OF this, of 0 buff "unat len"] assms True show ?thesis
    by (auto simp: runs_def socket_recv_accumulate_def min_def)
next
  case False
  then have "length (stream (rx w fd)) < unat len" by simp
  from recv_loop_short [OF this, of 0 buff "unat len"] assms show ?thesis
    by (auto simp: runs_def socket_recv_accumulate_def)
qed

lemma send_all_runs:
  assumes "unat len \<le> length bytes"
  shows "runs (send_all fd bytes len s) (\<lambda>(rc, s'). \<exists>w. s' = set_world w s \<and> same_input (world s) w)"
  using send_all_total [OF assms, of fd s] by (auto simp: runs_def)

text \<open>Between a session's server and the IP.\<close>

lemma recv_h2t_runs:
  assumes t: "sound_target t" and s: "in_session t 1 s" and c: "c \<noteq> fd"
    and a: "unat a + align8 (unat len) \<le> t_span t" "0x118 \<le> unat a" "align8 (unat len) \<le> t_size t + 64"
  shows "runs (recv_h2t (t_bus t) fd a len s) (\<lambda>(rc, s').
    rc = OK \<and> in_session t 1 s' \<and> conn s' = conn s \<and> input_kept c (world s) (world s'))"
proof -
  obtain host b where g: "g_socket_recv_buff (mach s) = Some host" "t_size t + 64 \<le> length host"
    "g_socket_send_buff (mach s) = Some b" "t_size t + 64 \<le> length b"
    using s by (auto simp: in_session_def server_idle_def buffers_ready_def)
  have "unat len \<le> length host" using a(3) g(2) align8_bounds(1) [of "unat len"] by simp
  from recv_accumulate_total [OF this, of fd "world s"] obtain rc n h w where
    r: "socket_recv_accumulate fd host len (world s) = Some (rc, n, h, w)" "length h = length host" "only_rx fd (world s) w"
    by (auto simp: runs_def)
  have d: "t_in_step t 1 (drv (mach s))" using s by (simp add: in_session_def)
  note ip = sound_targetD(1,2,4) [OF t]
  let ?m = "\<lambda>d. (mach s)\<lparr>osys := w, g_socket_recv_buff := Some h, drv := d\<rparr>"
  have m: "in_session t 1 (s\<lparr>mach := ?m d\<rparr>)" if "t_in_step t 1 d" for d
    using s that g r(2) by (auto simp: in_session_def server_idle_def buffers_ready_def in_step_def)
  have kept: "input_kept c (world s) w" using r(3) c by (rule only_rx_kept)
  from copy_runs(2) [OF ip d, of a len h] a g(2) r(2)
  have "runs (memcpy64_host2fpga (t_bus t) h (int32_of a) len (drv (mach s))) (t_in_step t 1)" by simp
  then show ?thesis
    using r(1) g(1) m m [OF d] kept
    by (auto simp: recv_h2t_def socket_recv_accumulate_h2t_data_def pointee_def world_def Let_def elim!: runs_weaken)
qed

lemma send_t2h_runs:
  assumes t: "sound_target t" and s: "in_session t r s"
    and a: "unat a + align8 (unat len) \<le> t_span t" "align8 (unat len) \<le> t_size t + 64"
  shows "runs (send_t2h (t_bus t) fd a len s) (\<lambda>(rc, s').
    in_session t r s' \<and> conn s' = conn s \<and> input_kept c (world s) (world s'))"
proof -
  obtain host b where g: "g_socket_send_buff (mach s) = Some host" "t_size t + 64 \<le> length host"
    "g_socket_recv_buff (mach s) = Some b" "t_size t + 64 \<le> length b"
    using s by (auto simp: in_session_def server_idle_def buffers_ready_def)
  have d: "t_in_step t r (drv (mach s))" using s by (simp add: in_session_def)
  note ip = sound_targetD(1,2,4) [OF t]
  from copy_runs(1) [OF ip d a(1), of host] a(2) g(2) obtain h d1 where
    h: "memcpy64_fpga2host (t_bus t) (int32_of a) host len (drv (mach s)) = Some (h, d1)" "length h = length host"
      "t_in_step t r d1" by (auto simp: runs_def)
  have "unat len \<le> length h" using a(2) g(2) h(2) align8_bounds(1) [of "unat len"] by simp
  from send_loop_result [OF order_refl this, of fd "world s"] obtain rc n w where
    w: "socket_send_all fd h len (world s) = Some (rc, n, w)" "only_tx fd (world s) w"
    by (auto simp: socket_send_all_def)
  have "in_session t r (s\<lparr>mach := (mach s)\<lparr>drv := d1, g_socket_send_buff := Some h, osys := w\<rparr>\<rparr>)"
    using s g h by (auto simp: in_session_def server_idle_def buffers_ready_def in_step_def)
  then show ?thesis
    using h(1) w(1) g(1) same_input_kept [OF only_tx_same_input [OF w(2)]]
    by (simp add: send_t2h_def socket_send_all_t2h_data_def pointee_def world_def Let_def)
qed

text \<open>Where a transfer of a block of a ring goes, in one piece or in two.\<close>

definition block_in :: "nat \<Rightarrow> u32 \<Rightarrow> size_t \<Rightarrow> u64 \<Rightarrow> size_t \<Rightarrow> bool" where
  "block_in lim r sz a len \<longleftrightarrow> unat r + unat sz + 7 \<le> lim \<and> lim < 2 ^ 31 \<and> 0 < unat sz \<and> unat len \<le> unat sz \<and>
     unat r \<le> unat a \<and> unat a < unat r + unat sz"

lemma block_address:
  assumes "unat (r :: u32) + unat sz + 7 \<le> lim" and "lim < 2 ^ 31" and "off < unat (sz :: size_t)"
    and "unat (len :: size_t) \<le> unat sz"
  shows "block_in lim r sz (ucast (r + of_nat off)) len"
proof -
  have "unat (of_nat off :: u32) = off" using assms by (intro unat_of_nat_small) simp
  then have "unat (r + of_nat off) = unat r + off"
    using assms by (subst unat_add_below) simp_all
  then show ?thesis using assms by (simp add: block_in_def)
qed

text \<open>The pieces end at most 7 bytes behind the ring; a transfer in one piece may run over its end.\<close>

lemma block_pieces:
  assumes "block_in lim r sz a len" and first: "first = buff_len_to_wrap_boundary (ucast r) sz a len"
  shows "first = 0 \<Longrightarrow> unat a + align8 (unat len) \<le> lim" "align8 (unat len) \<le> unat sz + 64"
    and "first \<noteq> 0 \<Longrightarrow> unat a + align8 (unat first) \<le> lim \<and> align8 (unat first) \<le> unat sz + 64 \<and>
      unat r + align8 (unat (len - first)) \<le> lim \<and> align8 (unat (len - first)) \<le> unat sz + 64"
proof -
  note b = assms(1) [unfolded block_in_def]
  have al: "align8 k < k + 8" for k by (rule align8_bounds)
  have e: "unat (ucast r + sz :: u64) = unat r + unat sz"
    using b by (subst unat_add_below) (simp_all add: unat_ucast_up)
  have l: "unat (a + len) = unat a + unat len" using b by (subst unat_add_below) simp_all
  show "align8 (unat len) \<le> unat sz + 64" using b al [of "unat len"] by simp
  have "unat (ucast r + sz) \<noteq> unat a" using b e by simp
  then have lt: "ucast r + sz - a \<noteq> 0" by auto
  show "unat a + align8 (unat len) \<le> lim" if "first = 0"
  proof -
    have "\<not> ucast r + sz < a + len"
      using that first lt by (auto simp: buff_len_to_wrap_boundary_def Let_def split: if_splits)
    then have "unat a + unat len \<le> unat r + unat sz" using e l by (simp add: word_less_nat_alt)
    then show ?thesis using b al [of "unat len"] by simp
  qed
  assume nz: "first \<noteq> 0"
  from nz first have f: "first = ucast r + sz - a" and over: "ucast r + sz < a + len"
    by (auto simp: buff_len_to_wrap_boundary_def Let_def split: if_splits)
  have "unat first = unat r + unat sz - unat a"
    unfolding f using b e by (subst unat_diff_le) (simp_all add: word_le_nat_alt)
  moreover have "unat (len - first) = unat len - unat first"
    using over e l \<open>unat first = _\<close> b by (subst unat_diff_le) (simp_all add: word_le_nat_alt word_less_nat_alt)
  ultimately show "unat a + align8 (unat first) \<le> lim \<and> align8 (unat first) \<le> unat sz + 64 \<and>
      unat r + align8 (unat (len - first)) \<le> lim \<and> align8 (unat (len - first)) \<le> unat sz + 64"
    using b al [of "unat first"] al [of "unat (len - first)"] by auto
qed

lemma session_bufs:
  assumes "in_session t r s"
  shows "h2t_rx_buff (bufs s) = H2T_MEM_BASE_ADDR (t_info t)" "h2t_rx_buff_sz (bufs s) = H2T_MEM_SZ (t_info t)"
    "t2h_tx_buff (bufs s) = T2H_MEM_BASE_ADDR (t_info t)" "t2h_tx_buff_sz (bufs s) = T2H_MEM_SZ (t_info t)"
    "mgmt_rx_buff (bufs s) = 0" "length (h2t_header_buff (bufs s)) = 10" "length (t2h_header_buff (bufs s)) = 10"
    "length (mgmt_header_buff (bufs s)) = 10" "hw_callbacks (conn s) = get_hw_callbacks (t_bus t) (t_char_signed t)"
    "loopback_mode (conn s) = 0" "use_wrapping_data_buffers (bufs s)"
  using assms by (simp_all add: in_session_def server_idle_def memory_ok_def)

text \<open>A second step is taken only after a first one that went well.\<close>

lemma runs_two:
  assumes "runs m (\<lambda>(rc, s1). P rc s1)" and "\<And>s1. P OK s1 \<Longrightarrow> runs (g s1) (\<lambda>(rc, s2). P rc s2)"
  shows "runs (do { (rc, s1) \<leftarrow> m; if rc = OK then g s1 else Some (rc, s1) }) (\<lambda>(rc, s2). P rc s2)"
  using assms by (fastforce simp: runs_def)

lemma recv_payload_runs:
  assumes t: "sound_target t" and s: "in_session t 1 s" and c: "c \<noteq> fd"
    and a: "block_in (t_span t) (H2T_MEM_BASE_ADDR (t_info t)) (H2T_MEM_SZ (t_info t)) a len"
  shows "runs (recv_h2t_payload (t_bus t) fd a len s) (\<lambda>(rc, s').
    rc = OK \<and> in_session t 1 s' \<and> conn s' = conn s \<and> input_kept c (world s) (world s'))"
proof -
  let ?r = "H2T_MEM_BASE_ADDR (t_info t)" and ?sz = "H2T_MEM_SZ (t_info t)"
  let ?first = "buff_len_to_wrap_boundary (ucast ?r) ?sz a len"
  note p = block_pieces [OF a refl]
  have low: "0x118 \<le> unat ?r" "0x118 \<le> unat a" "unat (ucast ?r :: u64) = unat ?r"
    using t a by (simp_all add: sound_target_def block_in_def unat_ucast_up)
  note b = session_bufs [OF s]
  show ?thesis
  proof (cases "?first \<noteq> 0")
    case False
    then have "recv_h2t_payload (t_bus t) fd a len s = recv_h2t (t_bus t) fd a len s"
      by (auto simp: recv_h2t_payload_def b Let_def)
    with recv_h2t_runs [OF t s c p(1) low(2) p(2)] False show ?thesis by simp
  next
    case True
    with b(11) have two: "recv_h2t_payload (t_bus t) fd a len s = do {
        (rc, s1) \<leftarrow> recv_h2t (t_bus t) fd a ?first s;
        if rc = OK then recv_h2t (t_bus t) fd (ucast ?r) (len - ?first) s1 else Some (rc, s1) }"
      unfolding recv_h2t_payload_def b Let_def by simp
    note p2 = p(3) [OF True]
    have first: "runs (recv_h2t (t_bus t) fd a ?first s) (\<lambda>(rc, s1).
        rc = OK \<and> in_session t 1 s1 \<and> conn s1 = conn s \<and> input_kept c (world s) (world s1))"
      using p2 low by (intro recv_h2t_runs [OF t s c]) simp_all
    show ?thesis unfolding two
    proof (rule runs_two [OF first])
      fix s1 assume "OK = OK \<and> in_session t 1 s1 \<and> conn s1 = conn s \<and> input_kept c (world s) (world s1)"
      then have s1: "in_session t 1 s1" "conn s1 = conn s" "input_kept c (world s) (world s1)" by simp_all
      have "runs (recv_h2t (t_bus t) fd (ucast ?r) (len - ?first) s1) (\<lambda>(rc, s').
          rc = OK \<and> in_session t 1 s' \<and> conn s' = conn s1 \<and> input_kept c (world s1) (world s'))"
        using p2 low by (intro recv_h2t_runs [OF t s1(1) c]) simp_all
      then show "runs (recv_h2t (t_bus t) fd (ucast ?r) (len - ?first) s1) (\<lambda>(rc, s').
          rc = OK \<and> in_session t 1 s' \<and> conn s' = conn s \<and> input_kept c (world s) (world s'))"
        using s1 by (auto elim!: runs_weaken intro: input_kept_trans)
    qed
  qed
qed

lemma send_payload_runs:
  assumes t: "sound_target t" and s: "in_session t r s"
    and a: "block_in (t_span t) (T2H_MEM_BASE_ADDR (t_info t)) (H2T_MEM_SZ (t_info t)) a len"
  shows "runs (send_t2h_payload (t_bus t) fd a len s) (\<lambda>(rc, s').
    in_session t r s' \<and> conn s' = conn s \<and> input_kept c (world s) (world s'))"
proof -
  let ?r = "T2H_MEM_BASE_ADDR (t_info t)" and ?sz = "H2T_MEM_SZ (t_info t)"
  let ?first = "buff_len_to_wrap_boundary (ucast ?r) ?sz a len"
  note p = block_pieces [OF a refl]
  have e: "unat (ucast ?r :: u64) = unat ?r" by (simp add: unat_ucast_up)
  have same: "T2H_MEM_SZ (t_info t) = ?sz" using t by (simp add: sound_target_def)
  note b = session_bufs [OF s, unfolded same]
  show ?thesis
  proof (cases "?first \<noteq> 0")
    case False
    then have "send_t2h_payload (t_bus t) fd a len s = send_t2h (t_bus t) fd a len s"
      by (auto simp: send_t2h_payload_def b Let_def)
    with send_t2h_runs [OF t s p(1) p(2)] False show ?thesis by simp
  next
    case True
    with b(11) have two: "send_t2h_payload (t_bus t) fd a len s = do {
        (rc, s1) \<leftarrow> send_t2h (t_bus t) fd a ?first s;
        if rc = OK then send_t2h (t_bus t) fd (ucast ?r) (len - ?first) s1 else Some (rc, s1) }"
      unfolding send_t2h_payload_def b Let_def by simp
    note p2 = p(3) [OF True]
    have first: "runs (send_t2h (t_bus t) fd a ?first s) (\<lambda>(rc, s1).
        in_session t r s1 \<and> conn s1 = conn s \<and> input_kept c (world s) (world s1))"
      using p2 by (intro send_t2h_runs [OF t s]) simp_all
    show ?thesis unfolding two
    proof (rule runs_two [OF first])
      fix s1 assume "in_session t r s1 \<and> conn s1 = conn s \<and> input_kept c (world s) (world s1)"
      then have s1: "in_session t r s1" "conn s1 = conn s" "input_kept c (world s) (world s1)" by simp_all
      have "runs (send_t2h (t_bus t) fd (ucast ?r) (len - ?first) s1) (\<lambda>(rc, s').
          in_session t r s' \<and> conn s' = conn s1 \<and> input_kept c (world s1) (world s'))"
        using p2 e by (intro send_t2h_runs [OF t s1(1)]) simp_all
      then show "runs (send_t2h (t_bus t) fd (ucast ?r) (len - ?first) s1) (\<lambda>(rc, s').
          in_session t r s' \<and> conn s' = conn s \<and> input_kept c (world s) (world s'))"
        using s1 by (auto elim!: runs_weaken intro: input_kept_trans)
    qed
  qed
qed

section \<open>The data channels\<close>

text \<open>What one action of a session does: the session goes on, and the control socket's input is kept.\<close>

definition carries_on :: "'h target \<Rightarrow> int \<Rightarrow> 'h srv \<Rightarrow> 'h srv \<Rightarrow> bool" where
  "carries_on t c s s' \<longleftrightarrow> in_session t 0 s' \<and> input_kept c (world s) (world s')"

lemma carries_on_trans: "carries_on t c s s1 \<Longrightarrow> carries_on t c s1 s2 \<Longrightarrow> carries_on t c s s2"
  by (auto simp: carries_on_def intro: input_kept_trans)

lemma runs_on_drv:
  "runs (on_drv f s) P = runs (f (drv (mach s))) (\<lambda>(r, d). P (r, s\<lparr>mach := (mach s)\<lparr>drv := d\<rparr>\<rparr>))"
  by (simp add: on_drv_def case_prod_beta')

lemma h2t_of_bytes_6: "length bs = 6 \<Longrightarrow> \<exists>h. h2t_of_bytes bs = Some h"
  by (simp add: h2t_of_bytes_def packet_sizes)

lemma header_runs:
  assumes "in_session t 0 s" and "c \<noteq> h2t_data_fd client"
  shows "runs (update_curr_h2t_header client s) (\<lambda>(rc, s1). carries_on t c s s1)"
proof (cases "h2t_waiting (conn s)")
  case True
  with assms show ?thesis by (simp add: update_curr_h2t_header_def carries_on_def)
next
  case False
  note b = session_bufs [OF assms(1)]
  have "unat header_len \<le> length (h2t_header_buff (bufs s))" using b by simp
  from recv_accumulate_total [OF this, of "h2t_data_fd client" "world s"] False assms b(6) show ?thesis
    by (auto simp: update_curr_h2t_header_def carries_on_def elim!: runs_weaken intro: only_rx_kept)
qed

lemma target_runs:
  assumes t: "sound_target t" and s: "in_session t 0 s" and len: "unat len < 65536"
  shows "runs (h2t_target len s) (\<lambda>(a, s1). world s1 = world s \<and> bufs s1 = bufs s \<and> (if a = 0 then in_session t 0 s1
    else in_session t 1 s1 \<and> block_in (t_span t) (H2T_MEM_BASE_ADDR (t_info t)) (H2T_MEM_SZ (t_info t)) a len))"
proof -
  let ?r = "H2T_MEM_BASE_ADDR (t_info t)"
  note ip = sound_targetD [OF t]
  have d: "t_in_step t 0 (drv (mach s))" using s by (simp add: in_session_def)
  have nz: "(ucast a :: u64) = 0 \<longleftrightarrow> a = 0" for a :: u32 using ucast_nonzero [of a] by auto
  have blk: "block_in (t_span t) ?r (H2T_MEM_SZ (t_info t)) (ucast (?r + of_nat off)) len \<and> ?r + of_nat off \<noteq> 0"
    if "off < t_size t" "unat len \<le> t_size t" for off
  proof -
    have b: "block_in (t_span t) ?r (H2T_MEM_SZ (t_info t)) (ucast (?r + of_nat off)) len"
      using block_address [OF ip(8,4) that] .
    then have "unat ?r \<le> unat (?r + of_nat off)" by (simp add: block_in_def unat_ucast_up)
    with ip(7) b show ?thesis by auto
  qed
  have "unat len < 2 ^ 63" using len by simp
  from get_h2t_runs [OF ip(1-3) d ip(5) this, of "t_char_signed t"] show ?thesis
    using session_bufs(9,10) [OF s] s blk
    by (auto simp: h2t_target_def get_hw_callbacks_def runs_on_drv nz world_def in_session_drv elim!: runs_weaken)
qed

text \<open>The calls of the driver, from a session.\<close>

lemma push_session:
  assumes t: "sound_target t" and s: "in_session t 1 s"
  obtains d where "push_h2t_data (t_bus t) hdr a (drv (mach s)) = Some (0, d)"
    "in_session t 0 (s\<lparr>mach := (mach s)\<lparr>drv := d\<rparr>\<rparr>)" "world (s\<lparr>mach := (mach s)\<lparr>drv := d\<rparr>\<rparr>) = world s"
proof -
  have d: "t_in_step t 1 (drv (mach s))" using s by (simp add: in_session_def)
  from push_h2t_runs [OF sound_targetD(1-3) [OF t] d, of hdr a] in_session_drv [OF s] that show thesis by (auto simp: runs_def world_def)
qed

lemma t2h_complete_session:
  assumes t: "sound_target t" and s: "in_session t 0 s"
  obtains d where "t2h_data_complete (t_bus t) (drv (mach s)) = Some d"
    "in_session t 0 (s\<lparr>mach := (mach s)\<lparr>drv := d\<rparr>\<rparr>)" "world (s\<lparr>mach := (mach s)\<lparr>drv := d\<rparr>\<rparr>) = world s"
proof -
  have d: "t_in_step t 0 (drv (mach s))" using s by (simp add: in_session_def)
  from t2h_complete_runs [OF sound_targetD(1-3) [OF t] d] in_session_drv [OF s] that show thesis by (auto simp: runs_def world_def)
qed

lemma get_t2h_session:
  assumes t: "sound_target t" and s: "in_session t 0 s"
  obtains hdr a d where "get_t2h_data (t_bus t) h0 pay0 (drv (mach s)) = Some (0, hdr, a, d)"
    "in_session t 0 (s\<lparr>mach := (mach s)\<lparr>drv := d\<rparr>\<rparr>)"
    "DATA_LEN_BYTES hdr \<noteq> 0 \<longrightarrow>
      block_in (t_span t) (T2H_MEM_BASE_ADDR (t_info t)) (H2T_MEM_SZ (t_info t)) (ucast a) (ucast (DATA_LEN_BYTES hdr) :: size_t)"
proof -
  note ip = sound_targetD [OF t]
  have d: "t_in_step t 0 (drv (mach s))" using s by (simp add: in_session_def)
  from get_t2h_runs [of "t_bus t" "t_base t" "t_slots t" "t_info t" "t_held t", OF _ ip(2,3) d] ip obtain hdr a d1 where
    d1: "get_t2h_data (t_bus t) h0 pay0 (drv (mach s)) = Some (0, hdr, a, d1)" "t_in_step t 0 d1"
      "DATA_LEN_BYTES hdr \<noteq> 0 \<longrightarrow> unat (DATA_LEN_BYTES hdr) \<le> t_size t \<and>
        (\<exists>off < t_size t. a = T2H_MEM_BASE_ADDR (t_info t) + of_nat off)"
    by (fastforce simp: runs_def)
  have "DATA_LEN_BYTES hdr \<noteq> 0 \<longrightarrow>
      block_in (t_span t) (T2H_MEM_BASE_ADDR (t_info t)) (H2T_MEM_SZ (t_info t)) (ucast a) (ucast (DATA_LEN_BYTES hdr) :: size_t)"
    using d1(3) block_address [OF ip(9,4), of _ "ucast (DATA_LEN_BYTES hdr)"]
    by (auto simp: unat_ucast_up)
  with that [OF d1(1) in_session_drv [OF s d1(2)]] show thesis .
qed

lemma process_h2t_runs:
  assumes t: "sound_target t" and s: "in_session t 0 s" and c: "c \<noteq> h2t_data_fd client"
  shows "runs (process_h2t_data (t_bus t) client s) (\<lambda>(rc, s'). carries_on t c s s')"
proof -
  from header_runs [OF s c] obtain rc s1 where h: "update_curr_h2t_header client s = Some (rc, s1)" and s1: "carries_on t c s s1"
    by (auto simp: runs_def)
  then have in1: "in_session t 0 s1" by (simp add: carries_on_def)
  have "length (drop SIZEOF_PACKET_GUARDBAND (h2t_header_buff (bufs s1))) = 6"
    using session_bufs(6) [OF in1] by (simp add: packet_sizes)
  from h2t_of_bytes_6 [OF this] obtain hdr where
    hdr: "h2t_of_bytes (drop SIZEOF_PACKET_GUARDBAND (h2t_header_buff (bufs s1))) = Some hdr" by blast
  let ?len = "ucast (DATA_LEN_BYTES hdr) :: size_t" and ?fd = "h2t_data_fd client"
  have "unat ?len < 65536" using unsigned_less [of "DATA_LEN_BYTES hdr"] by (simp add: unat_ucast_up)
  from target_runs [OF t in1 this] obtain a s2 where
    s2: "h2t_target ?len s1 = Some (a, s2)" "world s2 = world s1" "a = 0 \<Longrightarrow> in_session t 0 s2"
      "a \<noteq> 0 \<Longrightarrow> in_session t 1 s2 \<and> block_in (t_span t) (H2T_MEM_BASE_ADDR (t_info t)) (H2T_MEM_SZ (t_info t)) a ?len"
    by (fastforce simp: runs_def)
  consider "rc \<noteq> OK" | "rc = OK" "a = 0" | "rc = OK" "a \<noteq> 0" by blast
  then show ?thesis
  proof cases
    case 1
    with h s1 show ?thesis by (simp add: process_h2t_data_def)
  next
    case 2
    with h hdr s2 s1 show ?thesis by (simp add: process_h2t_data_def Let_def carries_on_def)
  next
    case 3
    let ?s3 = "(upd_stats (\<lambda>st. st\<lparr>h2t_cnt := h2t_cnt st + 1\<rparr>) s2)
      \<lparr>conn := (conn (upd_stats (\<lambda>st. st\<lparr>h2t_cnt := h2t_cnt st + 1\<rparr>) s2))\<lparr>h2t_waiting := False\<rparr>\<rparr>"
    have in3: "in_session t 1 ?s3" "block_in (t_span t) (H2T_MEM_BASE_ADDR (t_info t)) (H2T_MEM_SZ (t_info t)) a ?len"
      using s2(4) 3(2) by simp_all
    from recv_payload_runs [OF t in3(1) c in3(2)] obtain s4 where
      s4: "recv_h2t_payload (t_bus t) ?fd a ?len ?s3 = Some (OK, s4)" "in_session t 1 s4" "input_kept c (world s2) (world s4)"
      by (auto simp: runs_def)
    obtain d5 where d5: "push_h2t_data (t_bus t) hdr (ucast a) (drv (mach s4)) = Some (0, d5)"
      "in_session t 0 (s4\<lparr>mach := (mach s4)\<lparr>drv := d5\<rparr>\<rparr>)" "world (s4\<lparr>mach := (mach s4)\<lparr>drv := d5\<rparr>\<rparr>) = world s4"
      by (rule push_session [OF t s4(2)])
    have "process_h2t_data (t_bus t) client s = Some (return_code_of_int 0, s4\<lparr>mach := (mach s4)\<lparr>drv := d5\<rparr>\<rparr>)"
      using h hdr s2(1) 3 s4(1) session_bufs(9,10) [OF s4(2)] d5(1)
      by (simp add: process_h2t_data_def Let_def get_hw_callbacks_def on_drv_def)
    moreover have "carries_on t c s (s4\<lparr>mach := (mach s4)\<lparr>drv := d5\<rparr>\<rparr>)"
      using d5(2,3) s1 s2(2) s4(3) by (auto simp: carries_on_def intro: input_kept_trans)
    ultimately show ?thesis by simp
  qed
qed

text \<open>Management packets wait for ever, and there are no management responses.\<close>

lemma process_mgmt_runs:
  assumes s: "in_session t 0 s" and c: "c \<noteq> mgmt_fd client"
  shows "runs (process_mgmt_data client s) (\<lambda>(rc, s'). carries_on t c s s')"
proof -
  have "runs (update_curr_mgmt_header client s) (\<lambda>(rc, s1). carries_on t c s s1)"
  proof (cases "mgmt_waiting (conn s)")
    case True
    with s show ?thesis by (simp add: update_curr_mgmt_header_def carries_on_def)
  next
    case False
    have "unat mgmt_header_len \<le> length (mgmt_header_buff (bufs s))"
      using session_bufs(8) [OF s] by (simp add: mgmt_header_len_def packet_sizes)
    from recv_accumulate_total [OF this, of "mgmt_fd client" "world s"] False s c session_bufs(8) [OF s] show ?thesis
      by (auto simp: update_curr_mgmt_header_def carries_on_def elim!: runs_weaken intro: only_rx_kept)
  qed
  then obtain rc s1 where h: "update_curr_mgmt_header client s = Some (rc, s1)" and s1: "carries_on t c s s1"
    by (auto simp: runs_def)
  then have in1: "in_session t 0 s1" by (simp add: carries_on_def)
  note b = session_bufs [OF in1]
  obtain hdr where "mgmt_of_bytes (drop SIZEOF_PACKET_GUARDBAND (mgmt_header_buff (bufs s1))) = Some hdr"
    using b(8) by (simp add: mgmt_of_bytes_def packet_sizes)
  moreover have "mgmt_target n s1 = Some (0, s1)" for n
    using b(5,9) by (simp add: mgmt_target_def get_hw_callbacks_def SERVER_HW_CALLBACKS_default_def)
  ultimately show ?thesis
    using h s1 by (simp add: process_mgmt_data_def Let_def carries_on_def)
qed

lemma process_t2h_runs:
  assumes t: "sound_target t" and s: "in_session t 0 s"
  shows "runs (process_t2h_data (t_bus t) pay0 client s) (\<lambda>(rc, s'). carries_on t c s s')"
proof -
  note b = session_bufs [OF s]
  let ?hb = "t2h_header_buff (bufs s)" and ?fd = "t2h_data_fd client"
  have "length (drop SIZEOF_PACKET_GUARDBAND ?hb) = 6" using b(7) by (simp add: packet_sizes)
  from h2t_of_bytes_6 [OF this] obtain h0 where h0: "h2t_of_bytes (drop SIZEOF_PACKET_GUARDBAND ?hb) = Some h0" by blast
  obtain hdr a d1 where d1: "get_t2h_data (t_bus t) h0 pay0 (drv (mach s)) = Some (0, hdr, a, d1)"
    "in_session t 0 (s\<lparr>mach := (mach s)\<lparr>drv := d1\<rparr>\<rparr>)"
    "DATA_LEN_BYTES hdr \<noteq> 0 \<longrightarrow>
      block_in (t_span t) (T2H_MEM_BASE_ADDR (t_info t)) (H2T_MEM_SZ (t_info t)) (ucast a) (ucast (DATA_LEN_BYTES hdr) :: size_t)"
    by (rule get_t2h_session [OF t s])
  obtain hb where hb: "store_h2t_header hdr ?hb = Some hb" "length hb = 10"
    using b(7) by (simp add: store_h2t_header_def store_at_fits packet_sizes)
  let ?s1 = "upd_buff (\<lambda>b. b\<lparr>t2h_header_buff := hb\<rparr>) (s\<lparr>mach := (mach s)\<lparr>drv := d1\<rparr>\<rparr>)"
  let ?s2 = "upd_stats (\<lambda>st. st\<lparr>t2h_cnt := t2h_cnt st + 1\<rparr>) ?s1"
  have s1: "in_session t 0 ?s1" "world ?s1 = world s" using d1(2) hb(2) by (simp_all add: world_set_mach) (simp add: world_def)
  note code = process_t2h_data_def b(9) get_hw_callbacks_def h0 d1(1) hb(1) Let_def
  show ?thesis
  proof (cases "DATA_LEN_BYTES hdr = 0")
    case True
    with s1 show ?thesis by (simp add: code carries_on_def)
  next
    case False
    let ?len = "ucast (DATA_LEN_BYTES hdr) :: size_t"
    have "unat header_len \<le> length (t2h_header_buff (bufs ?s2))" using hb(2) by (simp add: upd_stats_def upd_buff_def)
    from send_all_total [OF this, of ?fd ?s2] obtain rc w where
      s3: "send_all ?fd (t2h_header_buff (bufs ?s2)) header_len ?s2 = Some (rc, set_world w ?s2)" "same_input (world s) w"
      using s1(2) by auto
    have in3: "in_session t 0 (set_world w ?s2)" "input_kept c (world s) w"
      using s1(1) same_input_kept [OF s3(2)] by simp_all
    have "block_in (t_span t) (T2H_MEM_BASE_ADDR (t_info t)) (H2T_MEM_SZ (t_info t)) (ucast a) ?len" using d1(3) False by simp
    from send_payload_runs [OF t in3(1) this, of ?fd c] obtain rc1 s4 where
      s4: "send_t2h_payload (t_bus t) ?fd (ucast a) ?len (set_world w ?s2) = Some (rc1, s4)" "in_session t 0 s4"
        "input_kept c w (world s4)"
      by (auto simp: runs_def)
    have kept: "input_kept c (world s) (world s4)" using in3(2) s4(3) by (rule input_kept_trans)
    obtain d4 where d4: "t2h_data_complete (t_bus t) (drv (mach s4)) = Some d4"
      "in_session t 0 (s4\<lparr>mach := (mach s4)\<lparr>drv := d4\<rparr>\<rparr>)" "world (s4\<lparr>mach := (mach s4)\<lparr>drv := d4\<rparr>\<rparr>) = world s4"
      by (rule t2h_complete_session [OF t s4(2)])
    with False in3 s3(1) s4(1,2) kept session_bufs(9) [OF s4(2)] show ?thesis
      by (simp add: code carries_on_def)
  qed
qed

section \<open>The control channel\<close>

lemma set_parameter_loopback:
  assumes "set_parameter cmd client s = Some (r, s')" and "at_start cmd SET_PARAM_CMD = Some True"
    and "at_start (drop 10 cmd) SERVER_LOOPBACK_MODE_PARAM \<noteq> Some True"
  shows "loopback_mode (conn s') = loopback_mode (conn s)"
proof -
  have "drop SET_PARAM_CMD_LEN cmd = drop 10 cmd" by (simp add: SET_PARAM_CMD_LEN_def)
  with assms(1,3) at_start_True(1) [OF assms(2)] show ?thesis
    by (auto simp: set_parameter_def sys_calls Let_def split: bind_splits option.splits if_splits)
qed

lemma get_parameter_conn: "get_parameter cmd s = Some (r, s') \<Longrightarrow> loopback_mode (conn s') = loopback_mode (conn s)"
  by (auto simp: get_parameter_def print_number_def Let_def split: bind_splits if_splits)

lemma driver_parameter_conn:
  "set_driver_parameter cmd s = Some (r, s') \<Longrightarrow> conn s' = conn s"
  "get_driver_parameter cmd s = Some (r, s') \<Longrightarrow> conn s' = conn s"
  by (auto simp: set_driver_parameter_def get_driver_parameter_def on_drv_def Let_def split: bind_splits option.splits if_splits prod.splits)

lemma send_all_conn: "send_all fd bytes len s = Some (rc, s') \<Longrightarrow> conn s' = conn s"
  by (auto simp: send_all_def split: bind_splits)

lemma respond_conn: "respond fd limit rs = Some (rc, s') \<Longrightarrow> conn s' = conn (snd rs)"
  by (auto simp: respond_def dest: send_all_conn split: bind_splits)

lemma tested:
  assumes "m \<bind> (\<lambda>b. if b then t else e) = Some x"
  obtains "m = Some True" "t = Some x" | "m = Some False" "e = Some x"
  using assms by (auto split: bind_splits if_splits)

lemma answered_text:
  assumes "(do { rs \<leftarrow> m; (r, s1) \<leftarrow> respond fd limit rs; Some (r, q, s1) }) = Some (rc, quit, s')"
  obtains rs where "m = Some rs" "conn s' = conn (snd rs)"
  using assms by (auto dest: respond_conn split: bind_splits)

lemma answered_plain:
  assumes "(do { (r, s1) \<leftarrow> send_all fd bytes len s; Some (f r, q, s1) }) = Some (rc, quit, s')"
  shows "conn s' = conn s"
  using assms by (auto dest: send_all_conn split: bind_splits)

lemma answered_waiting:
  assumes "(do { (r, s1) \<leftarrow> send_all fd bytes len s; _ \<leftarrow> wait_for_read_event fd'; Some (f r, q, s1) }) = Some (rc, quit, s')"
  shows "conn s' = conn s"
  using assms by (auto dest: send_all_conn split: bind_splits)

lemma control_loopback:
  assumes "process_control_message client s = Some (rc, quit, s')"
    and "socket_recv_until_null_reached (ctrl_fd client) (ctrl_rx_buff (bufs s)) (ctrl_rx_buff_sz (bufs s)) (world s) =
      Some (rc0, n, cmd, w)"
    and "rc0 = OK \<Longrightarrow> at_start cmd SET_PARAM_CMD = Some True \<Longrightarrow> at_start (drop 10 cmd) SERVER_LOOPBACK_MODE_PARAM \<noteq> Some True"
  shows "loopback_mode (conn s') = loopback_mode (conn s)"
proof (cases "rc0 = OK")
  case False
  with assms(1,2) show ?thesis by (auto simp: process_control_message_def Let_def)
next
  case True
  define s1 where "s1 = upd_buff (\<lambda>b. b\<lparr>ctrl_rx_buff := cmd\<rparr>) (set_world w s)"
  have "loopback_mode (conn s1) = loopback_mode (conn s)" by (simp add: s1_def)
  with assms(1,2) True assms(3) show ?thesis
    by (simp add: process_control_message_def s1_def [symmetric] Let_def cong: if_cong)
       (elim tested answered_text; auto dest: answered_plain answered_waiting get_parameter_conn set_parameter_loopback driver_parameter_conn)
qed

lemma in_session_undisturbed:
  assumes "in_session t r s" and "undisturbed s s'" and "text_buffers_ok (bufs s')" and "loopback_mode (conn s') = 0"
  shows "in_session t r s'"
proof -
  have strip: "memory_ok info b = memory_ok info (b\<lparr>ctrl_rx_buff := [], ctrl_tx_buff := []\<rparr>)" for info b
    by (simp add: memory_ok_def)
  have "memory_ok (t_info t) (bufs s')"
    using assms(1,2) strip [of "t_info t" "bufs s"] by (subst strip) (simp add: undisturbed_def in_session_def server_idle_def)
  with assms show ?thesis
    by (auto simp: in_session_def server_idle_def undisturbed_def buffers_ready_def)
qed

lemma process_control_runs:
  assumes s: "in_session t 0 s" and input: "commands_ok 512 [] (rx (world s) (ctrl_fd client))"
    and fd: "fd_settable (ctrl_fd client)"
  shows "runs (process_control_message client s) (\<lambda>(rc, quit, s'). in_session t 0 s' \<and>
    accept_results (world s') = accept_results (world s) \<and> (rc \<noteq> FAILURE \<longrightarrow> commands_ok 512 [] (rx (world s') (ctrl_fd client))))"
proof -
  let ?fd = "ctrl_fd client" and ?b = "ctrl_rx_buff (bufs s)"
  have tb: "text_buffers_ok (bufs s)" "ctrl_rx_buff_sz (bufs s) = 512" "loopback_mode (conn s) = 0"
    using s by (simp_all add: in_session_def server_idle_def memory_ok_def)
  then have len: "length ?b = 512" "last ?b = 0" by (simp_all add: text_buffers_ok_def)
  from recv_command [of 0 512 "[]" "world s" ?fd ?b 512] input len obtain rc n got w where
    recv: "socket_recv_until_null_reached ?fd ?b (ctrl_rx_buff_sz (bufs s)) (world s) = Some (rc, n, got @ drop (length got) ?b, w)"
      "length got < 512" "only_rx ?fd (world s) w"
      "rc = OK \<Longrightarrow> 0 \<in> set got \<and> tame_command got \<and> commands_ok 512 [] (rx w ?fd)"
    using tb(2) by (auto simp: socket_recv_until_null_reached_def)
  define cmd where "cmd = got @ drop (length got) ?b"
  define s1 where "s1 = upd_buff (\<lambda>b. b\<lparr>ctrl_rx_buff := cmd\<rparr>) (set_world w s)"
  have cmd: "length cmd = 512" "last cmd = 0" using recv(2) len by (simp_all add: cmd_def)
  have ok1: "text_buffers_ok (bufs s1)" using tb cmd by (simp add: s1_def text_buffers_ok_def)
  have in1: "in_session t 0 s1"
    using s ok1 by (simp add: s1_def in_session_def server_idle_def memory_ok_def)
  have pieces: "cmd = take (length got) got @ drop (length got) ?b" by (simp add: cmd_def)
  have no: "at_start cmd SET_DRIVER_PARAM_CMD \<noteq> Some True" "at_start cmd GET_DRIVER_PARAM_CMD \<noteq> Some True" if "rc = OK"
    using at_start_stream [of "length got" got "drop (length got) ?b" SET_DRIVER_PARAM_CMD]
      at_start_stream [of "length got" got "drop (length got) ?b" GET_DRIVER_PARAM_CMD] recv(4) that
    by (auto simp: pieces cmds tame_command_def numeral_eq_Suc)
  have mode: "at_start (drop 10 cmd) SERVER_LOOPBACK_MODE_PARAM \<noteq> Some True"
    if "rc = OK" "at_start cmd SET_PARAM_CMD = Some True"
  proof -
    have "take 9 got = str ''SET_PARAM''"
      using at_start_stream [of "length got" got "drop (length got) ?b" SET_PARAM_CMD] recv(4) that
      by (simp add: pieces cmds numeral_eq_Suc)
    then have name: "0 \<in> set (drop 10 got)" "take 15 (drop 10 got) \<noteq> str ''SERVER_LOOPBACK''"
      using recv(4) that(1) by (auto simp: tame_command_def)
    then have "10 < length got" by (auto intro: ccontr)
    then have "drop 10 cmd = take (length got) (drop 10 got) @ drop (length got) ?b" by (simp add: cmd_def)
    with at_start_stream [of "length got" "drop 10 got" "drop (length got) ?b" SERVER_LOOPBACK_MODE_PARAM] name show ?thesis
      by (auto simp: SERVER_LOOPBACK_MODE_PARAM_def lit_def numeral_eq_Suc str_def)
  qed
  note recv' = recv(1) [folded cmd_def]
  from control_message_handled [OF recv' s1_def ok1 no fd] obtain r quit s' where
    s': "process_control_message client s = Some (r, quit, s')" "text_buffers_ok (bufs s')" "undisturbed s1 s'"
    by (auto simp: handled_def)
  have "loopback_mode (conn s') = 0" using control_loopback [OF s'(1) recv' mode] tb(3) by simp
  with in_session_undisturbed [OF in1 s'(3,2)] have "in_session t 0 s'" .
  moreover have "rx (world s') = rx w" "accept_results (world s') = accept_results (world s)"
    using s'(3) recv(3) by (auto simp: undisturbed_def s1_def only_rx_def)
  moreover have "rc = OK" if "r \<noteq> FAILURE" using s'(1) recv' that by (cases "rc = OK") (simp_all add: process_control_message_def Let_def)
  ultimately show ?thesis using s'(1) recv(4) by simp
qed

section \<open>A session\<close>

text \<open>What holds after an action: the session goes on, and while the loop was not left, so do the commands.\<close>

definition live :: "'h target \<Rightarrow> CLIENT_CONN \<Rightarrow> bool \<times> 'h srv \<Rightarrow> bool" where
  "live t client o1 \<longleftrightarrow> in_session t 0 (snd o1) \<and>
     (\<not> fst o1 \<longrightarrow> commands_ok 512 [] (rx (world (snd o1)) (ctrl_fd client)))"

lemma guarded_runs:
  assumes "live t client o1" and "\<And>s. in_session t 0 s \<Longrightarrow> runs (act s) (\<lambda>(rc, s'). carries_on t (ctrl_fd client) s s')"
  shows "runs (guarded ready act o1) (live t client)"
proof (cases o1)
  case (Pair left s)
  with assms(1) have s: "in_session t 0 s" by (simp add: live_def)
  from assms(2) [OF s] show ?thesis
    using assms(1) Pair s by (auto simp: guarded_def live_def carries_on_def input_kept_def elim!: runs_weaken)
qed

lemma control_act_runs:
  assumes "live t client o1" and fd: "fd_settable (ctrl_fd client)"
  shows "runs (control_act client ready o1) (live t client)"
proof (cases o1)
  case (Pair left s)
  show ?thesis
  proof (cases "left \<or> \<not> ready")
    case True
    with assms Pair show ?thesis by (auto simp: control_act_def)
  next
    case False
    with assms Pair have "in_session t 0 s" "commands_ok 512 [] (rx (world s) (ctrl_fd client))" by (auto simp: live_def)
    from process_control_runs [OF this fd] show ?thesis
      using False Pair by (auto simp: control_act_def live_def elim!: runs_weaken)
  qed
qed

lemma sys_eq: "sys f s = (fst (f (world s)), set_world (snd (f (world s))) s)"
  by (simp add: sys_def case_prod_beta' Let_def)

lemma os_calls_rx:
  "rx (snd (os_accept w)) = rx w" "rx (snd (os_send fd bytes w)) = rx w"
  "rx (snd (set_linger_socket_option fd a b w)) = rx w" "rx (snd (close_socket_fd fd w)) = rx w"
  by (simp_all add: os_accept_def os_send_def set_linger_socket_option_def os_setsockopt_def close_socket_fd_def os_close_def
      Let_def case_prod_beta' split: list.splits)

lemma reject_client_world: "\<exists>w. reject_client s = set_world w s \<and> rx w = rx (world s)"
proof (cases "fst (os_accept (world s)) = INVALID_SOCKET")
  case True
  then show ?thesis by (intro exI [of _ "snd (os_accept (world s))"]) (simp add: reject_client_def sys_eq os_calls_rx)
next
  case False
  then have "reject_client s = set_world (world (reject_client s)) s \<and> rx (world (reject_client s)) = rx (world s)"
    by (simp add: reject_client_def sys_eq os_calls_rx)
  then show ?thesis by blast
qed

lemma live_settable:
  "live t client (b, s) \<Longrightarrow> list_all fd_settable (client_fds client) \<Longrightarrow> list_all fd_settable (all_fds client s)"
  by (simp add: live_def in_session_def server_idle_def all_fds_def client_fds_def)

lemma client_step_runs:
  assumes t: "sound_target t" and s: "live t client (False, s)"
    and fds: "ctrl_fd client \<noteq> mgmt_fd client" "ctrl_fd client \<noteq> h2t_data_fd client"
      "list_all fd_settable (client_fds client)"
  shows "runs (client_step (t_bus t) pay0 client ev s) (live t client)"
proof (cases ev)
  case Select_failed
  with s show ?thesis by (simp add: client_step_def live_settable [OF s fds(3)] live_def)
next
  case (Ready rd wr ex)
  define s1 where "s1 = (if server_fd (conn s) \<in> set rd then reject_client s else s)"
  have s1: "live t client (False, s1)"
    using s reject_client_world [of s] by (auto simp: s1_def live_def)
  have fd: "fd_settable (ctrl_fd client)" using fds(3) by (simp add: client_fds_def)
  have mgmt: "runs (process_mgmt_data client s') (\<lambda>(rc, s''). carries_on t (ctrl_fd client) s' s'')"
    and h2t: "runs (process_h2t_data (t_bus t) client s') (\<lambda>(rc, s''). carries_on t (ctrl_fd client) s' s'')"
    and t2h: "runs (process_t2h_data (t_bus t) pay0 client s') (\<lambda>(rc, s''). carries_on t (ctrl_fd client) s' s'')"
    if "in_session t 0 s'" for s'
    using process_mgmt_runs [OF that fds(1)] process_h2t_runs [OF t that fds(2)] process_t2h_runs [OF t that] by simp_all
  have rsp: "guarded (b \<and> cb_acquire_mgmt_rsp_data (hw_callbacks (conn (snd o3))) \<noteq> None) act o3 = Some o3"
    if "live t client o3" for o3 b act
    using that session_bufs(9) [of t 0 "snd o3"]
    by (cases o3) (auto simp: guarded_def live_def get_hw_callbacks_def SERVER_HW_CALLBACKS_default_def)
  let ?tail = "\<lambda>o3. if fst o3 \<or> loopback_mode (conn (snd o3)) \<noteq> 0 then Some o3
    else do {
      o4 \<leftarrow> guarded (mgmt_rsp_fd client \<in> set wr \<and> cb_acquire_mgmt_rsp_data (hw_callbacks (conn (snd o3))) \<noteq> None)
              (process_mgmt_rsp_data pay0 client) o3;
      guarded (t2h_data_fd client \<in> set wr \<and> cb_acquire_t2h_data (hw_callbacks (conn (snd o4))) \<noteq> None)
        (process_t2h_data (t_bus t) pay0 client) o4
    }"
  have tail: "runs (?tail o3) (live t client)" if "live t client o3" for o3
    using that rsp [OF that] guarded_runs [OF that t2h] by simp
  have "runs (do {
      o1 \<leftarrow> control_act client (ctrl_fd client \<in> set rd) (False, s1);
      o2 \<leftarrow> guarded (mgmt_fd client \<in> set rd) (process_mgmt_data client) o1;
      o3 \<leftarrow> guarded (h2t_data_fd client \<in> set rd) (process_h2t_data (t_bus t) client) o2;
      ?tail o3 }) (live t client)"
    by (intro runs_then [OF control_act_runs [OF s1 fd]] runs_then [OF guarded_runs [OF _ mgmt]] runs_then [OF guarded_runs [OF _ h2t]] tail)
  with s show ?thesis by (auto simp: client_step_def live_settable [OF s fds(3)] Ready s1_def [symmetric] live_def Let_def)
qed

lemma handle_client_runs:
  assumes t: "sound_target t" and "live t client (False, s)"
    and fds: "ctrl_fd client \<noteq> mgmt_fd client" "ctrl_fd client \<noteq> h2t_data_fd client"
      "list_all fd_settable (client_fds client)"
  shows "runs (handle_client (t_bus t) pay0 client evs s) (live t client)"
  using assms(2)
proof (induction evs arbitrary: s)
  case Nil
  then show ?case by (simp add: live_settable [OF _ fds(3)])
next
  case (Cons ev evs)
  have rest: "runs (case o1 of (left, s1) \<Rightarrow> if left then Some (True, s1) else handle_client (t_bus t) pay0 client evs s1) (live t client)"
    if "live t client o1" for o1
  proof (cases o1)
    case (Pair left s1)
    with that Cons.IH [of s1] show ?thesis by (cases left) simp_all
  qed
  show ?case
    using runs_then [OF client_step_runs [OF t Cons.prems fds, of pay0 ev] rest] by simp
qed

end
