(* ===== verification/Service_Safety.thy ===== *)
theory Service_Safety
  imports Session_Safety
begin

text \<open>
  From accepting a client to closing its sockets, and from the start of the server to the end of its
  first client: no undefined behaviour, and the server is ready for the next client.
\<close>

section \<open>The handshake\<close>





text \<open>What a step of the handshake does to the input of the other sockets.\<close>

definition input_elsewhere :: "int \<Rightarrow> os \<Rightarrow> os \<Rightarrow> bool" where
  "input_elsewhere fd w w' \<longleftrightarrow> (\<forall>c. c \<noteq> fd \<longrightarrow> rx w' c = rx w c) \<and> accept_results w' = accept_results w"

lemma input_elsewhere_trans: "input_elsewhere fd w w1 \<Longrightarrow> input_elsewhere fd w1 w2 \<Longrightarrow> input_elsewhere fd w w2"
  by (simp add: input_elsewhere_def)

lemma same_input_elsewhere: "same_input w w' \<Longrightarrow> input_elsewhere fd w w'"
  by (simp add: same_input_def input_elsewhere_def)


















section \<open>Starting the server\<close>

















section \<open>Properties\<close>

















end
