(* ===== verification/Getopt.thy ===== *)
theory Getopt
  imports CBase
begin

text \<open>
  What the two command-line parsers of the program use of the C library: \<open>getopt_long\<close> of glibc,
  which permutes the argument vector, and \<open>strtol\<close> with base 0, with \<open>errno\<close>; on top of them the
  function that reads an integer argument, which \<^verbatim>\<open>main.cpp\<close> and
  \<^verbatim>\<open>protodrv_api/uio/src/intel_fpga_platform_api_uio.c\<close> both have.

  An argument is its bytes without the terminator. The environment variable \<open>POSIXLY_CORRECT\<close> is
  not set, and a message leaves \<open>errno\<close> alone.
\<close>

section \<open>Reading the options\<close>

text \<open>
  What a call of \<open>getopt_long\<close> reports: an option character with \<open>optarg\<close>, an option whose value the
  library stores through a flag pointer, or a question mark.
\<close>

datatype opt_event = Opt u8 "u8 list option" | Flag u8 | Bad

text \<open>A table: the short options and whether they take an argument; the long options likewise.\<close>

record long_option =
  opt_name :: "u8 list"
  has_arg :: bool
  sets_flag :: bool
  opt_val :: u8

record opt_table =
  shorts :: "(u8 \<times> bool) list"
  longs :: "long_option list"

text \<open>A group of short options; the result has the events, the arguments it took, and the others.\<close>

fun short_cluster :: "opt_table \<Rightarrow> u8 list \<Rightarrow> u8 list list \<Rightarrow> opt_event list \<times> u8 list list \<times> u8 list list" where
  "short_cluster t [] as = ([], [], as)"
| "short_cluster t (c # cs) as =
     (case map_of (shorts t) c of
        None \<Rightarrow> (let (es, tk, r) = short_cluster t cs as in (Bad # es, tk, r))
      | Some False \<Rightarrow> (let (es, tk, r) = short_cluster t cs as in (Opt c None # es, tk, r))
      | Some True \<Rightarrow>
          if cs \<noteq> [] then ([Opt c (Some cs)], [], as)
          else (case as of [] \<Rightarrow> ([Bad], [], []) | a # as' \<Rightarrow> ([Opt c (Some a)], [a], as')))"

text \<open>The name and the value of a long option; an exact name, or the only one that it abbreviates.\<close>

definition split_value :: "u8 list \<Rightarrow> u8 list \<times> u8 list option" where
  "split_value s = (takeWhile (\<lambda>b. b \<noteq> 61) s,
     if 61 \<in> set s then Some (drop 1 (dropWhile (\<lambda>b. b \<noteq> 61) s)) else None)"

definition find_long :: "opt_table \<Rightarrow> u8 list \<Rightarrow> long_option option" where
  "find_long t name =
     (case filter (\<lambda>o1. opt_name o1 = name) (longs t) of
        o1 # _ \<Rightarrow> Some o1
      | [] \<Rightarrow> (case filter (\<lambda>o1. take (length name) (opt_name o1) = name) (longs t) of
                [o1] \<Rightarrow> Some o1
              | _ \<Rightarrow> None))"

definition long_event :: "long_option \<Rightarrow> u8 list option \<Rightarrow> opt_event" where
  "long_event o1 arg = (if sets_flag o1 then Flag (opt_val o1) else Opt (opt_val o1) arg)"

definition long_opt :: "opt_table \<Rightarrow> u8 list \<Rightarrow> u8 list list \<Rightarrow> opt_event list \<times> u8 list list \<times> u8 list list" where
  "long_opt t s as =
     (let (name, val) = split_value s
      in case find_long t name of
           None \<Rightarrow> ([Bad], [], as)
         | Some o1 \<Rightarrow>
             if has_arg o1
             then (case val of
                     Some v \<Rightarrow> ([long_event o1 (Some v)], [], as)
                   | None \<Rightarrow> (case as of [] \<Rightarrow> ([Bad], [], [])
                             | a # as' \<Rightarrow> ([long_event o1 (Some a)], [a], as')))
             else if val = None then ([long_event o1 None], [], as)
             else ([Bad], [], as))"

definition is_opt_arg :: "u8 list \<Rightarrow> bool" where
  "is_opt_arg a \<longleftrightarrow> take 1 a = [45] \<and> 2 \<le> length a"

definition one_opt :: "opt_table \<Rightarrow> u8 list \<Rightarrow> u8 list list \<Rightarrow> opt_event list \<times> u8 list list \<times> u8 list list" where
  "one_opt t a as =
     (if take 2 a = [45, 45] then long_opt t (drop 2 a) as else short_cluster t (drop 1 a) as)"

lemma short_cluster_shrinks: "short_cluster t cs as = (es, tk, r) \<Longrightarrow> length r \<le> length as"
  by (induction t cs as arbitrary: es tk r rule: short_cluster.induct)
     (auto split: option.splits bool.splits list.splits prod.splits if_splits)

lemma one_opt_shrinks: "one_opt t a as = (es, tk, r) \<Longrightarrow> length r \<le> length as"
  by (auto simp: one_opt_def long_opt_def Let_def dest: short_cluster_shrinks
      split: option.splits list.splits prod.splits if_splits)

text \<open>
  All calls until the result is -1: the events, and the permuted vector, as the options with their
  arguments and the other arguments. The first argument is the program name and is left out.
\<close>

function getopt_scan :: "opt_table \<Rightarrow> u8 list list \<Rightarrow> opt_event list \<times> u8 list list \<times> u8 list list" where
  "getopt_scan t [] = ([], [], [])"
| "getopt_scan t (a # as) =
     (if a = [45, 45] then ([], [a], as)
      else if is_opt_arg a
      then (let (es, tk, r) = one_opt t a as; (es', os, ns) = getopt_scan t r
            in (es @ es', a # tk @ os, ns))
      else (let (es, os, ns) = getopt_scan t as in (es, os, a # ns)))"
  by pat_completeness auto
termination
  by (relation "measure (\<lambda>(t, as). length as)") (auto dest!: one_opt_shrinks [OF sym])

definition getopt_long :: "opt_table \<Rightarrow> u8 list list \<Rightarrow> opt_event list \<times> u8 list list" where
  "getopt_long t argv = (let (es, os, ns) = getopt_scan t argv in (es, os @ ns))"

section \<open>Reading an integer\<close>

definition ERANGE :: int where "ERANGE = 34"
definition LONG_MAX :: nat where "LONG_MAX = 2 ^ 63 - 1"

text \<open>The value of a digit in any base up to 16.\<close>

definition digit_value :: "u8 \<Rightarrow> nat" where
  "digit_value b =
     (if 48 \<le> b \<and> b \<le> 57 then unat b - 48
      else if 97 \<le> b \<and> b \<le> 102 then unat b - 87
      else if 65 \<le> b \<and> b \<le> 70 then unat b - 55
      else 16)"

fun read_base :: "nat \<Rightarrow> nat \<Rightarrow> u8 list \<Rightarrow> nat" where
  "read_base base acc [] = acc"
| "read_base base acc (b # bs) =
     (if digit_value b < base then read_base base (base * acc + digit_value b) bs else acc)"

definition is_hex_prefix :: "u8 list \<Rightarrow> bool" where
  "is_hex_prefix s \<longleftrightarrow> take 2 s = [48, 120] \<or> take 2 s = [48, 88]"

text \<open>
  \<open>strtol(s, NULL, 0)\<close> where \<open>s\<close> has neither a sign nor a space in front: the base comes from the
  prefix, reading stops at the first byte that is no digit, and a value that does not fit is cut to
  \<open>LONG_MAX\<close> with the range error.
\<close>

definition strtol_base_0 :: "u8 list \<Rightarrow> int \<Rightarrow> int \<times> int" where
  "strtol_base_0 s errno =
     (let v = (if is_hex_prefix s then read_base 16 0 (drop 2 s)
               else if take 1 s = [48] then read_base 8 0 s
               else read_base 10 0 s)
      in if v > LONG_MAX then (int LONG_MAX, ERANGE) else (int v, errno))"

text \<open>
  \<open>parse_integer_arg\<close>: the value and \<open>errno\<close> afterwards. On this platform a \<open>size_t\<close> is as wide as
  a \<open>long\<close>, which settles the branch.
\<close>

definition parse_integer_arg :: "u8 list \<Rightarrow> int \<Rightarrow> int \<times> int" where
  "parse_integer_arg optarg errno =
     (let hex = is_hex_prefix optarg;
          is_all_digit = list_all (\<lambda>b. digit_value b < (if hex then 16 else 10))
                           (if hex then drop 2 optarg else optarg)
      in if is_all_digit
         then (let (ret, errno') = strtol_base_0 optarg errno
               in if errno' = ERANGE then (0, errno') else (ret, errno'))
         else (0, errno))"

section \<open>Lemmas\<close>

lemma digit_value_digit: "d < 10 \<Longrightarrow> digit_value (digit d) = d"
  using digit_facts [of d] by (simp add: digit_value_def is_digit_def)

lemma digit_value_is_digit: "is_digit b \<Longrightarrow> digit_value b = unat b - 48 \<and> unat b - 48 < 10"
  by (auto simp: digit_value_def is_digit_def word_le_nat_alt)

lemma read_base_10: "\<forall>b \<in> set bs. is_digit b \<Longrightarrow> read_base 10 acc bs = read_digits acc bs"
  by (induction bs arbitrary: acc) (auto simp: digit_value_is_digit)

lemma dec_nat_head: "0 < n \<Longrightarrow> take 1 (dec_nat n) \<noteq> [48]"
proof (induction n rule: dec_nat.induct)
  case (1 n)
  show ?case
  proof (cases "n < 10")
    case True
    with 1(2) show ?thesis using digit_facts [of n] by (subst dec_nat.simps) auto
  next
    case False
    then have "0 < n div 10" by simp
    with 1(1) [OF False] have "take 1 (dec_nat (n div 10)) \<noteq> [48]" .
    with False show ?thesis
      by (subst dec_nat.simps) (cases "dec_nat (n div 10)"; simp)
  qed
qed

lemma hex_prefix_set: "is_hex_prefix s \<Longrightarrow> 120 \<in> set s \<or> 88 \<in> set s"
  using in_set_takeD [of 120 2 s] in_set_takeD [of 88 2 s] by (auto simp: is_hex_prefix_def)

lemma parse_decimal:
  assumes "n \<le> LONG_MAX" and "errno \<noteq> ERANGE"
  shows "parse_integer_arg (dec_nat n) errno = (int n, errno)"
proof -
  have digits: "\<forall>b \<in> set (dec_nat n). is_digit b" by (rule dec_nat_digits)
  then have all10: "list_all (\<lambda>b. digit_value b < 10) (dec_nat n)"
    by (auto simp: list_all_iff digit_value_is_digit)
  have "120 \<notin> set (dec_nat n)" "88 \<notin> set (dec_nat n)"
    using digits by (auto simp: is_digit_def)
  then have not_hex: "\<not> is_hex_prefix (dec_nat n)"
    using hex_prefix_set by blast
  show ?thesis
  proof (cases "n = 0")
    case True
    then have "dec_nat n = [48]" by (simp add: dec_nat.simps digit_def)
    with True assms(2) show ?thesis
      by (simp add: parse_integer_arg_def strtol_base_0_def is_hex_prefix_def LONG_MAX_def digit_value_def)
  next
    case False
    then have "read_base 10 0 (dec_nat n) = n"
      by (simp add: read_base_10 digits read_digits_dec_nat)
    with False assms not_hex all10 dec_nat_head [of n] show ?thesis
      by (simp add: parse_integer_arg_def strtol_base_0_def)
  qed
qed

section \<open>Properties\<close>

text \<open>
  Every number up to \<open>LONG_MAX\<close> written in decimal is read back, when no earlier call has left a
  range error behind.
\<close>

theorem parse_integer_decimal:
  assumes "n \<le> LONG_MAX" and "errno \<noteq> ERANGE"
  shows "parse_integer_arg (dec_nat n) errno = (int n, errno)"
  by (rule parse_decimal [OF assms])

lemma parse_integer_decimal_witness: "parse_integer_arg (dec_nat 8080) 0 = (8080, 0)"
  using parse_integer_decimal [of 8080 0] by (simp add: LONG_MAX_def ERANGE_def)

text \<open>
  After one value that was too big, every integer argument is read as 0, in the rest of the
  program: \<open>errno\<close> is compared with \<open>ERANGE\<close> but never reset before the call.
\<close>

theorem range_error_is_sticky:
  "parse_integer_arg (str ''99999999999999999999'') 0 = (0, ERANGE) \<and> parse_integer_arg optarg ERANGE = (0, ERANGE)"
  by (simp add: parse_integer_arg_def strtol_base_0_def is_hex_prefix_def str_def digit_value_def LONG_MAX_def Let_def)

end
