(* ===== verification/Platform_Uio.thy ===== *)
theory Platform_Uio
  imports Interfaces Getopt
begin

text \<open>
  The UIO platform: \<^verbatim>\<open>protodrv_api/uio/src/intel_fpga_platform_api_uio.c\<close>, built without
  \<open>UIO_UNIT_TEST_SW_MODEL_MODE\<close>: its command line, the size of the region from sysfs, opening and
  mapping the device, and the way back. The thread it starts is in the theory \<open>Interrupt_Thread\<close>.

  The static variables of the file are the record \<open>plat\<close>, with the interface table, \<open>errno\<close> (as far
  as it is or is not \<open>ERANGE\<close>), and logs of the descriptors that were closed and of the mappings that
  exist. What the operating system answers is the record \<open>uio_os\<close>; each call is made once. \<open>None\<close> is
  undefined behaviour.
\<close>

section \<open>State\<close>

record plat =
  s_uio_drv_path :: "u8 list option"
  s_uio_addr_span :: u64
  s_uio_single_component_mode :: int
  s_uio_start_addr :: u64
  s_uio_inThread_timeout :: u64
  s_uio_drv_handle :: int
  s_uio_mmap_ptr :: u64
  s_intThread_id :: u64
  s_intFlags :: u32
  g_intSem :: nat
  g_common_show_dbg_msg :: int
  p_errno :: int
  info_vec :: interface_vec
  closed_fds :: "int list"
  mappings :: "(u64 \<times> u64) list"

record uio_os =
  file_text :: "u8 list \<Rightarrow> u8 list option"
  open_result :: int
  mmap_result :: "u64 option"
  realloc_result :: bool
  sem_init_rc :: int
  rwlock_init_rc :: int
  wrlock_rc :: int
  unlock_rc :: int
  create_rc :: int
  new_thread_id :: u64

definition plat_start :: plat where
  "plat_start =
     \<lparr>s_uio_drv_path = Some (str ''/dev/uio0''), s_uio_addr_span = 0, s_uio_single_component_mode = 1,
      s_uio_start_addr = 0, s_uio_inThread_timeout = 0, s_uio_drv_handle = -1, s_uio_mmap_ptr = 0,
      s_intThread_id = 0, s_intFlags = 0, g_intSem = 0, g_common_show_dbg_msg = 0, p_errno = 0,
      info_vec = empty_vec, closed_fds = [], mappings = []\<rparr>"

section \<open>The command line\<close>

definition uio_options :: opt_table where
  "uio_options =
     \<lparr>shorts = [(112, True), (97, True), (115, True), (100, False), (99, False)],
      longs =
        [\<lparr>opt_name = str ''uio-driver-path'', has_arg = True, sets_flag = False, opt_val = 112\<rparr>,
         \<lparr>opt_name = str ''start-address'', has_arg = True, sets_flag = False, opt_val = 97\<rparr>,
         \<lparr>opt_name = str ''address-span'', has_arg = True, sets_flag = False, opt_val = 115\<rparr>,
         \<lparr>opt_name = str ''show-dbg-msg'', has_arg = False, sets_flag = True, opt_val = 100\<rparr>,
         \<lparr>opt_name = str ''single-component-mode'', has_arg = False, sets_flag = True, opt_val = 99\<rparr>]\<rparr>"

definition uio_parse_integer_arg :: "u8 list \<Rightarrow> int \<Rightarrow> int \<times> int" where
  "uio_parse_integer_arg optarg errno =
     (let hex = is_hex_prefix optarg;
          is_all_digit = list_all (\<lambda>b. digit_value b < (if hex then 16 else 10))
                           (if hex then drop 2 optarg else optarg)
      in if is_all_digit
         then (let (ret, errno') = strtol_base_0 optarg errno
               in if errno' = ERANGE then (0, errno') else (ret, errno'))
         else (0, errno))"

text \<open>The switch, and the flags that the library sets; \<open>-d\<close> and \<open>-c\<close> have no case.\<close>

definition uio_option :: "opt_event \<Rightarrow> plat \<Rightarrow> plat" where
  "uio_option ev p =
     (case ev of
        Opt c (Some optarg) \<Rightarrow>
          if c = 112 then p\<lparr>s_uio_drv_path := Some optarg\<rparr>
          else if c = 115
          then (let (v, e) = uio_parse_integer_arg optarg (p_errno p)
                in p\<lparr>s_uio_addr_span := word_of_int v, p_errno := e\<rparr>)
          else if c = 97
          then (let (v, e) = uio_parse_integer_arg optarg (p_errno p)
                in p\<lparr>s_uio_start_addr := word_of_int v, p_errno := e\<rparr>)
          else p
      | Flag v \<Rightarrow>
          if v = 100 then p\<lparr>g_common_show_dbg_msg := 100\<rparr>
          else if v = 99 then p\<lparr>s_uio_single_component_mode := 99\<rparr>
          else p
      | _ \<Rightarrow> p)"

definition uio_parse_args :: "u8 list list \<Rightarrow> plat \<Rightarrow> plat" where
  "uio_parse_args argv p = fold uio_option (fst (getopt_long uio_options argv)) p"

section \<open>The region size from sysfs\<close>

definition is_space :: "u8 \<Rightarrow> bool" where
  "is_space b \<longleftrightarrow> b = 32 \<or> 9 \<le> b \<and> b \<le> 13"

definition ULONG_MAX :: nat where "ULONG_MAX = 2 ^ 64 - 1"

text \<open>An optional sign: whether it is a minus, and what is behind it.\<close>

definition read_sign :: "u8 list \<Rightarrow> bool \<times> u8 list" where
  "read_sign s = (if take 1 s = [45] then (True, drop 1 s) else if take 1 s = [43] then (False, drop 1 s) else (False, s))"

text \<open>\<open>strtoul(s, &end, 10)\<close>: the value, what \<open>end\<close> points to, and \<open>errno\<close>.\<close>

definition strtoul_10 :: "u8 list \<Rightarrow> int \<Rightarrow> u64 \<times> u8 list \<times> int" where
  "strtoul_10 s errno =
     (let (neg, t) = read_sign (dropWhile is_space s); ds = takeWhile is_digit t; v = read_digits 0 ds
      in if ds = [] then (0, s, errno)
         else if v > ULONG_MAX then (of_nat ULONG_MAX, dropWhile is_digit t, ERANGE)
         else ((if neg then - of_nat v else of_nat v), dropWhile is_digit t, errno))"

text \<open>\<open>fscanf(fp, "%lx", &ret)\<close> into a variable that is 0 before and after a failure.\<close>

definition scan_lx :: "u8 list \<Rightarrow> u64" where
  "scan_lx s =
     (let (neg, t) = read_sign (dropWhile is_space s);
          v = read_base 16 0 (if is_hex_prefix t then drop 2 t else t)
      in if v > ULONG_MAX then of_nat ULONG_MAX else if neg then - of_nat v else of_nat v)"

text \<open>What follows the last slash, if there is one.\<close>

definition after_last_slash :: "u8 list \<Rightarrow> u8 list option" where
  "after_last_slash s = (if 47 \<in> set s then Some (rev (takeWhile (\<lambda>b. b \<noteq> 47) (rev s))) else None)"

text \<open>
  The path and \<open>errno\<close>. The code reads from the fourth byte behind the last slash's position on,
  which must not be behind the terminator.
\<close>

definition uio_get_sysfs_map_path :: "plat \<Rightarrow> (u8 list \<times> int) option" where
  "uio_get_sysfs_map_path p = do {
     drv_path \<leftarrow> s_uio_drv_path p;
     case after_last_slash drv_path of
       None \<Rightarrow> Some ([], p_errno p)
     | Some name \<Rightarrow>
         if length name < 3 then None
         else (let (index, endptr, e) = strtoul_10 (drop 3 name) (p_errno p)
               in if endptr \<noteq> [] then Some ([], e)
                  else Some (str ''/sys/class/uio/uio'' @ dec_int (sint (ucast index :: u32)) @ str ''/maps/map0/'', e))
   }"

definition uio_get_sysfs_map_file_to_uint64 :: "uio_os \<Rightarrow> u8 list \<Rightarrow> u64" where
  "uio_get_sysfs_map_file_to_uint64 os path =
     (case file_text os path of None \<Rightarrow> 0 | Some content \<Rightarrow> scan_lx content)"

definition uio_update_based_on_sysfs :: "uio_os \<Rightarrow> plat \<Rightarrow> plat option" where
  "uio_update_based_on_sysfs os p =
     (if s_uio_addr_span p = 0
      then do {
        (path, e) \<leftarrow> uio_get_sysfs_map_path p;
        Some (p\<lparr>p_errno := e, s_uio_addr_span := uio_get_sysfs_map_file_to_uint64 os (path @ str ''size'')\<rparr>)
      }
      else Some p)"

definition uio_validate_args :: "plat \<Rightarrow> bool" where
  "uio_validate_args p \<longleftrightarrow> s_uio_addr_span p > 0 \<and> s_uio_drv_path p \<noteq> None"

section \<open>Opening, mapping, scanning\<close>

definition uio_open_driver :: "uio_os \<Rightarrow> plat \<Rightarrow> bool \<times> plat" where
  "uio_open_driver os p = (open_result os \<noteq> -1, p\<lparr>s_uio_drv_handle := open_result os\<rparr>)"

definition MAP_FAILED :: u64 where "MAP_FAILED = -1"

definition uio_map_mmio :: "uio_os \<Rightarrow> plat \<Rightarrow> bool \<times> plat" where
  "uio_map_mmio os p =
     (case mmap_result os of
        None \<Rightarrow> (False, p\<lparr>s_uio_mmap_ptr := MAP_FAILED\<rparr>)
      | Some a \<Rightarrow> (True, p\<lparr>s_uio_mmap_ptr := a, mappings := mappings p @ [(a, s_uio_addr_span p)]\<rparr>))"

definition uio_scan_interfaces :: "uio_os \<Rightarrow> plat \<Rightarrow> (runtime_exception + bool \<times> plat) option" where
  "uio_scan_interfaces os p =
     (if s_uio_single_component_mode p \<noteq> 0
      then (case common_fpga_interface_info_vec_resize (realloc_result os) 1 (info_vec p) of
              Inl e \<Rightarrow> Some (Inl e)
            | Inr v \<Rightarrow> do {
                v1 \<leftarrow> vec_update 0 (\<lambda>i. i\<lparr>base_address := s_uio_mmap_ptr p + s_uio_start_addr p,
                                        is_mmio_opened := False, is_interrupt_opened := False\<rparr>) v;
                Some (Inr (True, p\<lparr>info_vec := v1\<rparr>))
              })
      else Some (Inr (True, p)))"

text \<open>Each call only where the ones before it succeeded; the flags are cleared in any case.\<close>

definition uio_create_interrupt_thread :: "uio_os \<Rightarrow> plat \<Rightarrow> bool \<times> plat" where
  "uio_create_interrupt_thread os p0 =
     (let rc1 = sem_init_rc os;
          p1 = (if rc1 = 0 then p0\<lparr>g_intSem := 0\<rparr> else p0);
          rc2 = (if rc1 = 0 then rwlock_init_rc os else rc1);
          rc3 = (if rc2 = 0 then wrlock_rc os else rc2);
          p2 = p1\<lparr>s_intFlags := 0\<rparr>;
          rc4 = (if rc3 = 0 then unlock_rc os else rc3);
          rc5 = (if rc4 = 0 then create_rc os else rc4);
          p3 = (if rc5 = 0 then p2\<lparr>s_intThread_id := new_thread_id os\<rparr> else p2)
      in (rc5 = 0, p3))"

definition close_driver :: "plat \<Rightarrow> plat" where
  "close_driver p = p\<lparr>closed_fds := closed_fds p @ [s_uio_drv_handle p]\<rparr>"

definition unmap_driver :: "plat \<Rightarrow> plat" where
  "unmap_driver p = p\<lparr>mappings := remove1 (s_uio_mmap_ptr p, s_uio_addr_span p) (mappings p)\<rparr>"

text \<open>
  \<open>ret\<close> is already \<open>true\<close> when the thread is created, so that the jump to \<open>err_open\<close> there
  returns \<open>true\<close>.
\<close>

definition fpga_platform_init ::
  "uio_os \<Rightarrow> u8 list list \<Rightarrow> plat \<Rightarrow> (runtime_exception + bool \<times> plat) option" where
  "fpga_platform_init os argv p0 = do {
     let p1 = uio_parse_args argv p0;
     p2 \<leftarrow> uio_update_based_on_sysfs os p1;
     let is_args_valid = uio_validate_args p2;
     let p3 = p2\<lparr>s_uio_inThread_timeout := 100\<rparr>;
     if \<not> is_args_valid then Some (Inr (False, p3))
     else do {
       let (opened, p4) = uio_open_driver os p3;
       if \<not> opened then Some (Inr (False, p4))
       else do {
         let (mapped, p5) = uio_map_mmio os p4;
         if \<not> mapped then Some (Inr (False, close_driver p5))
         else do {
           r \<leftarrow> uio_scan_interfaces os p5;
           case r of
             Inl e \<Rightarrow> Some (Inl e)
           | Inr (scanned, p6) \<Rightarrow>
               if \<not> scanned then Some (Inr (False, close_driver (unmap_driver p6)))
               else if s_uio_single_component_mode p6 \<noteq> 0
               then (let (created, p7) = uio_create_interrupt_thread os p6 in Some (Inr (True, p7)))
               else Some (Inr (True, p6))
         }
       }
     }
   }"

section \<open>The way back\<close>

record cleanup_os =
  c_wrlock_rc :: int
  c_unlock_rc :: int
  c_getvalue_rc :: int
  c_post_rc :: int

definition FPGA_PLATFORM_INT_THREAD_EXIT :: u32 where "FPGA_PLATFORM_INT_THREAD_EXIT = 1"

text \<open>
  Telling the thread to stop: the status and the state. The value of the semaphore is only asked for
  after a failure, and its success hides the failure.
\<close>

definition signal_thread :: "cleanup_os \<Rightarrow> plat \<Rightarrow> int \<times> plat" where
  "signal_thread os p =
     (if c_wrlock_rc os = 0
      then (let p1 = p\<lparr>s_intFlags := s_intFlags p OR FPGA_PLATFORM_INT_THREAD_EXIT\<rparr>;
                status1 = c_unlock_rc os;
                (status2, ret_val) = (if status1 = 0 then (0, 0) else (c_getvalue_rc os, g_intSem p1))
            in if status2 = 0
               then if ret_val \<le> 0
                    then (c_post_rc os, if c_post_rc os = 0 then p1\<lparr>g_intSem := g_intSem p1 + 1\<rparr> else p1)
                    else (0, p1)
               else (status2, p1))
      else (c_wrlock_rc os, p))"

text \<open>
  The default handler of the exception ends the program. Waiting for the thread (\<open>pthread_join\<close>)
  changes nothing here.
\<close>

definition fpga_platform_cleanup :: "cleanup_os \<Rightarrow> plat \<Rightarrow> runtime_exception + plat" where
  "fpga_platform_cleanup os p0 =
     (let (status, p1) = (if s_intThread_id p0 \<noteq> 0 then signal_thread os p0 else (0, p0))
      in if status \<noteq> 0 then Inl Cleanup_system_error
         else (let p2 = (if s_uio_drv_handle p1 \<ge> 0 then close_driver p1 else p1);
                   p3 = p2\<lparr>s_uio_drv_path := None, s_uio_start_addr := 0, s_uio_addr_span := 0,
                           s_uio_single_component_mode := 0, s_uio_drv_handle := -1, s_uio_mmap_ptr := 0\<rparr>
               in if vec_size (info_vec p3) > 0
                  then (case common_fpga_interface_info_vec_resize True 0 (info_vec p3) of
                          Inl e \<Rightarrow> Inl e
                        | Inr v \<Rightarrow> Inr (p3\<lparr>info_vec := v, p_errno := -1\<rparr>))
                  else Inr (p3\<lparr>p_errno := -1\<rparr>)))"

end
