(* ===== verification/App_Main.thy ===== *)
theory App_Main
  imports Server_Loop Platform_Uio
begin

text \<open>
  The command-line program: \<^verbatim>\<open>main.cpp\<close>. Its options, the object \<open>StreamingDebug\<close>
  (\<open>run\<close>, \<open>terminate\<close>, the destructor), \<open>main\<close> and the handler of SIGINT.

  The program reads its argument vector twice, once here and once in the platform code, and the
  first reading permutes it. The interface table is one global variable of the process: it is a
  field of the platform state and of the driver state, copied where the control passes over. What is
  printed is left out; \<open>argv[0]\<close> too.
\<close>

section \<open>The command line\<close>

definition main_options :: opt_table where
  "main_options =
     \<lparr>shorts = [(104, False), (112, True), (105, True), (118, False)],
      longs =
        [\<lparr>opt_name = str ''help'', has_arg = False, sets_flag = False, opt_val = 104\<rparr>,
         \<lparr>opt_name = str ''version'', has_arg = False, sets_flag = False, opt_val = 118\<rparr>,
         \<lparr>opt_name = str ''h2t-t2h-mem-size'', has_arg = True, sets_flag = False, opt_val = 109\<rparr>,
         \<lparr>opt_name = str ''port'', has_arg = True, sets_flag = False, opt_val = 112\<rparr>,
         \<lparr>opt_name = str ''ip'', has_arg = True, sets_flag = False, opt_val = 105\<rparr>]\<rparr>"

record EtherlinkCommandLine =
  e_mem_size :: size_t
  e_port :: int
  e_ip :: "u8 list"

definition cmdline_start :: EtherlinkCommandLine where
  "cmdline_start = \<lparr>e_mem_size = 4096, e_port = 0, e_ip = replicate 16 0\<rparr>"

text \<open>\<open>strncpy\<close> of a string into the front of a buffer, padded with zeros.\<close>

definition strncpy_into :: "u8 list \<Rightarrow> u8 list \<Rightarrow> nat \<Rightarrow> u8 list" where
  "strncpy_into buf s n = take n (s @ replicate n 0) @ drop n buf"

text \<open>A \<open>long\<close> stored in an \<open>int\<close>.\<close>

definition int_of_long :: "int \<Rightarrow> int" where
  "int_of_long v = sint (word_of_int v :: u32)"

text \<open>The loop over the options; what it returns, the record, and \<open>errno\<close>.\<close>

fun cmd_options ::
  "opt_event list \<Rightarrow> EtherlinkCommandLine \<Rightarrow> int \<Rightarrow> int \<times> EtherlinkCommandLine \<times> int" where
  "cmd_options [] cl e =
     (0, if hd (e_ip cl) = 0 then cl\<lparr>e_ip := strncpy_into (e_ip cl) (str ''0.0.0.0'') 16\<rparr> else cl, e)"
| "cmd_options (ev # evs) cl e =
     (case ev of
        Opt c arg \<Rightarrow>
          if c = 118 then (-4, cl, e)
          else if c = 104 then (-2, cl, e)
          else (case arg of
                  None \<Rightarrow> cmd_options evs cl e
                | Some optarg \<Rightarrow>
                    if c = 109
                    then (let (v, e') = parse_integer_arg optarg e; cl' = cl\<lparr>e_mem_size := word_of_int v\<rparr>
                          in if e_mem_size cl' = 0 then (-3, cl', e') else cmd_options evs cl' e')
                    else if c = 112
                    then (let (v, e') = parse_integer_arg optarg e
                          in cmd_options evs (cl\<lparr>e_port := int_of_long v\<rparr>) e')
                    else if c = 105
                    then cmd_options evs (cl\<lparr>e_ip := (strncpy_into (e_ip cl) optarg 15)[15 := 0]\<rparr>) e
                    else cmd_options evs cl e)
      | _ \<Rightarrow> cmd_options evs cl e)"

text \<open>The result, the record, \<open>errno\<close>, and the vector as it is left behind.\<close>

definition parse_cmd_args ::
  "u8 list list \<Rightarrow> EtherlinkCommandLine \<Rightarrow> int \<Rightarrow> int \<times> EtherlinkCommandLine \<times> int \<times> u8 list list" where
  "parse_cmd_args argv cl e =
     (let (evs, argv') = getopt_long main_options argv; (rc, cl', e') = cmd_options evs cl e
      in (rc, cl', e', argv'))"

section \<open>The server object\<close>

text \<open>
  The static pointer to the connection of the server, which lives on the stack of
  \<open>start_st_dbg_transport_server_over_tcpip\<close>: it is set by \<open>server_main\<close> only, and outlives it.
\<close>

datatype conn_ptr = Null | Live | Dangling

definition with_interfaces :: "interface_vec \<Rightarrow> 'h machine \<Rightarrow> 'h machine" where
  "with_interfaces v m = m\<lparr>drv := (drv m)\<lparr>Driver.plat := (Driver.plat (drv m))\<lparr>interfaces := v\<rparr>\<rparr>\<rparr>"

definition StreamingDebug_terminate ::
  "intel_remote_debug_server_context \<Rightarrow> conn_ptr \<Rightarrow> 'h srv \<Rightarrow> 'h srv option" where
  "StreamingDebug_terminate context ptr s = do {
     v \<leftarrow> fpga_close (word_of_int (cxt_mmio_handle context)) (interfaces (Driver.plat (drv (mach s))));
     let s1 = s\<lparr>mach := with_interfaces v (mach s)\<rparr>;
     (set, s2) \<leftarrow> terminate_st_dbg_transport_server_over_tcpip (ptr = Live) s1;
     Some s2
   }"

text \<open>
  \<open>run\<close>: the result of the server or none while it is still serving, the context, and where the
  pointer points afterwards.
\<close>

definition StreamingDebug_run ::
  "'h bus \<Rightarrow> bool \<Rightarrow> u32 \<Rightarrow> (size_t \<Rightarrow> u8 list option) \<Rightarrow> (size_t \<Rightarrow> u8 list option) \<Rightarrow>
     ((nat \<Rightarrow> int) \<times> select_result list) list \<Rightarrow> intel_remote_debug_server_context \<Rightarrow>
     size_t \<Rightarrow> int \<Rightarrow> 'h machine \<Rightarrow>
     ((int + RETURN_CODE) option \<times> intel_remote_debug_server_context \<times> conn_ptr \<times> 'h srv) option" where
  "StreamingDebug_run bus char_signed pay0 mem1 mem2 envs context0 mem_size port m = do {
     (handle, v) \<leftarrow> fpga_open 0 (interfaces (Driver.plat (drv m)));
     let context = init_st_dbg_transport_server_over_tcpip handle mem_size port context0;
     (r, s) \<leftarrow> start_st_dbg_transport_server_over_tcpip bus char_signed pay0 mem1 mem2 context envs
                (with_interfaces v m);
     Some (r, context, case r of None \<Rightarrow> Live | Some (Inl _) \<Rightarrow> Null | Some (Inr _) \<Rightarrow> Dangling, s)
   }"

text \<open>The result is none while the server runs; afterwards the object is deleted.\<close>

definition run_etherlink ::
  "'h bus \<Rightarrow> bool \<Rightarrow> u32 \<Rightarrow> (size_t \<Rightarrow> u8 list option) \<Rightarrow> (size_t \<Rightarrow> u8 list option) \<Rightarrow>
     ((nat \<Rightarrow> int) \<times> select_result list) list \<Rightarrow> intel_remote_debug_server_context \<Rightarrow>
     EtherlinkCommandLine \<Rightarrow> 'h machine \<Rightarrow> ((int + RETURN_CODE) option \<times> 'h srv) option" where
  "run_etherlink bus char_signed pay0 mem1 mem2 envs context0 cl m = do {
     (r, context, ptr, s) \<leftarrow> StreamingDebug_run bus char_signed pay0 mem1 mem2 envs context0
                              (e_mem_size cl) (e_port cl) m;
     if r = None then Some (None, s)
     else do { s1 \<leftarrow> StreamingDebug_terminate context ptr s; Some (r, s1) }
   }"

section \<open>The program\<close>

datatype outcome = Serving | Exit int

definition is_success :: "int + RETURN_CODE \<Rightarrow> bool" where
  "is_success r = (case r of Inl i \<Rightarrow> i = 0 | Inr rc \<Rightarrow> rc = OK)"

text \<open>The end of the program, after \<open>out_exit\<close>; an exception ends it with 1.\<close>

definition out_exit :: "cleanup_os \<Rightarrow> int \<Rightarrow> plat \<Rightarrow> outcome \<times> plat" where
  "out_exit cos rc p = (case fpga_platform_cleanup cos p of Inl e \<Rightarrow> (Exit 1, p) | Inr p' \<Rightarrow> (Exit rc, p'))"

definition app_main ::
  "'h bus \<Rightarrow> bool \<Rightarrow> u32 \<Rightarrow> (size_t \<Rightarrow> u8 list option) \<Rightarrow> (size_t \<Rightarrow> u8 list option) \<Rightarrow>
     ((nat \<Rightarrow> int) \<times> select_result list) list \<Rightarrow> intel_remote_debug_server_context \<Rightarrow>
     uio_os \<Rightarrow> cleanup_os \<Rightarrow> u8 list list \<Rightarrow> 'h machine \<Rightarrow> (outcome \<times> plat) option" where
  "app_main bus char_signed pay0 mem1 mem2 envs context0 uos cos argv m =
     (let (rc, cl, e, argv') = parse_cmd_args argv cmdline_start 0;
          p0 = plat_start\<lparr>p_errno := e\<rparr>
      in if rc \<noteq> 0 then Some (out_exit cos rc p0)
         else do {
           init \<leftarrow> fpga_platform_init uos argv' p0;
           case init of
             Inl exc \<Rightarrow> Some (Exit 1, p0)
           | Inr (False, p1) \<Rightarrow> Some (out_exit cos (-1) p1)
           | Inr (True, p1) \<Rightarrow> do {
               (r, s) \<leftarrow> run_etherlink bus char_signed pay0 mem1 mem2 envs context0 cl
                          (with_interfaces (info_vec p1) m);
               let p2 = p1\<lparr>info_vec := interfaces (Driver.plat (drv (mach s)))\<rparr>;
               case r of
                 None \<Rightarrow> Some (Serving, p2)
               | Some code \<Rightarrow> Some (out_exit cos (if is_success code then 0 else 3) p2)
             }
         })"

definition SIGINT :: int where "SIGINT = 2"

text \<open>The handler, while the server runs in the state \<open>s\<close>; other signals are ignored.\<close>

definition etherlink_sig_handler ::
  "cleanup_os \<Rightarrow> int \<Rightarrow> intel_remote_debug_server_context \<Rightarrow> conn_ptr \<Rightarrow> plat \<Rightarrow> 'h srv \<Rightarrow>
     (outcome \<times> plat \<times> 'h srv) option" where
  "etherlink_sig_handler cos signo context ptr p s =
     (if signo = SIGINT
      then (case fpga_platform_cleanup cos p of
              Inl e \<Rightarrow> Some (Exit 1, p, s)
            | Inr p' \<Rightarrow> do {
                s' \<leftarrow> StreamingDebug_terminate context ptr
                        (s\<lparr>mach := with_interfaces (info_vec p') (mach s)\<rparr>);
                Some (Exit 0, p', s')
              })
      else Some (Serving, p, s))"

end
