(* ===== verification/Platform_Laws.thy ===== *)
theory Platform_Laws
  imports Platform_Uio
begin

text \<open>
  What the platform code guarantees: after a successful start the one interface can be opened and
  lies in the mapping, the way back closes the driver, and where an error path gives a descriptor
  back twice or takes a failure for a success.
\<close>

section \<open>What the command line leaves alone\<close>

definition same_resources :: "plat \<Rightarrow> plat \<Rightarrow> bool" where
  "same_resources p p' \<longleftrightarrow> info_vec p' = info_vec p \<and> closed_fds p' = closed_fds p \<and> mappings p' = mappings p \<and>
     s_uio_drv_handle p' = s_uio_drv_handle p \<and> s_intThread_id p' = s_intThread_id p \<and>
     (s_uio_single_component_mode p \<noteq> 0 \<longrightarrow> s_uio_single_component_mode p' \<noteq> 0)"

lemma same_resources_refl [simp]: "same_resources p p"
  by (simp add: same_resources_def)

lemma same_resources_trans: "same_resources p p1 \<Longrightarrow> same_resources p1 p2 \<Longrightarrow> same_resources p p2"
  by (simp add: same_resources_def)

lemma uio_option_same: "same_resources p (uio_option ev p)"
  by (simp add: uio_option_def same_resources_def Let_def split: opt_event.splits option.splits prod.splits)

lemma uio_parse_args_same: "same_resources p (uio_parse_args argv p)"
proof -
  have "same_resources p (fold uio_option evs p)" for evs
    by (induction evs arbitrary: p) (auto intro: same_resources_trans uio_option_same)
  then show ?thesis by (simp add: uio_parse_args_def)
qed

lemma uio_update_same: "uio_update_based_on_sysfs os p = Some p' \<Longrightarrow> same_resources p p'"
  by (auto simp: uio_update_based_on_sysfs_def same_resources_def bind_eq_Some_conv split: if_splits)

text \<open>The start up to the point where the driver is opened.\<close>

lemma platform_init_prepare:
  assumes "fpga_platform_init os argv p = Some r"
  obtains p2 where "uio_update_based_on_sysfs os (uio_parse_args argv p) = Some p2" "same_resources p p2"
    "\<not> uio_validate_args p2 \<longrightarrow> r = Inr (False, p2\<lparr>s_uio_inThread_timeout := 100\<rparr>)"
proof -
  from assms obtain p2 where p2: "uio_update_based_on_sysfs os (uio_parse_args argv p) = Some p2"
    by (auto simp: fpga_platform_init_def bind_eq_Some_conv)
  moreover have "same_resources p p2"
    by (rule same_resources_trans [OF uio_parse_args_same uio_update_same [OF p2]])
  moreover have "\<not> uio_validate_args p2 \<longrightarrow> r = Inr (False, p2\<lparr>s_uio_inThread_timeout := 100\<rparr>)"
    using assms p2 by (auto simp: fpga_platform_init_def)
  ultimately show thesis by (rule that)
qed

lemma scan_interfaces_result:
  assumes "s_uio_single_component_mode p \<noteq> 0" and "realloc_result os"
  shows "\<exists>v. uio_scan_interfaces os p = Some (Inr (True, p\<lparr>info_vec := v\<rparr>)) \<and> vec_size v = 1 \<and>
    (\<exists>info. vec_at v 0 = Some info \<and> base_address info = s_uio_mmap_ptr p + s_uio_start_addr p \<and>
      \<not> is_mmio_opened info \<and> \<not> is_interrupt_opened info)"
proof -
  let ?v = "info_vec p"
  define es where "es = (if vec_elems ?v = [] then [zero_info] else vec_elems ?v)"
  let ?v1 = "?v\<lparr>vec_elems := es, vec_size := 1\<rparr>"
  let ?f = "\<lambda>i. i\<lparr>base_address := s_uio_mmap_ptr p + s_uio_start_addr p, is_mmio_opened := False,
    is_interrupt_opened := False\<rparr>"
  have "common_fpga_interface_info_vec_resize True 1 ?v = Inr ?v1"
    by (cases "vec_elems ?v")
      (simp_all add: es_def common_fpga_interface_info_vec_resize_def common_fpga_interface_info_vec_reserve_def)
  moreover have "es \<noteq> []" by (simp add: es_def)
  ultimately show ?thesis
    using assms
    by (intro exI [of _ "?v1\<lparr>vec_elems := es[0 := ?f (es ! 0)]\<rparr>"])
       (simp add: uio_scan_interfaces_def vec_update_def vec_at_def)
qed

lemma create_thread_same:
  "uio_create_interrupt_thread os p = (ok, p') \<Longrightarrow> info_vec p' = info_vec p \<and> closed_fds p' = closed_fds p \<and>
    mappings p' = mappings p \<and> s_uio_drv_handle p' = s_uio_drv_handle p"
  by (auto simp: uio_create_interrupt_thread_def Let_def)

text \<open>The way back.\<close>

lemma signal_thread_same:
  "signal_thread cos p = (st, p1) \<Longrightarrow> info_vec p1 = info_vec p \<and> closed_fds p1 = closed_fds p \<and>
    mappings p1 = mappings p \<and> s_uio_drv_handle p1 = s_uio_drv_handle p"
  by (auto simp: signal_thread_def Let_def split: if_splits prod.splits)

lemma resize_0: "common_fpga_interface_info_vec_resize ok 0 v = Inr \<lparr>vec_elems = [], vec_size = 0\<rparr>"
  by (simp add: common_fpga_interface_info_vec_resize_def common_fpga_interface_info_vec_reserve_def)

lemma cleanup_result:
  assumes "fpga_platform_cleanup cos p = Inr p'"
  shows "closed_fds p' = closed_fds p @ (if s_uio_drv_handle p \<ge> 0 then [s_uio_drv_handle p] else []) \<and>
    s_uio_drv_handle p' = -1 \<and> vec_size (info_vec p') = 0 \<and> mappings p' = mappings p"
proof -
  obtain st p1 where st: "(if s_intThread_id p \<noteq> 0 then signal_thread cos p else (0, p)) = (st, p1)" by fastforce
  then have p1: "info_vec p1 = info_vec p" "closed_fds p1 = closed_fds p" "mappings p1 = mappings p"
    "s_uio_drv_handle p1 = s_uio_drv_handle p"
    by (auto split: if_splits dest!: signal_thread_same)
  have "st = 0" using assms st by (auto simp: fpga_platform_cleanup_def split: if_splits)
  with assms st have p': "p' = (let p2 = (if s_uio_drv_handle p1 \<ge> 0 then close_driver p1 else p1);
      p3 = p2\<lparr>s_uio_drv_path := None, s_uio_start_addr := 0, s_uio_addr_span := 0,
               s_uio_single_component_mode := 0, s_uio_drv_handle := -1, s_uio_mmap_ptr := 0\<rparr>
    in if vec_size (info_vec p3) > 0 then p3\<lparr>info_vec := \<lparr>vec_elems = [], vec_size = 0\<rparr>, p_errno := -1\<rparr>
       else p3\<lparr>p_errno := -1\<rparr>)"
    by (simp add: fpga_platform_cleanup_def resize_0 Let_def split: if_splits)
  show ?thesis unfolding p' using p1 by (simp add: Let_def close_driver_def)
qed

lemma signal_thread_good: "\<exists>p1. signal_thread \<lparr>c_wrlock_rc = 0, c_unlock_rc = 0, c_getvalue_rc = 0, c_post_rc = 0\<rparr> p = (0, p1)"
  by (simp add: signal_thread_def Let_def)

lemma cleanup_succeeds:
  "\<exists>p'. fpga_platform_cleanup \<lparr>c_wrlock_rc = 0, c_unlock_rc = 0, c_getvalue_rc = 0, c_post_rc = 0\<rparr> p = Inr p'"
proof -
  obtain p1 where "(if s_intThread_id p \<noteq> 0
      then signal_thread \<lparr>c_wrlock_rc = 0, c_unlock_rc = 0, c_getvalue_rc = 0, c_post_rc = 0\<rparr> p else (0, p)) = (0, p1)"
    using signal_thread_good [of p] by (cases "s_intThread_id p = 0") auto
  then show ?thesis
    by (simp add: fpga_platform_cleanup_def resize_0 Let_def)
qed

text \<open>A successful start, step by step.\<close>

lemma platform_init_success:
  assumes "fpga_platform_init os argv p = Some (Inr (True, p'))" and "s_uio_single_component_mode p \<noteq> 0"
    and "realloc_result os"
  obtains p5 a v ok where "mmap_result os = Some a" "open_result os \<noteq> -1" "uio_validate_args p5"
    "s_uio_drv_handle p5 = open_result os" "mappings p5 = mappings p @ [(a, s_uio_addr_span p5)]"
    "closed_fds p5 = closed_fds p" "s_uio_mmap_ptr p5 = a" "s_intThread_id p5 = s_intThread_id p"
    "uio_scan_interfaces os p5 = Some (Inr (True, p5\<lparr>info_vec := v\<rparr>))"
    "uio_create_interrupt_thread os (p5\<lparr>info_vec := v\<rparr>) = (ok, p')" "vec_size v = 1"
    "\<exists>info. vec_at v 0 = Some info \<and> base_address info = a + s_uio_start_addr p5 \<and> \<not> is_mmio_opened info"
proof -
  obtain p2 where p2: "uio_update_based_on_sysfs os (uio_parse_args argv p) = Some p2" "same_resources p p2"
    and valid: "uio_validate_args p2"
    by (rule platform_init_prepare [OF assms(1)]) auto
  from assms(1) p2(1) valid obtain a where a: "mmap_result os = Some a" "open_result os \<noteq> -1"
    by (auto simp: fpga_platform_init_def uio_open_driver_def uio_map_mmio_def Let_def split: if_splits option.splits)
  let ?p5 = "p2\<lparr>s_uio_inThread_timeout := 100, s_uio_drv_handle := open_result os, s_uio_mmap_ptr := a,
    mappings := mappings p2 @ [(a, s_uio_addr_span p2)]\<rparr>"
  have single: "s_uio_single_component_mode ?p5 \<noteq> 0" using p2(2) assms(2) by (simp add: same_resources_def)
  from scan_interfaces_result [OF single assms(3)] obtain v where
    v: "uio_scan_interfaces os ?p5 = Some (Inr (True, ?p5\<lparr>info_vec := v\<rparr>))" "vec_size v = 1"
      "\<exists>info. vec_at v 0 = Some info \<and> base_address info = a + s_uio_start_addr ?p5 \<and> \<not> is_mmio_opened info"
    by auto
  have "uio_create_interrupt_thread os (?p5\<lparr>info_vec := v\<rparr>) = (fst (uio_create_interrupt_thread os (?p5\<lparr>info_vec := v\<rparr>)), p')"
    using assms(1) p2(1) valid a v(1) single
    by (simp add: fpga_platform_init_def uio_open_driver_def uio_map_mmio_def Let_def split: prod.splits)
  with a v valid p2(2) show thesis
    by (intro that [of a ?p5 v]) (auto simp: same_resources_def uio_validate_args_def)
qed

section \<open>Properties\<close>

text \<open>
  C15. When the platform has started, the driver is open and mapped once over the whole span, nothing
  was closed, and there is exactly one interface: it can be opened for MMIO and its base is the start
  address within the mapping.
\<close>

theorem platform_ready:
  assumes "fpga_platform_init os argv p = Some (Inr (True, p'))" and "s_uio_single_component_mode p \<noteq> 0"
    and "realloc_result os"
  shows "\<exists>a info v'. open_result os \<noteq> -1 \<and> s_uio_drv_handle p' = open_result os \<and> mmap_result os = Some a \<and>
    mappings p' = mappings p @ [(a, s_uio_addr_span p')] \<and> s_uio_addr_span p' \<noteq> 0 \<and> closed_fds p' = closed_fds p \<and>
    vec_size (info_vec p') = 1 \<and> vec_at (info_vec p') 0 = Some info \<and> base_address info = a + s_uio_start_addr p' \<and>
    fpga_open 0 (info_vec p') = Some (0, v')"
proof -
  obtain p5 a v ok where 5: "mmap_result os = Some a" "open_result os \<noteq> -1" "uio_validate_args p5"
    "s_uio_drv_handle p5 = open_result os" "mappings p5 = mappings p @ [(a, s_uio_addr_span p5)]"
    "closed_fds p5 = closed_fds p" "uio_create_interrupt_thread os (p5\<lparr>info_vec := v\<rparr>) = (ok, p')" "vec_size v = 1"
    "\<exists>info. vec_at v 0 = Some info \<and> base_address info = a + s_uio_start_addr p5 \<and> \<not> is_mmio_opened info"
    by (rule platform_init_success [OF assms])
  from 5(9) obtain info where info: "vec_at v 0 = Some info" "base_address info = a + s_uio_start_addr p5"
    "\<not> is_mmio_opened info" by blast
  have p': "info_vec p' = v" "s_uio_addr_span p' = s_uio_addr_span p5" "s_uio_start_addr p' = s_uio_start_addr p5"
    "closed_fds p' = closed_fds p5" "mappings p' = mappings p5" "s_uio_drv_handle p' = s_uio_drv_handle p5"
    using 5(7) by (auto simp: uio_create_interrupt_thread_def Let_def)
  have "fpga_open 0 v = Some (0, v\<lparr>vec_elems := (vec_elems v)[0 := info\<lparr>is_mmio_opened := True\<rparr>]\<rparr>)"
    using 5(8) info by (simp add: fpga_open_def in_vec_def vec_update_def)
  with 5(1-6,8) info p' show ?thesis
    by (auto simp: uio_validate_args_def word_neq_0_conv)
qed

text \<open>An operating system where every call succeeds, for the witnesses.\<close>

definition good_os :: uio_os where
  "good_os = \<lparr>file_text = (\<lambda>path. if path = str ''/sys/class/uio/uio0/maps/map0/size''
                               then Some (str ''0x00004000'' @ [10]) else None),
     open_result = 5, mmap_result = Some 0x7f0000000000, realloc_result = True, sem_init_rc = 0,
     rwlock_init_rc = 0, wrlock_rc = 0, unlock_rc = 0, create_rc = 0, new_thread_id = 77\<rparr>"

definition good_cleanup :: cleanup_os where
  "good_cleanup = \<lparr>c_wrlock_rc = 0, c_unlock_rc = 0, c_getvalue_rc = 0, c_post_rc = 0\<rparr>"

lemma default_region: "uio_update_based_on_sysfs good_os plat_start = Some (plat_start\<lparr>s_uio_addr_span := 0x4000\<rparr>)"
  by (simp add: uio_update_based_on_sysfs_def uio_get_sysfs_map_path_def uio_get_sysfs_map_file_to_uint64_def
      plat_start_def after_last_slash_def strtoul_10_def read_sign_def is_space_def is_digit_def
      good_os_def scan_lx_def is_hex_prefix_def digit_value_def str_def dec_int_def dec_nat.simps digit_def
      ULONG_MAX_def)

lemma default_start_address:
  "\<exists>p'. fpga_platform_init good_os [] plat_start = Some (Inr (True, p')) \<and> s_uio_start_addr p' = 0 \<and>
    s_uio_addr_span p' = 0x4000"
proof -
  let ?p5 = "plat_start\<lparr>s_uio_addr_span := 0x4000, s_uio_inThread_timeout := 100, s_uio_drv_handle := 5,
    s_uio_mmap_ptr := 0x7f0000000000, mappings := [(0x7f0000000000, 0x4000)]\<rparr>"
  have "s_uio_single_component_mode ?p5 \<noteq> 0" "realloc_result good_os"
    by (simp_all add: plat_start_def good_os_def)
  from scan_interfaces_result [OF this] obtain v where
    "uio_scan_interfaces good_os ?p5 = Some (Inr (True, ?p5\<lparr>info_vec := v\<rparr>))" by blast
  moreover have "uio_parse_args [] plat_start = plat_start"
    by (simp add: uio_parse_args_def getopt_long_def)
  moreover have "open_result good_os = 5" "mmap_result good_os = Some 0x7f0000000000"
    "s_uio_drv_path plat_start \<noteq> None" "s_uio_single_component_mode plat_start \<noteq> 0" "mappings plat_start = []"
    by (simp_all add: good_os_def plat_start_def)
  moreover have "s_uio_start_addr (snd (uio_create_interrupt_thread good_os p)) = s_uio_start_addr p"
    "s_uio_addr_span (snd (uio_create_interrupt_thread good_os p)) = s_uio_addr_span p" for p
    by (simp_all add: uio_create_interrupt_thread_def Let_def)
  ultimately show ?thesis
    by (simp add: fpga_platform_init_def default_region uio_validate_args_def uio_open_driver_def uio_map_mmio_def
        Let_def case_prod_beta') (simp add: plat_start_def)
qed

lemma default_start: "\<exists>p'. fpga_platform_init good_os [] plat_start = Some (Inr (True, p'))"
  using default_start_address by blast

lemma platform_ready_witness:
  "\<exists>p' v'. fpga_platform_init good_os [] plat_start = Some (Inr (True, p')) \<and>
    fpga_open 0 (info_vec p') = Some (0, v')"
proof -
  from default_start obtain p' where p': "fpga_platform_init good_os [] plat_start = Some (Inr (True, p'))" ..
  from platform_ready [OF this] show ?thesis using p' by (auto simp: plat_start_def good_os_def)
qed

text \<open>
  C16. Starting and cleaning up closes the driver exactly once, and leaves no interface behind; but the
  mapping of the device is never taken down.
\<close>

theorem platform_cycle_closes_driver:
  assumes "fpga_platform_init os argv p = Some (Inr (True, p'))" and "s_uio_single_component_mode p \<noteq> 0"
    and "realloc_result os" and "0 \<le> open_result os" and "fpga_platform_cleanup cos p' = Inr p''"
  shows "closed_fds p'' = closed_fds p @ [open_result os] \<and> s_uio_drv_handle p'' = -1 \<and>
    vec_size (info_vec p'') = 0 \<and> mappings p'' = mappings p'"
proof -
  obtain p5 a v ok where 5: "s_uio_drv_handle p5 = open_result os" "closed_fds p5 = closed_fds p"
    "uio_create_interrupt_thread os (p5\<lparr>info_vec := v\<rparr>) = (ok, p')" "vec_size v = 1"
    by (rule platform_init_success [OF assms(1-3)])
  from create_thread_same [OF 5(3)] 5 have p': "s_uio_drv_handle p' = open_result os" "closed_fds p' = closed_fds p"
    "vec_size (info_vec p') = 1" by simp_all
  from cleanup_result [OF assms(5)] p' assms(4) show ?thesis by simp
qed

lemma platform_cycle_closes_driver_witness:
  "\<exists>p' p''. fpga_platform_init good_os [] plat_start = Some (Inr (True, p')) \<and>
    fpga_platform_cleanup good_cleanup p' = Inr p'' \<and> closed_fds p'' = [5]"
proof -
  from default_start obtain p' where p': "fpga_platform_init good_os [] plat_start = Some (Inr (True, p'))" ..
  obtain p'' where p'': "fpga_platform_cleanup good_cleanup p' = Inr p''"
    using cleanup_succeeds [of p'] by (auto simp: good_cleanup_def)
  from platform_cycle_closes_driver [OF p' _ _ _ p''] p' p'' show ?thesis
    by (auto simp: plat_start_def good_os_def)
qed

text \<open>
  After a mapping that failed, the driver's descriptor is closed twice: by the start and again by
  the cleanup, which finds the handle still set.
\<close>

theorem failed_mapping_closes_twice:
  assumes "fpga_platform_init os argv p = Some (Inr (False, p'))" and "mmap_result os = None"
    and "0 \<le> open_result os" and "s_uio_drv_handle p' = open_result os"
    and "s_uio_drv_handle p = -1" and "fpga_platform_cleanup cos p' = Inr p''"
  shows "closed_fds p'' = closed_fds p @ [open_result os, open_result os]"
proof -
  obtain p2 where p2: "uio_update_based_on_sysfs os (uio_parse_args argv p) = Some p2" "same_resources p p2"
    "\<not> uio_validate_args p2 \<longrightarrow> Inr (False, p') = (Inr (False, p2\<lparr>s_uio_inThread_timeout := 100\<rparr>) :: runtime_exception + _)"
    by (rule platform_init_prepare [OF assms(1)])
  then have valid: "uio_validate_args p2"
    using assms(3-5) by (auto simp: same_resources_def)
  with assms(1,2,3) p2(1,2) have "closed_fds p' = closed_fds p @ [open_result os]"
    by (auto simp: fpga_platform_init_def uio_open_driver_def uio_map_mmio_def same_resources_def close_driver_def)
  with cleanup_result [OF assms(6)] assms(3,4) show ?thesis by simp
qed

lemma failed_mapping_closes_twice_witness:
  "\<exists>p' p''. fpga_platform_init (good_os\<lparr>mmap_result := None\<rparr>) [] plat_start = Some (Inr (False, p')) \<and>
    fpga_platform_cleanup good_cleanup p' = Inr p'' \<and> closed_fds p'' = [5, 5]"
proof -
  let ?os = "good_os\<lparr>mmap_result := None\<rparr>"
  let ?p' = "close_driver (plat_start\<lparr>s_uio_addr_span := 0x4000, s_uio_inThread_timeout := 100, s_uio_drv_handle := 5,
    s_uio_mmap_ptr := MAP_FAILED\<rparr>)"
  have "uio_update_based_on_sysfs ?os plat_start = uio_update_based_on_sysfs good_os plat_start"
    by (simp add: uio_update_based_on_sysfs_def uio_get_sysfs_map_file_to_uint64_def)
  then have "uio_update_based_on_sysfs ?os plat_start = Some (plat_start\<lparr>s_uio_addr_span := 0x4000\<rparr>)"
    by (simp only: default_region)
  moreover have facts: "open_result ?os = 5" "s_uio_drv_path plat_start = Some (str ''/dev/uio0'')"
    by (simp_all add: good_os_def plat_start_def)
  ultimately have p': "fpga_platform_init ?os [] plat_start = Some (Inr (False, ?p'))"
    using facts by (simp add: fpga_platform_init_def uio_parse_args_def getopt_long_def uio_validate_args_def
        uio_open_driver_def uio_map_mmio_def Let_def)
  obtain p'' where p'': "fpga_platform_cleanup good_cleanup ?p' = Inr p''"
    using cleanup_succeeds [of ?p'] by (auto simp: good_cleanup_def)
  from failed_mapping_closes_twice [OF p' _ _ _ _ p''] p' p'' show ?thesis
    by (auto simp: plat_start_def good_os_def close_driver_def)
qed

text \<open>
  Whatever \<open>pthread_create\<close> returns, the start reports success: after a failure there is no
  thread, and interrupts are never delivered.
\<close>

theorem thread_failure_reported_as_success:
  assumes "fpga_platform_init os argv p = Some (Inr (True, p'))" and "s_uio_single_component_mode p \<noteq> 0"
    and "realloc_result os"
  shows "\<exists>p1. fpga_platform_init (os\<lparr>create_rc := rc\<rparr>) argv p = Some (Inr (True, p1)) \<and>
    (rc = 0 \<or> s_intThread_id p1 = s_intThread_id p)"
proof -
  let ?os = "os\<lparr>create_rc := rc\<rparr>"
  have same: "uio_update_based_on_sysfs ?os q = uio_update_based_on_sysfs os q" "uio_scan_interfaces ?os q = uio_scan_interfaces os q"
    "uio_open_driver ?os q = uio_open_driver os q" "uio_map_mmio ?os q = uio_map_mmio os q" for q
    by (simp_all add: uio_update_based_on_sysfs_def uio_get_sysfs_map_file_to_uint64_def uio_scan_interfaces_def
        uio_open_driver_def uio_map_mmio_def)
  have no_thread: "rc = 0 \<or> s_intThread_id (snd (uio_create_interrupt_thread ?os q)) = s_intThread_id q" for q
    by (simp add: uio_create_interrupt_thread_def Let_def)
  obtain p2 where p2: "uio_update_based_on_sysfs os (uio_parse_args argv p) = Some p2" "same_resources p p2"
    and valid: "uio_validate_args p2"
    by (rule platform_init_prepare [OF assms(1)]) auto
  from assms(1) p2(1) valid obtain a where a: "mmap_result os = Some a" "open_result os \<noteq> -1"
    by (auto simp: fpga_platform_init_def uio_open_driver_def uio_map_mmio_def Let_def split: if_splits option.splits)
  let ?p5 = "p2\<lparr>s_uio_inThread_timeout := 100, s_uio_drv_handle := open_result os, s_uio_mmap_ptr := a,
    mappings := mappings p2 @ [(a, s_uio_addr_span p2)]\<rparr>"
  have single: "s_uio_single_component_mode ?p5 \<noteq> 0" using p2(2) assms(2) by (simp add: same_resources_def)
  from scan_interfaces_result [OF single assms(3)] obtain v where
    v: "uio_scan_interfaces os ?p5 = Some (Inr (True, ?p5\<lparr>info_vec := v\<rparr>))" by blast
  have "fpga_platform_init ?os argv p = Some (Inr (True, snd (uio_create_interrupt_thread ?os (?p5\<lparr>info_vec := v\<rparr>))))"
    using p2(1) valid a v single
    by (simp add: fpga_platform_init_def same) (simp add: same uio_open_driver_def uio_map_mmio_def Let_def split: prod.splits)
  with no_thread [of "?p5\<lparr>info_vec := v\<rparr>"] p2(2) show ?thesis by (auto simp: same_resources_def)
qed

lemma thread_failure_reported_as_success_witness:
  "\<exists>p1. fpga_platform_init (good_os\<lparr>create_rc := 11\<rparr>) [] plat_start = Some (Inr (True, p1)) \<and> s_intThread_id p1 = 0"
proof -
  from default_start obtain p' where p': "fpga_platform_init good_os [] plat_start = Some (Inr (True, p'))" ..
  from thread_failure_reported_as_success [OF this, of 11] show ?thesis by (auto simp: plat_start_def good_os_def)
qed

section \<open>Starting again\<close>

text \<open>
  What the cleanup leaves: not what the program starts with, where the path is \<open>/dev/uio0\<close> and the mode
  is 1.
\<close>

definition cleaned_up :: "plat \<Rightarrow> bool" where
  "cleaned_up p \<longleftrightarrow> s_uio_drv_path p = None \<and> s_uio_addr_span p = 0 \<and> s_uio_start_addr p = 0 \<and>
     s_uio_single_component_mode p = 0 \<and> p_errno p = -1 \<and> vec_size (info_vec p) = 0"

lemma cleanup_leaves:
  assumes "fpga_platform_cleanup cos p = Inr p'"
  shows "cleaned_up p' \<and> s_intThread_id p' = s_intThread_id p \<and>
    (info_vec p = empty_vec \<or> vec_size (info_vec p) > 0 \<longrightarrow> info_vec p' = empty_vec)"
proof -
  obtain st p1 where st: "(if s_intThread_id p \<noteq> 0 then signal_thread cos p else (0, p)) = (st, p1)" by fastforce
  then have p1: "info_vec p1 = info_vec p" "s_intThread_id p1 = s_intThread_id p"
    by (auto simp: signal_thread_def Let_def split: if_splits prod.splits)
  have "st = 0" using assms st by (auto simp: fpga_platform_cleanup_def split: if_splits)
  with assms st p1 show ?thesis
    by (auto simp: fpga_platform_cleanup_def resize_0 close_driver_def cleaned_up_def empty_vec_def Let_def split: if_splits)
qed

text \<open>
  So a second start is not like the first: without arguments, which is enough for the first, it looks for
  the last slash of a path that is not there; with a path and a span it succeeds, but finds no interface
  unless the mode is given too.
\<close>

theorem restart_without_path_undefined:
  assumes "fpga_platform_cleanup cos p = Inr p'"
  shows "fpga_platform_init os [] p' = None"
  using cleanup_leaves [OF assms]
  by (auto simp: fpga_platform_init_def uio_parse_args_def getopt_long_def uio_update_based_on_sysfs_def
      uio_get_sysfs_map_path_def cleaned_up_def)

theorem restart_finds_no_interface:
  assumes "fpga_platform_cleanup cos p = Inr p'" and "fpga_platform_init os argv p' = Some (Inr (True, p''))"
    and "s_uio_single_component_mode (uio_parse_args argv p') = 0"
  shows "fpga_get_num_of_interfaces (info_vec p'') = 0"
proof -
  from assms(2) obtain p2 where p2: "uio_update_based_on_sysfs os (uio_parse_args argv p') = Some p2"
    by (auto simp: fpga_platform_init_def bind_eq_Some_conv)
  have "same_resources p' p2" by (rule same_resources_trans [OF uio_parse_args_same uio_update_same [OF p2]])
  then have none: "vec_size (info_vec p2) = 0"
    using cleanup_leaves [OF assms(1)] by (simp add: same_resources_def cleaned_up_def)
  have mode: "s_uio_single_component_mode p2 = 0"
    using p2 assms(3) by (auto simp: uio_update_based_on_sysfs_def bind_eq_Some_conv split: if_splits prod.splits)
  show ?thesis using assms(2) p2 none mode
    by (auto simp: fpga_platform_init_def uio_open_driver_def uio_map_mmio_def uio_scan_interfaces_def Let_def
        fpga_get_num_of_interfaces_def split: if_splits option.splits)
qed

end
