(* ===== verification/App_Laws.thy ===== *)
theory App_Laws
  imports App_Main Platform_Laws Loop_Laws
begin

text \<open>
  What the command-line program does with its arguments, how it ends, and how it is stopped.
\<close>

section \<open>Reading options\<close>

lemma split_value_name: "61 \<notin> set name \<Longrightarrow> split_value (name @ 61 # v) = (name, Some v)"
proof -
  assume "61 \<notin> set name"
  then have all: "\<And>b. b \<in> set name \<Longrightarrow> b \<noteq> 61" by auto
  have "takeWhile (\<lambda>b. b \<noteq> 61) (name @ 61 # v) = name" "dropWhile (\<lambda>b. b \<noteq> 61) (name @ 61 # v) = 61 # v"
    using all by (simp_all add: takeWhile_append2 dropWhile_append2)
  then show ?thesis by (simp add: split_value_def)
qed

lemma split_value_plain: "61 \<notin> set name \<Longrightarrow> split_value name = (name, None)"
  by (auto simp: split_value_def takeWhile_eq_all_conv)

lemma getopt_long_events: "fst (getopt_long t argv) = fst (getopt_scan t argv)"
  by (simp add: getopt_long_def split: prod.splits)

text \<open>A long option with its value in the same argument.\<close>

lemma scan_long_value:
  assumes "61 \<notin> set name" and "find_long t name = Some o1" and "has_arg o1" and "name \<noteq> []"
  shows "getopt_scan t ((45 # 45 # name @ 61 # v) # as) =
    (let (es, os, ns) = getopt_scan t as in (long_event o1 (Some v) # es, (45 # 45 # name @ 61 # v) # os, ns))"
  using assms by (simp add: is_opt_arg_def one_opt_def long_opt_def split_value_name split: prod.splits)

definition long_arg :: "string \<Rightarrow> u8 list \<Rightarrow> u8 list" where
  "long_arg name v = 45 # 45 # str name @ 61 # v"

lemma cmd_options_result: "cmd_options evs cl e = (rc, cl', e') \<Longrightarrow> rc \<in> {0, -2, -3, -4}"
  by (induction evs cl e rule: cmd_options.induct)
     (auto simp: Let_def split: opt_event.splits option.splits if_splits prod.splits)

lemma parse_cmd_args_result: "parse_cmd_args argv cl e = (rc, cl', e', argv') \<Longrightarrow> rc \<in> {0, -2, -3, -4}"
  using cmd_options_result by (fastforce simp: parse_cmd_args_def split: prod.splits)

text \<open>Deleting the server object after its loop has returned is undefined behaviour.\<close>

lemma terminate_dead [simp]:
  "StreamingDebug_terminate context Null s = None" "StreamingDebug_terminate context Dangling s = None"
  by (cases "fpga_close (word_of_int (cxt_mmio_handle context)) (interfaces (Driver.plat (drv (mach s))))";
      simp add: StreamingDebug_terminate_def terminate_st_dbg_transport_server_over_tcpip_def
       server_terminate_def Let_def)+

lemma run_etherlink_running [simp]:
  "run_etherlink bus char_signed pay0 mem1 mem2 envs context0 cl m \<noteq> Some (Some r, s)"
  by (auto simp: run_etherlink_def StreamingDebug_run_def bind_eq_Some_conv Let_def
      split: if_splits option.splits sum.splits)

section \<open>Properties\<close>

text \<open>
  C34. The documented form of the options is read back: a port and a memory size printed in decimal
  arrive in the record, in either order, and nothing else of it changes but the address.
\<close>

theorem command_line_round_trip:
  assumes "port < 2 ^ 31" and "0 < sz" and "sz \<le> LONG_MAX" and "e \<noteq> ERANGE"
  shows "\<exists>cl argv'. parse_cmd_args [long_arg ''port'' (dec_nat port), long_arg ''h2t-t2h-mem-size'' (dec_nat sz)]
      cmdline_start e = (0, cl, e, argv') \<and>
    parse_cmd_args [long_arg ''h2t-t2h-mem-size'' (dec_nat sz), long_arg ''port'' (dec_nat port)]
      cmdline_start e = (0, cl, e, rev argv') \<and>
    e_port cl = int port \<and> e_mem_size cl = of_nat sz \<and> e_ip cl = str ''0.0.0.0'' @ replicate 9 0"
proof -
  let ?p = "long_arg ''port'' (dec_nat port)" and ?m = "long_arg ''h2t-t2h-mem-size'' (dec_nat sz)"
  have found: "find_long main_options (str ''port'') = Some \<lparr>opt_name = str ''port'', has_arg = True, sets_flag = False, opt_val = 112\<rparr>"
    "find_long main_options (str ''h2t-t2h-mem-size'') =
      Some \<lparr>opt_name = str ''h2t-t2h-mem-size'', has_arg = True, sets_flag = False, opt_val = 109\<rparr>"
    by (simp_all add: find_long_def main_options_def str_def)
  have step_port: "getopt_scan main_options (?p # as) = (let (es, os, ns) = getopt_scan main_options as
      in (Opt 112 (Some (dec_nat port)) # es, ?p # os, ns))" for as
  proof -
    have "61 \<notin> set (str ''port'')" "str ''port'' \<noteq> []" by (simp_all add: str_def)
    from scan_long_value [OF this(1) found(1) _ this(2), of "dec_nat port" as] show ?thesis
      by (simp add: long_arg_def long_event_def)
  qed
  have step_size: "getopt_scan main_options (?m # as) = (let (es, os, ns) = getopt_scan main_options as
      in (Opt 109 (Some (dec_nat sz)) # es, ?m # os, ns))" for as
  proof -
    have "61 \<notin> set (str ''h2t-t2h-mem-size'')" "str ''h2t-t2h-mem-size'' \<noteq> []" by (simp_all add: str_def)
    from scan_long_value [OF this(1) found(2) _ this(2), of "dec_nat sz" as] show ?thesis
      by (simp add: long_arg_def long_event_def)
  qed
  have scan: "getopt_scan main_options [?p, ?m] = ([Opt 112 (Some (dec_nat port)), Opt 109 (Some (dec_nat sz))], [?p, ?m], [])"
    "getopt_scan main_options [?m, ?p] = ([Opt 109 (Some (dec_nat sz)), Opt 112 (Some (dec_nat port))], [?m, ?p], [])"
    by (simp_all add: step_port step_size long_event_def del: getopt_scan.simps(2))
  have port: "parse_integer_arg (dec_nat port) e = (int port, e)" "int_of_long (int port) = int port"
  proof -
    show "parse_integer_arg (dec_nat port) e = (int port, e)"
      using assms(1,4) by (intro parse_decimal) (simp_all add: LONG_MAX_def)
    show "int_of_long (int port) = int port"
      using assms(1) by (simp add: int_of_long_def signed_of_nat signed_take_bit_int_eq_self)
  qed
  have size: "parse_integer_arg (dec_nat sz) e = (int sz, e)" "(of_nat sz :: size_t) \<noteq> 0"
  proof -
    show "parse_integer_arg (dec_nat sz) e = (int sz, e)" using assms(3,4) by (rule parse_decimal)
    have "unat (of_nat sz :: size_t) = sz"
      using assms(3) by (intro unat_of_nat_small) (simp add: LONG_MAX_def)
    then show "(of_nat sz :: size_t) \<noteq> 0" using assms(2) by auto
  qed
  show ?thesis
    by (simp add: parse_cmd_args_def getopt_long_def scan port size cmdline_start_def strncpy_into_def str_def Let_def
        del: getopt_scan.simps(2))
qed

lemma command_line_round_trip_witness:
  "\<exists>cl argv'. parse_cmd_args [long_arg ''port'' (dec_nat 8080), long_arg ''h2t-t2h-mem-size'' (dec_nat 4096)]
      cmdline_start 0 = (0, cl, 0, argv') \<and> e_port cl = 8080 \<and> e_mem_size cl = 4096"
  using command_line_round_trip [of 8080 4096 0] by (auto simp: LONG_MAX_def ERANGE_def)

text \<open>
  The short option for the port also sets the path of the driver: the platform code reads the
  same vector and takes \<open>-p\<close> for its own option.
\<close>

theorem short_port_is_driver_path:
  "\<exists>cl e'. parse_cmd_args [str ''-p'', a] cmdline_start 0 = (0, cl, e', [str ''-p'', a]) \<and>
    e_port cl = int_of_long (fst (parse_integer_arg a 0)) \<and>
    s_uio_drv_path (uio_parse_args [str ''-p'', a] p) = Some a"
  by (simp add: parse_cmd_args_def getopt_long_def is_opt_arg_def one_opt_def main_options_def uio_options_def
      uio_parse_args_def uio_option_def cmdline_start_def str_def Let_def split: prod.splits)

text \<open>
  C33. A driver path in an argument of its own is lost when another option follows: the first reading
  of the vector does not know the option and moves the path to the end, so that the second takes the
  next option for the path.
\<close>

theorem separate_driver_path_lost:
  assumes "\<not> is_opt_arg path" and "\<not> is_opt_arg port"
  shows "\<exists>cl e' argv'. parse_cmd_args [str ''--uio-driver-path'', path, str ''--port'', port] cmdline_start 0 =
      (0, cl, e', argv') \<and>
    s_uio_drv_path (uio_parse_args [str ''--uio-driver-path'', path, str ''--port'', port] p) = Some path \<and>
    s_uio_drv_path (uio_parse_args argv' p) = Some (str ''--port'')"
proof -
  let ?u = "str ''--uio-driver-path''" and ?port = "str ''--port''"
  have words: "is_opt_arg ?u" "is_opt_arg ?port" "?u \<noteq> [45, 45]" "?port \<noteq> [45, 45]"
    "path \<noteq> [45, 45]" "port \<noteq> [45, 45]"
    using assms by (auto simp: is_opt_arg_def str_def)
  have main_u: "one_opt main_options ?u as = ([Bad], [], as)" for as
    by (simp add: one_opt_def long_opt_def split_value_def find_long_def main_options_def str_def)
  have main_port: "one_opt main_options ?port (a # as) = ([Opt 112 (Some a)], [a], as)" for a as
    by (simp add: one_opt_def long_opt_def split_value_def find_long_def main_options_def str_def long_event_def)
  have uio_u: "one_opt uio_options ?u (a # as) = ([Opt 112 (Some a)], [a], as)" for a as
    by (simp add: one_opt_def long_opt_def split_value_def find_long_def uio_options_def str_def long_event_def)
  have uio_port: "one_opt uio_options ?port as = ([Bad], [], as)" for as
    by (simp add: one_opt_def long_opt_def split_value_def find_long_def uio_options_def str_def)
  have main: "getopt_scan main_options [?u, path, ?port, port] = ([Bad, Opt 112 (Some port)], [?u, ?port, port], [path])"
    using assms words by (simp add: main_u main_port)
  have uio: "fst (getopt_scan uio_options [?u, path, ?port, port]) = [Opt 112 (Some path), Bad]"
    "fst (getopt_scan uio_options [?u, ?port, port, path]) = [Opt 112 (Some ?port)]"
    using assms words by (simp_all add: uio_u uio_port)
  have "\<exists>cl e'. parse_cmd_args [?u, path, ?port, port] cmdline_start 0 = (0, cl, e', [?u, ?port, port, path])"
    unfolding parse_cmd_args_def getopt_long_def main by (simp add: cmdline_start_def split: prod.splits)
  moreover have "s_uio_drv_path (uio_parse_args [?u, path, ?port, port] p) = Some path"
    "s_uio_drv_path (uio_parse_args [?u, ?port, port, path] p) = Some ?port"
    unfolding uio_parse_args_def getopt_long_events uio by (simp_all add: uio_option_def)
  ultimately show ?thesis by blast
qed

lemma separate_driver_path_lost_witness:
  "\<exists>cl e' argv'. parse_cmd_args [str ''--uio-driver-path'', str ''/dev/uio1'', str ''--port'', str ''8080''] cmdline_start 0 =
      (0, cl, e', argv') \<and> s_uio_drv_path (uio_parse_args argv' plat_start) = Some (str ''--port'')"
proof -
  have "\<not> is_opt_arg (str ''/dev/uio1'')" "\<not> is_opt_arg (str ''8080'')" by (simp_all add: is_opt_arg_def str_def)
  from separate_driver_path_lost [OF this, of plat_start] show ?thesis by blast
qed

text \<open>
  C32. The program never ends in order once the server was started: when the server loop returns, the
  object is deleted and the listening socket is looked up through a pointer that is null or that
  points to a stack frame that is gone. The program only ends before the server starts, by an
  exception, or by the signal handler.
\<close>

theorem main_ends_only_before_server:
  assumes "app_main bus char_signed pay0 mem1 mem2 envs context0 uos cos argv m = Some (out, p)"
  shows "out = Serving \<or> out \<in> {Exit (-4), Exit (-3), Exit (-2), Exit (-1), Exit 1}"
proof -
  obtain rc cl e argv' where parse: "parse_cmd_args argv cmdline_start 0 = (rc, cl, e, argv')"
    by (cases "parse_cmd_args argv cmdline_start 0") auto
  have rc: "rc \<in> {0, -2, -3, -4}" using parse_cmd_args_result [OF parse] .
  have exit: "fst (out_exit cos r p0) = Exit r \<or> fst (out_exit cos r p0) = Exit 1" for r p0
    by (simp add: out_exit_def split: sum.splits)
  show ?thesis
  proof (cases "rc = 0")
    case False
    with assms parse have "out = fst (out_exit cos rc (plat_start\<lparr>p_errno := e\<rparr>))"
      by (simp add: app_main_def)
    with rc False exit [of rc "plat_start\<lparr>p_errno := e\<rparr>"] show ?thesis by auto
  next
    case True
    with assms parse obtain init where
      init: "fpga_platform_init uos argv' (plat_start\<lparr>p_errno := e\<rparr>) = Some init"
      by (auto simp: app_main_def bind_eq_Some_conv Let_def)
    show ?thesis
    proof (cases init)
      case (Inl exc)
      with assms parse True init show ?thesis by (simp add: app_main_def)
    next
      case (Inr r)
      obtain ok p1 where r: "r = (ok, p1)" by (cases r)
      show ?thesis
      proof (cases ok)
        case False
        with assms parse True init Inr r have "out = fst (out_exit cos (-1) p1)"
          by (simp add: app_main_def)
        with exit [of "-1" p1] show ?thesis by auto
      next
        case ok: True
        with assms parse True init Inr r show ?thesis
          by (auto simp: app_main_def bind_eq_Some_conv Let_def split: option.splits)
      qed
    qed
  qed
qed


lemma main_ends_only_before_server_witness:
  "\<exists>p. app_main ram_bus True 0 (\<lambda>_. None) (\<lambda>_. None) [] \<lparr>cxt_mmio_handle = 0, h2t_t2h_mem_size = 0, cxt_port = 0\<rparr>
      good_os good_cleanup [str ''--help''] \<lparr>drv = driver_start \<lparr>interfaces = empty_vec, device = (\<lambda>_. 0)\<rparr>,
        osys = quiet_os, g_socket_recv_buff = None, g_socket_send_buff = None\<rparr> = Some (Exit (- 2), p)"
proof -
  obtain p' where p': "fpga_platform_cleanup good_cleanup plat_start = Inr p'"
    using cleanup_succeeds [of plat_start] by (auto simp: good_cleanup_def)
  have parse: "\<exists>cl argv'. parse_cmd_args [str ''--help''] cmdline_start 0 = (-2, cl, 0, argv')"
    by (simp add: parse_cmd_args_def getopt_long_def is_opt_arg_def one_opt_def long_opt_def split_value_def find_long_def
        main_options_def str_def long_event_def cmdline_start_def)
  have "p_errno plat_start = 0" by (simp add: plat_start_def)
  then have "plat_start\<lparr>p_errno := 0\<rparr> = plat_start" by (metis plat.surjective plat.update_convs(12))
  with p' parse obtain p where p: "app_main ram_bus True 0 (\<lambda>_. None) (\<lambda>_. None) [] \<lparr>cxt_mmio_handle = 0, h2t_t2h_mem_size = 0, cxt_port = 0\<rparr>
      good_os good_cleanup [str ''--help''] \<lparr>drv = driver_start \<lparr>interfaces = empty_vec, device = (\<lambda>_. 0)\<rparr>,
        osys = quiet_os, g_socket_recv_buff = None, g_socket_send_buff = None\<rparr> = Some (Exit (- 2), p)"
    by (auto simp: app_main_def out_exit_def Let_def)
  with main_ends_only_before_server [OF p] show ?thesis by blast
qed

text \<open>
  C31. SIGINT while the server runs ends the program with 0 after everything it owns was given back:
  the driver's descriptor and the listening socket are closed once each, the interface table is empty
  and both transfer buffers are freed.
\<close>

theorem sigint_shuts_down:
  assumes "fpga_platform_cleanup cos p = Inr p'" and "server_fd (conn s) \<noteq> INVALID_SOCKET"
    and "0 \<le> s_uio_drv_handle p"
  shows "\<exists>s'. etherlink_sig_handler cos SIGINT context Live p s = Some (Exit 0, p', s') \<and>
    closed (world s') = closed (world s) @ [server_fd (conn s)] \<and>
    closed_fds p' = closed_fds p @ [s_uio_drv_handle p] \<and> vec_size (info_vec p') = 0 \<and>
    g_socket_recv_buff (mach s') = None \<and> g_socket_send_buff (mach s') = None"
proof -
  note p' = cleanup_result [OF assms(1)]
  have none: "fpga_close i (info_vec p') = Some (info_vec p')" for i
    using p' by (simp add: fpga_close_def in_vec_def)
  show ?thesis
    using assms p' by (simp add: etherlink_sig_handler_def StreamingDebug_terminate_def with_interfaces_def none
        terminate_st_dbg_transport_server_over_tcpip_def server_terminate_def close_listening_def Let_def
        free_tcpip_recv_send_buffer_def sys_calls set_world_def world_def)
qed

lemma sigint_shuts_down_witness:
  "\<exists>p' s'. etherlink_sig_handler good_cleanup SIGINT \<lparr>cxt_mmio_handle = 0, h2t_t2h_mem_size = 4096, cxt_port = 0\<rparr> Live
      (plat_start\<lparr>s_uio_drv_handle := 5\<rparr>) (demo_srv\<lparr>conn := (conn demo_srv)\<lparr>server_fd := 3\<rparr>\<rparr>) = Some (Exit 0, p', s') \<and>
    closed (world s') = [3] \<and> closed_fds p' = [5]"
proof -
  obtain p' where p': "fpga_platform_cleanup good_cleanup (plat_start\<lparr>s_uio_drv_handle := 5\<rparr>) = Inr p'"
    using cleanup_succeeds [of "plat_start\<lparr>s_uio_drv_handle := 5\<rparr>"] by (auto simp: good_cleanup_def)
  from sigint_shuts_down [OF p', of "demo_srv\<lparr>conn := (conn demo_srv)\<lparr>server_fd := 3\<rparr>\<rparr>"
      "\<lparr>cxt_mmio_handle = 0, h2t_t2h_mem_size = 4096, cxt_port = 0\<rparr>"] show ?thesis
    by (auto simp: INVALID_SOCKET_def demo_srv_def world_def demo_client_def quiet_os_def plat_start_def)
qed

end
