(* ===== verification/Program_Safety.thy ===== *)
theory Program_Safety
  imports Service_Safety App_Laws
begin

text \<open>
  The whole program, from the command line to serving clients: \<^verbatim>\<open>main.cpp\<close>, the platform, the
  interface table, the start-up of the server, its loops and the driver together.
\<close>

section \<open>From the platform to the driver\<close>


lemma with_interfaces_again [simp]:
  "with_interfaces v (with_interfaces v' m) = with_interfaces v m"
  "interfaces (Driver.plat (drv (with_interfaces v m))) = v"
  "g_h2t_descriptor_chain (drv (with_interfaces v m)) = g_h2t_descriptor_chain (drv m)"
  "osys (with_interfaces v m) = osys m"
  by (simp_all add: with_interfaces_def)


section \<open>Property\<close>







end
