(* ===== verification/Sw_Model.thy ===== *)
theory Sw_Model
  imports Mmio Platform_Laws
begin

text \<open>
  The build of \<^verbatim>\<open>protodrv_api/uio/src/intel_fpga_platform_api_uio.c\<close> with
  \<open>UIO_UNIT_TEST_SW_MODEL_MODE\<close>, which the unit tests use: instead of a mapped device there is
  allocated memory, all ones at first. \<open>mem\<close> is what \<open>malloc\<close> returns; the memory of the process is a
  function from addresses to bytes, the device \<open>ram_bus\<close> of the access functions.
\<close>

section \<open>The code\<close>

text \<open>The memory is filled even if there is none, which is undefined behaviour.\<close>

definition uio_create_unit_test_sw_model ::
  "bool \<Rightarrow> u64 option \<Rightarrow> plat \<Rightarrow> ram \<Rightarrow> (runtime_exception + bool \<times> plat \<times> ram) option" where
  "uio_create_unit_test_sw_model realloc_ok mem p m =
     (case common_fpga_interface_info_vec_resize realloc_ok 1 (info_vec p) of
        Inl e \<Rightarrow> Some (Inl e)
      | Inr v \<Rightarrow> do {
          v1 \<leftarrow> vec_update 0 (\<lambda>i. i\<lparr>base_address := (case mem of None \<Rightarrow> 0 | Some a \<Rightarrow> a)\<rparr>) v;
          a \<leftarrow> mem;
          Some (Inr (True, p\<lparr>info_vec := v1\<rparr>, \<lambda>x. if x - a < s_uio_addr_span p then 0xFF else m x))
        })"

text \<open>In this build \<open>uio_update_based_on_sysfs\<close> has an empty body: the span is what the command line says.\<close>

definition fpga_platform_init_sw_model ::
  "uio_os \<Rightarrow> u64 option \<Rightarrow> u8 list list \<Rightarrow> plat \<Rightarrow> ram \<Rightarrow> (runtime_exception + bool \<times> plat \<times> ram) option" where
  "fpga_platform_init_sw_model os mem argv p0 m =
     (let p1 = uio_parse_args argv p0;
          is_args_valid = uio_validate_args p1;
          p2 = p1\<lparr>s_uio_inThread_timeout := 100\<rparr>
      in if \<not> is_args_valid then Some (Inr (False, p2, m))
         else do {
           r \<leftarrow> uio_create_unit_test_sw_model (realloc_result os) mem p2 m;
           case r of
             Inl e \<Rightarrow> Some (Inl e)
           | Inr (created, p3, m1) \<Rightarrow>
               if \<not> created then Some (Inr (False, p3, m1))
               else if s_uio_single_component_mode p3 \<noteq> 0
               then (let (ok, p4) = uio_create_interrupt_thread os p3 in Some (Inr (True, p4, m1)))
               else Some (Inr (True, p3, m1))
         })"

text \<open>The cleanup of this build frees the memory before it empties the table; the result has the freed address.\<close>

definition fpga_platform_cleanup_sw_model ::
  "cleanup_os \<Rightarrow> plat \<Rightarrow> (runtime_exception + u64 option \<times> plat) option" where
  "fpga_platform_cleanup_sw_model os p =
     (case fpga_platform_cleanup os p of
        Inl e \<Rightarrow> Some (Inl e)
      | Inr p' \<Rightarrow>
          if vec_size (info_vec p) > 0
          then do { i \<leftarrow> vec_at (info_vec p) 0; Some (Inr (Some (base_address i), p')) }
          else Some (Inr (None, p')))"

section \<open>What the unit tests rely on\<close>

lemma all_ones: "le_word (replicate 8 0xFF) = (-1 :: u64)"
proof -
  have "replicate 8 b = [b, b, b, b, b, b, b, b]" for b :: u8 by (simp add: numeral_eq_Suc)
  then show ?thesis by simp
qed

lemma filled_bytes:
  assumes "\<And>x. x - a < sz \<Longrightarrow> m x = 0xFF" and "unat (off :: u32) + n \<le> unat (sz :: u64)"
  shows "ram_bytes n (a + ucast off) m = replicate n 0xFF"
proof -
  have "m (a + ucast off + of_nat k) = 0xFF" if "k < n" for k
  proof (rule assms(1))
    have "unat sz < 2 ^ LENGTH(64)" by (rule unsigned_less)
    then have "unat (of_nat (unat off + k) :: u64) = unat off + k"
      using assms(2) that by (intro unat_of_nat_small) simp
    moreover have "a + ucast off + of_nat k - a = (of_nat (unat off + k) :: u64)" by simp
    ultimately show "a + ucast off + of_nat k - a < sz" using assms(2) that by (simp only: word_less_nat_alt)
  qed
  then show ?thesis by (auto simp: ram_bytes_def intro!: nth_equalityI)
qed

text \<open>
  The model has one interface, which is not opened yet; each of its bytes is \<open>0xFF\<close>, and the accesses
  up to the end of the span read that.
\<close>

lemma sw_model_result:
  assumes "uio_create_unit_test_sw_model realloc_ok mem p m = Some (Inr (ok, p', m'))" and "vec_elems (info_vec p) = []"
  shows "\<exists>a. mem = Some a \<and> ok \<and> p' = p\<lparr>info_vec := \<lparr>vec_elems = [zero_info\<lparr>base_address := a\<rparr>], vec_size = 1\<rparr>\<rparr> \<and>
    (\<forall>x. x - a < s_uio_addr_span p \<longrightarrow> m' x = 0xFF)"
  using assms
  by (cases mem; cases "info_vec p")
     (auto simp: uio_create_unit_test_sw_model_def common_fpga_interface_info_vec_resize_def
       common_fpga_interface_info_vec_reserve_def vec_update_def vec_at_def split: if_splits)

theorem sw_model_reads_ones:
  assumes "fpga_platform_init_sw_model os mem argv p m = Some (Inr (True, p', m'))" and "vec_elems (info_vec p) = []"
    and "unat (off :: u32) + 8 \<le> unat (s_uio_addr_span p')"
  shows "\<exists>v. fpga_open 0 (info_vec p') = Some (0, v) \<and>
    fpga_read_64 ram_bus 0 off \<lparr>interfaces = v, device = m'\<rparr> = Some (-1, \<lparr>interfaces = v, device = m'\<rparr>)"
proof -
  let ?p2 = "uio_parse_args argv p\<lparr>s_uio_inThread_timeout := 100\<rparr>"
  have none: "vec_elems (info_vec ?p2) = []" using assms(2) uio_parse_args_same [of p argv] by (simp add: same_resources_def)
  from assms(1) obtain r where r: "uio_create_unit_test_sw_model (realloc_result os) mem ?p2 m = Some r"
    by (auto simp: fpga_platform_init_sw_model_def Let_def bind_eq_Some_conv split: if_splits)
  with assms(1) obtain p3 where
    p3: "uio_create_unit_test_sw_model (realloc_result os) mem ?p2 m = Some (Inr (True, p3, m'))"
    "p' = p3 \<or> p' = snd (uio_create_interrupt_thread os p3)"
    by (cases r) (auto simp: fpga_platform_init_sw_model_def Let_def case_prod_beta' split: if_splits)
  from sw_model_result [OF p3(1) none] obtain a where
    a: "info_vec p3 = \<lparr>vec_elems = [zero_info\<lparr>base_address := a\<rparr>], vec_size = 1\<rparr>" "s_uio_addr_span p3 = s_uio_addr_span ?p2"
      "\<forall>x. x - a < s_uio_addr_span ?p2 \<longrightarrow> m' x = 0xFF" by auto
  have "info_vec p' = info_vec p3" "s_uio_addr_span p' = s_uio_addr_span p3"
    using p3(2) by (auto simp: uio_create_interrupt_thread_def Let_def)
  with a filled_bytes [of a "s_uio_addr_span ?p2" m' off 8] assms(3) all_ones show ?thesis
    by (simp add: fpga_open_def in_vec_def vec_at_def vec_update_def zero_info_def fpga_read_64_def mmio_load_def ram_bus_def
        fpga_uio_get_base_address_def handle_index_def)
qed

text \<open>The arguments of the fixture in \<^verbatim>\<open>protodrv_api/uio/test/utst/intel_fpga_api_uio_test.cpp\<close>, without the program name.\<close>

definition mmio_test_argv :: "u8 list list" where
  "mmio_test_argv = [str ''--single-component-mode'', str ''--uio-driver-path=/dev/uio0'', str ''--address-span=4096'']"

lemmas parse_simps = uio_parse_args_def getopt_long_def getopt_scan.simps one_opt_def long_opt_def split_value_def
  find_long_def long_event_def is_opt_arg_def short_cluster.simps uio_option_def uio_options_def uio_parse_integer_arg_def
  strtol_base_0_def is_hex_prefix_def read_base.simps digit_value_def LONG_MAX_def ERANGE_def

lemma mmio_test_args:
  "uio_parse_args mmio_test_argv plat_start = plat_start\<lparr>s_uio_single_component_mode := 99, s_uio_addr_span := 4096\<rparr>"
  by (simp add: mmio_test_argv_def str_def plat_start_def parse_simps Let_def)

lemma sw_model_reads_ones_witness:
  "\<exists>p' m' v. fpga_platform_init_sw_model good_os (Some 0x5000) mmio_test_argv plat_start (\<lambda>_. 0) = Some (Inr (True, p', m')) \<and>
     fpga_read_64 ram_bus 0 0xFF8 \<lparr>interfaces = v, device = m'\<rparr> = Some (-1, \<lparr>interfaces = v, device = m'\<rparr>)"
proof -
  let ?p = "plat_start\<lparr>s_uio_single_component_mode := 99, s_uio_addr_span := 4096\<rparr>"
  have start: "realloc_result good_os" "uio_validate_args ?p" "info_vec plat_start = \<lparr>vec_elems = [], vec_size = 0\<rparr>"
    by (simp_all add: good_os_def plat_start_def empty_vec_def uio_validate_args_def)
  then obtain v m1 where "uio_create_unit_test_sw_model True (Some 0x5000) (?p\<lparr>s_uio_inThread_timeout := 100\<rparr>) (\<lambda>_. 0) =
      Some (Inr (True, ?p\<lparr>s_uio_inThread_timeout := 100, info_vec := v\<rparr>, m1))"
    by (auto simp: uio_create_unit_test_sw_model_def common_fpga_interface_info_vec_resize_def
        common_fpga_interface_info_vec_reserve_def vec_update_def vec_at_def)
  with start obtain p' m' where
    r: "fpga_platform_init_sw_model good_os (Some 0x5000) mmio_test_argv plat_start (\<lambda>_. 0) = Some (Inr (True, p', m'))"
    "s_uio_addr_span p' = 4096"
    by (auto simp: fpga_platform_init_sw_model_def mmio_test_args Let_def uio_create_interrupt_thread_def)
  from sw_model_reads_ones [OF r(1), where off = "0xFF8"] r show ?thesis by (auto simp: start)
qed

text \<open>The memory is freed once, by the cleanup, and its address is what was allocated.\<close>

lemma sw_model_freed:
  assumes "uio_create_unit_test_sw_model realloc_ok mem p m = Some (Inr (ok, p', m'))" and "vec_elems (info_vec p) = []"
    and "info_vec p'' = info_vec p'" and "fpga_platform_cleanup cos p'' = Inr q"
  shows "fpga_platform_cleanup_sw_model cos p'' = Some (Inr (mem, q)) \<and> vec_size (info_vec q) = 0"
proof -
  from sw_model_result [OF assms(1,2)] assms(3) obtain a where
    "mem = Some a" "info_vec p'' = \<lparr>vec_elems = [zero_info\<lparr>base_address := a\<rparr>], vec_size = 1\<rparr>" by auto
  with assms(4) cleanup_result [OF assms(4)] show ?thesis by (simp add: fpga_platform_cleanup_sw_model_def vec_at_def)
qed

end
