(* ===== verification/Messages.thy ===== *)
theory Messages
  imports CBase
begin

text \<open>
  Messages and run-time exceptions: \<^verbatim>\<open>protodrv_api/common/inc/intel_fpga_api_cmn_msg.h\<close> and
  \<^verbatim>\<open>protodrv_api/common/src/intel_fpga_api_cmn_msg.c\<close>, with every \<open>INTEL_FPGA_MSG_PRINTF_ENABLE\<close>
  macro defined, as the header does.

  The two global function pointers and \<open>g_common_show_dbg_msg\<close> are fields of the state, beside what
  was written to the standard output and whether the program has ended. A message is the text that
  its format and arguments denote; a type is a number, since the code has a branch for one that is
  none of the four.
\<close>

section \<open>The code\<close>

datatype exit_status = Running | Exited int

record 'u msgs =
  printf_handler :: "(nat \<Rightarrow> u8 list \<Rightarrow> 'u \<Rightarrow> int \<times> 'u) option"
  exception_handler :: "(u8 list \<Rightarrow> u8 list \<Rightarrow> int \<Rightarrow> u8 list \<Rightarrow> 'u \<Rightarrow> 'u) option"
  show_dbg_msg :: int
  stdout_text :: "u8 list"
  program :: exit_status
  user :: 'u

definition FPGA_MSG_PRINTF_INFO :: nat where "FPGA_MSG_PRINTF_INFO = 0"
definition FPGA_MSG_PRINTF_WARNING :: nat where "FPGA_MSG_PRINTF_WARNING = 1"
definition FPGA_MSG_PRINTF_ERROR :: nat where "FPGA_MSG_PRINTF_ERROR = 2"
definition FPGA_MSG_PRINTF_DEBUG :: nat where "FPGA_MSG_PRINTF_DEBUG = 3"

text \<open>Where the pointers are the defaults they are \<open>None\<close>; \<open>user\<close> is the state of other handlers.\<close>

definition msgs_start :: "'u \<Rightarrow> 'u msgs" where
  "msgs_start u = \<lparr>printf_handler = None, exception_handler = None, show_dbg_msg = 0, stdout_text = [],
     program = Running, user = u\<rparr>"

definition print_out :: "u8 list \<Rightarrow> 'u msgs \<Rightarrow> 'u msgs" where
  "print_out t m = m\<lparr>stdout_text := stdout_text m @ t\<rparr>"

definition s_common_fpga_platform_default_runtime_exception_handler ::
  "u8 list \<Rightarrow> u8 list \<Rightarrow> int \<Rightarrow> u8 list \<Rightarrow> 'u msgs \<Rightarrow> 'u msgs" where
  "s_common_fpga_platform_default_runtime_exception_handler fn file lineno t m =
     (let m1 = print_out (str ''Exception occured in '' @ fn @ str ''() at line '' @ dec_int lineno @
                 str '' in '' @ file @ str '' due to '') m;
          m2 = print_out t m1;
          m3 = print_out ([10, 10] @ str ''Application is terminated.'' @ [10]) m2
      in m3\<lparr>program := Exited 1\<rparr>)"

definition fpga_throw_runtime_exception ::
  "u8 list \<Rightarrow> u8 list \<Rightarrow> int \<Rightarrow> u8 list \<Rightarrow> 'u msgs \<Rightarrow> 'u msgs" where
  "fpga_throw_runtime_exception fn file lineno t m =
     (case exception_handler m of
        None \<Rightarrow> s_common_fpga_platform_default_runtime_exception_handler fn file lineno t m
      | Some h \<Rightarrow> m\<lparr>user := h fn file lineno t (user m)\<rparr>)"

text \<open>One message with its prefix and a new line; \<open>vprintf\<close> returns the length of the text.\<close>

definition print_line :: "u8 list \<Rightarrow> u8 list \<Rightarrow> 'u msgs \<Rightarrow> int \<times> 'u msgs" where
  "print_line prefix t m = (int (length t), print_out [10] (print_out t (print_out prefix m)))"

definition s_common_fpga_platform_default_printf :: "nat \<Rightarrow> u8 list \<Rightarrow> 'u msgs \<Rightarrow> int \<times> 'u msgs" where
  "s_common_fpga_platform_default_printf ty t m =
     (if ty = FPGA_MSG_PRINTF_INFO then print_line (str ''INFO: '') t m
      else if ty = FPGA_MSG_PRINTF_WARNING then print_line (str ''WARNING: '') t m
      else if ty = FPGA_MSG_PRINTF_ERROR then print_line (str ''ERROR: '') t m
      else if ty = FPGA_MSG_PRINTF_DEBUG
      then (if show_dbg_msg m \<noteq> 0 then print_line (str ''DEBUG: '') t m else (0, m))
      else (0, fpga_throw_runtime_exception (str ''s_common_fpga_platform_default_printf'')
                 (str ''intel_fpga_api_cmn_msg.c'') 118
                 (str ''invalid message print type is specified.'') m))"

definition fpga_msg_printf :: "nat \<Rightarrow> u8 list \<Rightarrow> 'u msgs \<Rightarrow> int \<times> 'u msgs" where
  "fpga_msg_printf ty t m =
     (case printf_handler m of
        None \<Rightarrow> s_common_fpga_platform_default_printf ty t m
      | Some h \<Rightarrow> (let (r, u) = h ty t (user m) in (r, m\<lparr>user := u\<rparr>)))"

definition fpga_platform_register_printf ::
  "(nat \<Rightarrow> u8 list \<Rightarrow> 'u \<Rightarrow> int \<times> 'u) \<Rightarrow> 'u msgs \<Rightarrow> 'u msgs" where
  "fpga_platform_register_printf h m = m\<lparr>printf_handler := Some h\<rparr>"

definition fpga_platform_register_runtime_exception_handler ::
  "(u8 list \<Rightarrow> u8 list \<Rightarrow> int \<Rightarrow> u8 list \<Rightarrow> 'u \<Rightarrow> 'u) \<Rightarrow> 'u msgs \<Rightarrow> 'u msgs" where
  "fpga_platform_register_runtime_exception_handler h m = m\<lparr>exception_handler := Some h\<rparr>"

section \<open>Properties\<close>

text \<open>
  With the default handlers a message never loses text that was printed before and never ends the
  program, unless its type is none of the four, which raises the exception that ends it; a debug
  message is dropped exactly while debug messages are off.
\<close>

theorem default_message_effect:
  assumes "printf_handler m = None" and "exception_handler m = None"
  shows "\<exists>r m'. fpga_msg_printf ty t m = (r, m') \<and> take (length (stdout_text m)) (stdout_text m') = stdout_text m \<and>
    program m' = (if ty > 3 then Exited 1 else program m) \<and>
    (stdout_text m' = stdout_text m) = (ty = FPGA_MSG_PRINTF_DEBUG \<and> show_dbg_msg m = 0)"
proof -
  have cases: "ty = 0 \<or> ty = 1 \<or> ty = 2 \<or> ty = 3 \<or> 3 < ty" by auto
  show ?thesis
    using assms cases
    by (auto simp: fpga_msg_printf_def s_common_fpga_platform_default_printf_def print_line_def print_out_def
        fpga_throw_runtime_exception_def s_common_fpga_platform_default_runtime_exception_handler_def Let_def
        FPGA_MSG_PRINTF_INFO_def FPGA_MSG_PRINTF_WARNING_def FPGA_MSG_PRINTF_ERROR_def FPGA_MSG_PRINTF_DEBUG_def)
qed

lemma default_message_effect_witness:
  "\<exists>r m'. fpga_msg_printf FPGA_MSG_PRINTF_DEBUG (str ''x'') (msgs_start ()) = (r, m') \<and> stdout_text m' = []"
  using default_message_effect [of "msgs_start ()" FPGA_MSG_PRINTF_DEBUG "str ''x''"]
  by (auto simp: msgs_start_def)

end
