(* ===== verification/Reports.thy ===== *)
theory Reports
  imports Packet Messages Sockets App_Main "HOL-Library.Sublist"
begin

text \<open>
  What the program prints beside serving: the dumps of \<^verbatim>\<open>streaming/src/intel_st_debug_if_packet.c\<close>
  (under \<^verbatim>\<open>STI_DEBUG\<close>), the configuration that the UIO platform reports, the reports of socket errors
  of \<^verbatim>\<open>streaming/src/intel_st_debug_if_server.c\<close>, and the texts of \<^verbatim>\<open>main.cpp\<close>.

  A function that calls \<open>printf\<close> is the text it prints; one that calls \<open>fpga_msg_printf\<close> changes the
  state of \<open>Messages\<close>.
\<close>

section \<open>Numbers\<close>

text \<open>The digits of a number in base 16, with the letters from \<open>ten\<close> on, filled up with zeros to a width.\<close>

definition hex_digit :: "u8 \<Rightarrow> nat \<Rightarrow> u8" where
  "hex_digit ten d = (if d < 10 then of_nat (48 + d) else ten + of_nat (d - 10))"

fun hex_nat :: "u8 \<Rightarrow> nat \<Rightarrow> u8 list" where
  "hex_nat ten n = (if n < 16 then [hex_digit ten n] else hex_nat ten (n div 16) @ [hex_digit ten (n mod 16)])"

declare hex_nat.simps [simp del]

abbreviation hex_lower :: "nat \<Rightarrow> u8 list" where
  "hex_lower \<equiv> hex_nat 97"

definition padded :: "nat \<Rightarrow> u8 list \<Rightarrow> u8 list" where
  "padded width t = replicate (width - length t) 48 @ t"

definition line_of :: "u8 list \<Rightarrow> u8 list" where
  "line_of t = t @ [10]"

section \<open>Dumps of packets\<close>

definition MGMT_PACKET_HEADER_MASK_SOP :: u8 where "MGMT_PACKET_HEADER_MASK_SOP = 0x01"

definition dump_mgmt_packet_header :: "MGMT_PACKET_HEADER \<Rightarrow> u8 list" where
  "dump_mgmt_packet_header packet =
     line_of (str ''MGMT Packet header (size = '' @ dec_nat SIZEOF_MGMT_PACKET_HEADER @ str ''): '') @
     line_of (9 # str ''SOP: 0x'' @ dec_nat (unat (M_SOP_EOP packet AND MGMT_PACKET_HEADER_MASK_SOP))) @
     line_of (9 # str ''EOP: 0x'' @ dec_nat (if M_SOP_EOP packet AND MGMT_PACKET_HEADER_MASK_EOP \<noteq> 0 then 1 else 0)) @
     line_of (9 # str ''CHANNEL: 0x'' @ padded 3 (hex_lower (unat (M_CHANNEL packet)))) @
     line_of (9 # str ''DATA_LEN_BYTES: 0x'' @ padded 4 (hex_lower (unat (M_DATA_LEN_BYTES packet))))"

definition dump_h2t_packet_header :: "H2T_PACKET_HEADER \<Rightarrow> u8 list" where
  "dump_h2t_packet_header packet =
     line_of (str ''H2T Packet header (size = '' @ dec_nat SIZEOF_H2T_PACKET_HEADER @ str ''): '') @
     line_of (9 # str ''SOP: 0x'' @ dec_nat (unat (SOP_EOP packet AND H2T_PACKET_HEADER_MASK_SOP))) @
     line_of (9 # str ''EOP: 0x'' @ dec_nat (if SOP_EOP packet AND H2T_PACKET_HEADER_MASK_EOP \<noteq> 0 then 1 else 0)) @
     line_of (9 # str ''CONN_ID: 0x'' @ padded 2 (hex_lower (unat (CONN_ID packet)))) @
     line_of (9 # str ''CHANNEL: 0x'' @ padded 3 (hex_lower (unat (CHANNEL packet)))) @
     line_of (9 # str ''DATA_LEN_BYTES: 0x'' @ padded 3 (hex_lower (unat (DATA_LEN_BYTES packet))))"

text \<open>The loop, with its counter; \<open>None\<close> where \<open>len\<close> is more than there are bytes.\<close>

fun dump_bytes_loop :: "nat \<Rightarrow> u8 list \<Rightarrow> u8 list" where
  "dump_bytes_loop i [] = []"
| "dump_bytes_loop i (b # bs) =
     (if i mod 16 = 0 \<and> i > 0 then [10] else []) @ str ''0x'' @ padded 2 (hex_lower (unat b)) @ str '' '' @
     dump_bytes_loop (Suc i) bs"

definition dump_bytes :: "u8 list \<Rightarrow> nat \<Rightarrow> u8 list option" where
  "dump_bytes bytes len = (if len \<le> length bytes then Some (dump_bytes_loop 0 (take len bytes) @ [10]) else None)"

section \<open>Reports\<close>

text \<open>The span is printed with \<open>%ld\<close>, as a signed number; a missing path is undefined behaviour.\<close>

definition uio_print_configuration :: "plat \<Rightarrow> 'u msgs \<Rightarrow> 'u msgs option" where
  "uio_print_configuration p m0 = do {
     drv_path \<leftarrow> s_uio_drv_path p;
     let (r1, m1) = fpga_msg_printf FPGA_MSG_PRINTF_INFO (str ''UIO Platform Configuration:'') m0;
     let (r2, m2) = fpga_msg_printf FPGA_MSG_PRINTF_INFO (str ''   Driver Path: '' @ drv_path) m1;
     let (r3, m3) = fpga_msg_printf FPGA_MSG_PRINTF_INFO (str ''   Address Span: '' @ dec_int (sint (s_uio_addr_span p))) m2;
     let (r4, m4) = fpga_msg_printf FPGA_MSG_PRINTF_INFO
                      (str ''   Start Address: 0x'' @ hex_nat 65 (unat (s_uio_start_addr p))) m3;
     Some m4
   }"

definition print_last_socket_error :: "(int \<Rightarrow> u8 list) \<Rightarrow> os \<Rightarrow> u8 list \<Rightarrow> 'u msgs \<Rightarrow> 'u msgs" where
  "print_last_socket_error strerror w context_msg m =
     (case get_last_socket_error_msg strerror w of
        Some system_msg \<Rightarrow> snd (fpga_msg_printf FPGA_MSG_PRINTF_ERROR (line_of (context_msg @ str '': '' @ system_msg)) m)
      | None \<Rightarrow> snd (fpga_msg_printf FPGA_MSG_PRINTF_ERROR (line_of context_msg) m))"

definition print_last_socket_error_b ::
  "(int \<Rightarrow> u8 list) \<Rightarrow> os \<Rightarrow> u8 list \<Rightarrow> int \<Rightarrow> 'u msgs \<Rightarrow> 'u msgs" where
  "print_last_socket_error_b strerror w context_msg bytes_transferred m =
     (if bytes_transferred < 0 then print_last_socket_error strerror w context_msg m
      else snd (fpga_msg_printf FPGA_MSG_PRINTF_ERROR (line_of context_msg) m))"

section \<open>The texts of the program\<close>

text \<open>The pieces of the help text; the documented short options are pieces of their own.\<close>

definition help_pieces :: "u8 list \<Rightarrow> u8 list list" where
  "help_pieces prog =
     [line_of (str ''Usage:''),
      str '' '' @ prog, line_of (str '' [--uio-driver-path=<path>] [--start-address=<address>] [--h2t-t2h-mem-size=<size>] [--port=<port>] [--ip=<ip address>]''),
      str '' '' @ prog, line_of (str '' --version''),
      str '' '' @ prog, line_of (str '' --help''), [10],
      line_of (str ''Optional arguments:''),
      str '' --uio-driver-path=<path>, '', str ''-u <path>'', line_of (str ''       UIO driver path (default: /dev/uio0)''),
      str '' --start-address=<address>, '', str ''-s <address>'',
      line_of (str ''   JTAG-Over-Protocol interface starting address within this UIO driver (default: 0)''),
      str '' --h2t-t2h-mem-size=<size>, '', str ''-m <size>'',
      line_of (str ''      JTAG-Over-Protocol H2T/T2H Memory Size in bytes (default: 4096)''),
      str '' --port=<port>, '', str ''-p <port>'', line_of (str ''                  listening port (default: 0)''),
      str '' --version, '', str ''-v'', line_of (str ''                             print version and exit''),
      str '' --help, '', str ''-h'', line_of (str ''                                print the usage description''),
      [10],
      line_of (str ''Note:''),
      line_of (str '' In the device tree, the address span of the whole JTAG over protocol interface should be bound into the specified UIO driver.''),
      line_of (str '' Typically, the base address starts at 0x0.''), [10]]"

definition show_help :: "u8 list \<Rightarrow> u8 list" where
  "show_help prog = concat (help_pieces prog)"

text \<open>The version of the repository is put in by the build.\<close>

definition APP_VERSION_BASE :: "u8 list" where "APP_VERSION_BASE = str ''v1.1''"

definition show_version :: "u8 list \<Rightarrow> u8 list" where
  "show_version git_version = line_of (APP_VERSION_BASE @ str ''-'' @ git_version)"

text \<open>Whether the handler of \<open>SIGINT\<close> is in place, and what is printed; \<open>rc\<close> is the result of \<open>sigaction\<close>.\<close>

definition install_sigint_handler :: "int \<Rightarrow> bool \<times> u8 list" where
  "install_sigint_handler rc =
     (if rc \<noteq> 0
      then (False, line_of (str ''WARNING: SIGINT handler installment failed; this program will not terminate gracefully.''))
      else (True, []))"

section \<open>Lemmas\<close>

text \<open>Two hexadecimal digits are a byte.\<close>

lemma u8_less: "unat (b :: u8) < 256"
proof -
  have "unat b < 2 ^ LENGTH(8)" by (rule unsigned_less)
  then show ?thesis by simp
qed

lemma hex_two: "n < 256 \<Longrightarrow> padded 2 (hex_lower n) = [hex_digit 97 (n div 16), hex_digit 97 (n mod 16)]"
  by (cases "n < 16") (simp_all add: padded_def hex_nat.simps hex_digit_def)

lemma hex_digit_inj:
  assumes "hex_digit 97 d = hex_digit 97 e" and "d < 16" and "e < 16"
  shows "d = e"
proof -
  have v: "unat (hex_digit 97 d) = (if d < 10 then 48 + d else 87 + d)" if "d < 16" for d
  proof (cases "d < 10")
    case True
    then have "unat (of_nat (48 + d) :: u8) = 48 + d" by (intro unat_of_nat_small) simp
    with True show ?thesis by (simp only: hex_digit_def if_True)
  next
    case False
    then obtain k where d: "d = 10 + k" using le_Suc_ex [of 10 d] by auto
    have "unat (of_nat (97 + k) :: u8) = 97 + k" using that d by (intro unat_of_nat_small) simp
    with d show ?thesis by (simp add: hex_digit_def)
  qed
  have "unat (hex_digit 97 d) = unat (hex_digit 97 e)" using assms(1) by simp
  then show ?thesis unfolding v [OF assms(2)] v [OF assms(3)] by (simp split: if_splits)
qed

lemma dump_byte_inj:
  assumes "padded 2 (hex_lower (unat (a :: u8))) = padded 2 (hex_lower (unat (b :: u8)))"
  shows "a = b"
proof -
  have "hex_digit 97 (unat a div 16) = hex_digit 97 (unat b div 16)" "hex_digit 97 (unat a mod 16) = hex_digit 97 (unat b mod 16)"
    using assms by (simp_all add: hex_two u8_less)
  moreover have "unat a div 16 < 16" "unat b div 16 < 16" using u8_less [of a] u8_less [of b] by simp_all
  ultimately have "unat a div 16 = unat b div 16" "unat a mod 16 = unat b mod 16"
    by (simp_all add: hex_digit_inj)
  then have "unat a = unat b" by (metis div_mult_mod_eq)
  then show ?thesis by (rule unsigned_word_eqI)
qed

lemma dump_loop_inj: "dump_bytes_loop i as = dump_bytes_loop i bs \<Longrightarrow> as = bs"
proof (induction as arbitrary: i bs)
  case Nil
  then show ?case by (cases bs) (simp_all add: str_def)
next
  case (Cons a as)
  then obtain b bs' where bs: "bs = b # bs'" by (cases bs) (simp_all add: str_def)
  have "length (padded 2 (hex_lower (unat x))) = 2" for x :: u8
    by (simp add: hex_two u8_less)
  with Cons.prems bs have "padded 2 (hex_lower (unat a)) = padded 2 (hex_lower (unat b))"
    "dump_bytes_loop (Suc i) as = dump_bytes_loop (Suc i) bs'"
    by simp_all
  with Cons.IH bs show ?case by (auto dest: dump_byte_inj)
qed

text \<open>The dump of bytes loses none of them.\<close>

theorem dump_bytes_faithful:
  assumes "dump_bytes as n = Some t" and "dump_bytes bs k = Some t"
  shows "take n as = take k bs"
  using assms by (auto simp: dump_bytes_def dest: dump_loop_inj split: if_splits)

lemma dump_bytes_faithful_witness: "dump_bytes [0, 255] 2 = Some (str ''0x00 0xff '' @ [10]) \<and> take 2 [0 :: u8, 255] = [0, 255]"
  using dump_bytes_faithful [of "[0, 255]" 2 "str ''0x00 0xff '' @ [10]" "[0, 255]" 2]
  by (simp add: dump_bytes_def hex_two hex_digit_def str_def)

text \<open>With the default handlers, an error of a socket is one line of its own, whatever the error is.\<close>

lemma print_last_socket_error_shows:
  assumes "printf_handler m = None"
  shows "print_last_socket_error_b strerror w context_msg n m =
    print_out (str ''ERROR: '' @ context_msg @
      (case get_last_socket_error_msg strerror w of
         Some t \<Rightarrow> if n < 0 then str '': '' @ t else [] | None \<Rightarrow> []) @ [10, 10]) m"
  using assms
  by (auto simp: print_last_socket_error_b_def print_last_socket_error_def fpga_msg_printf_def print_out_def line_of_def
      s_common_fpga_platform_default_printf_def print_line_def FPGA_MSG_PRINTF_INFO_def FPGA_MSG_PRINTF_WARNING_def
      FPGA_MSG_PRINTF_ERROR_def FPGA_MSG_PRINTF_DEBUG_def split: option.splits)

text \<open>The platform prints its configuration only where its arguments are valid, and then it is defined.\<close>

lemma uio_print_configuration_defined:
  assumes "uio_validate_args p"
  shows "\<exists>m'. uio_print_configuration p m = Some m'"
  using assms by (auto simp: uio_validate_args_def uio_print_configuration_def Let_def split: prod.splits)

text \<open>
  The help text documents the short options \<open>-u\<close>, \<open>-s\<close> and \<open>-m\<close>, which the program does not have;
  the platform takes \<open>-s\<close> for the address span.
\<close>

lemma piece_in_concat: "x \<in> set ps \<Longrightarrow> sublist x (concat ps)"
  by (auto simp: in_set_conv_decomp)

theorem help_documents_unknown_options:
  "sublist (str ''-u <path>'') (show_help prog) \<and> sublist (str ''-s <address>'') (show_help prog) \<and>
   sublist (str ''-m <size>'') (show_help prog) \<and>
   list_all (\<lambda>c. c \<notin> fst ` set (shorts main_options)) [117, 115, 109] \<and>
   list_all (\<lambda>c. c \<notin> fst ` set (shorts uio_options)) [117, 109] \<and>
   (\<forall>v p. s_uio_start_addr (uio_option (Opt 115 (Some v)) p) = s_uio_start_addr p)"
proof -
  have "set [str ''-u <path>'', str ''-s <address>'', str ''-m <size>''] \<subseteq> set (help_pieces prog)"
    by (simp add: help_pieces_def del: str_def)
  then show ?thesis
    by (auto simp: show_help_def main_options_def uio_options_def uio_option_def intro!: piece_in_concat split: prod.splits)
qed

end
