(* ===== verification/Unit_Tests.thy ===== *)
theory Unit_Tests
  imports Sw_Model Reports
begin

text \<open>
  The messages of the platform's start, and the unit tests of
  \<^verbatim>\<open>protodrv_api/uio/test/utst/intel_fpga_platform_api_uio_test.cpp\<close> and
  \<^verbatim>\<open>intel_fpga_api_uio_test.cpp\<close>, run on the model. The tests run in the build with the software model
  of the device (\<open>Sw_Model\<close>); a test compares results of the code and the text that the tests' own
  message handler collects, and ends with \<open>fpga_platform_cleanup\<close>.
\<close>

section \<open>What the start of the platform reports\<close>

type_synonym message = "nat \<times> u8 list"

definition say :: "message list \<Rightarrow> 'u msgs \<Rightarrow> 'u msgs" where
  "say ms m = fold (\<lambda>(ty, t) m. snd (fpga_msg_printf ty t m)) ms m"

definition uio_parse_integer_arg_says :: "u8 list \<Rightarrow> u8 list \<Rightarrow> int \<Rightarrow> message list" where
  "uio_parse_integer_arg_says name optarg errno =
     (let hex = is_hex_prefix optarg;
          is_all_digit = list_all (\<lambda>b. digit_value b < (if hex then 16 else 10))
                           (if hex then drop 2 optarg else optarg)
      in if is_all_digit
         then if snd (strtol_base_0 optarg errno) = ERANGE
              then [(FPGA_MSG_PRINTF_ERROR, name @ str '' value is too big. '' @ optarg @
                       str '' is provided; maximum accepted is '' @ dec_nat LONG_MAX)]
              else []
         else [(FPGA_MSG_PRINTF_ERROR, str ''Invalid argument value type is provided. A integer value is expected. '' @
                  optarg @ str '' is provided.'')])"

text \<open>The options in their order, with the state that each of them is read in.\<close>

definition uio_option_says :: "opt_event \<Rightarrow> plat \<Rightarrow> message list" where
  "uio_option_says ev p =
     (case ev of
        Opt c (Some optarg) \<Rightarrow>
          if c = 115 then uio_parse_integer_arg_says (str ''Address span'') optarg (p_errno p)
          else if c = 97 then uio_parse_integer_arg_says (str ''Start address'') optarg (p_errno p)
          else []
      | _ \<Rightarrow> [])"

fun uio_options_say :: "opt_event list \<Rightarrow> plat \<Rightarrow> message list" where
  "uio_options_say [] p = []"
| "uio_options_say (ev # evs) p = uio_option_says ev p @ uio_options_say evs (uio_option ev p)"

definition uio_validate_args_says :: "plat \<Rightarrow> message list" where
  "uio_validate_args_says p =
     (if s_uio_addr_span p = 0
      then [(FPGA_MSG_PRINTF_ERROR, str ''No valid address span value is provided using the argument, --address-span.'')]
      else []) @
     (if s_uio_drv_path p = None
      then [(FPGA_MSG_PRINTF_ERROR, str ''UIO driver path is not provided using the argument, --uio-driver-path.'')]
      else [])"

text \<open>The three of them as \<open>fpga_platform_init\<close> of the software model calls them.\<close>

definition init_says :: "u8 list list \<Rightarrow> plat \<Rightarrow> 'u msgs \<Rightarrow> 'u msgs option" where
  "init_says argv p m =
     (let p1 = uio_parse_args argv p;
          m1 = say (uio_options_say (fst (getopt_long uio_options argv)) p) m;
          m2 = say (uio_validate_args_says p1) m1
      in if uio_validate_args p1 then uio_print_configuration p1 m2 else Some m2)"

text \<open>
  A number is refused, and read as 0, exactly where it is reported; the validation reports exactly what
  it refuses.
\<close>

lemma refused_numbers_reported:
  "uio_parse_integer_arg_says name s e \<noteq> [] \<Longrightarrow> fst (uio_parse_integer_arg s e) = 0"
  "uio_parse_integer_arg_says name s e = [] \<Longrightarrow> uio_parse_integer_arg s e = strtol_base_0 s e"
  by (auto simp: uio_parse_integer_arg_says_def uio_parse_integer_arg_def Let_def split: prod.splits if_splits)

lemma validation_reports: "uio_validate_args_says p = [] \<longleftrightarrow> uio_validate_args p"
  by (auto simp: uio_validate_args_says_def uio_validate_args_def word_gt_0)

lemma init_says_total: "\<exists>m'. init_says argv p m = Some m'"
  by (auto simp: init_says_def Let_def dest: uio_print_configuration_defined)

section \<open>The tests of the arguments\<close>

definition MSG_BUFFER_SIZE :: nat where "MSG_BUFFER_SIZE = 4096"

text \<open>The message handler of the tests: the type and the text, cut to the buffer, behind what was collected.\<close>

definition s_uio_utst_printf :: "nat \<Rightarrow> u8 list \<Rightarrow> u8 list \<Rightarrow> int \<times> u8 list" where
  "s_uio_utst_printf ty t oss =
     (int (length t),
      oss @ (if ty = FPGA_MSG_PRINTF_INFO then str ''INFO: ''
             else if ty = FPGA_MSG_PRINTF_WARNING then str ''WARNING: ''
             else if ty = FPGA_MSG_PRINTF_ERROR then str ''ERROR: ''
             else if ty = FPGA_MSG_PRINTF_DEBUG then str ''DEBUG: '' else []) @
        take (MSG_BUFFER_SIZE - 1) t)"

text \<open>Their handler of exceptions only collects: the code goes on behind the exception.\<close>

definition s_uio_utst_exception_handler :: "u8 list \<Rightarrow> u8 list \<Rightarrow> int \<Rightarrow> u8 list \<Rightarrow> u8 list \<Rightarrow> u8 list" where
  "s_uio_utst_exception_handler function file lineno t oss =
     oss @ take (MSG_BUFFER_SIZE - 1) (str ''Exception occured in '' @ function @ str ''() at line '' @ dec_int lineno @
       str '' in '' @ file @ str '' due to '') @ take (MSG_BUFFER_SIZE - 1) t"

text \<open>A test: the arguments behind the program name, the expected result and the expected text.\<close>

record argument_test =
  test_argv :: "string list"
  expected_rc :: bool
  expected_text :: string

definition NO_SPAN :: string where
  "NO_SPAN = ''ERROR: No valid address span value is provided using the argument, --address-span.''"

definition NO_PATH :: string where
  "NO_PATH = ''ERROR: UIO driver path is not provided using the argument, --uio-driver-path.''"

definition CONFIG :: "string \<Rightarrow> string \<Rightarrow> string" where
  "CONFIG sp sa = ''INFO: UIO Platform Configuration:INFO:    Driver Path: /dev/uio0INFO:    Address Span: '' @
     sp @ ''INFO:    Start Address: 0x'' @ sa"

text \<open>The number with 118 digits.\<close>

definition NINES :: string where "NINES = replicate 118 (CHR ''9'')"

definition should_deal_with_null_argument :: argument_test where
  "should_deal_with_null_argument =
     \<lparr>test_argv = [],
      expected_rc = False,
      expected_text = NO_SPAN @ NO_PATH\<rparr>"

definition should_deal_with_no_argument :: argument_test where
  "should_deal_with_no_argument =
     \<lparr>test_argv = [],
      expected_rc = False,
      expected_text = NO_SPAN @ NO_PATH\<rparr>"

definition should_deal_with_random_argument :: argument_test where
  "should_deal_with_random_argument =
     \<lparr>test_argv = [''blah'', ''-c'', ''foo'', ''--x=y''],
      expected_rc = False,
      expected_text = NO_SPAN @ NO_PATH\<rparr>"

definition should_deal_with_one_valid_argument :: argument_test where
  "should_deal_with_one_valid_argument =
     \<lparr>test_argv = [''--uio-driver-path=/dev/uio0''],
      expected_rc = False,
      expected_text = NO_SPAN\<rparr>"

definition should_deal_with_invalid_span_argument :: argument_test where
  "should_deal_with_invalid_span_argument =
     \<lparr>test_argv = [''--uio-driver-path=/dev/uio0'', ''--address-span=0''],
      expected_rc = False,
      expected_text = NO_SPAN\<rparr>"

definition should_deal_with_invalid_span_1_argument :: argument_test where
  "should_deal_with_invalid_span_1_argument =
     \<lparr>test_argv = [''--address-span=012abc'', ''--uio-driver-path=/dev/uio0''],
      expected_rc = False,
      expected_text = ''ERROR: Invalid argument value type is provided. A integer value is expected. 012abc is provided.'' @ NO_SPAN\<rparr>"

definition should_deal_with_invalid_span_2_argument :: argument_test where
  "should_deal_with_invalid_span_2_argument =
     \<lparr>test_argv = [''--address-span=0xabcdefg'', ''--uio-driver-path=/dev/uio0''],
      expected_rc = False,
      expected_text = ''ERROR: Invalid argument value type is provided. A integer value is expected. 0xabcdefg is provided.'' @ NO_SPAN\<rparr>"

definition should_deal_with_invalid_span_3_argument :: argument_test where
  "should_deal_with_invalid_span_3_argument =
     \<lparr>test_argv = [''--uio-driver-path=/dev/uio0'', ''--address-span='' @ NINES],
      expected_rc = False,
      expected_text = ''ERROR: Address span value is too big. '' @ NINES @ '' is provided; maximum accepted is 9223372036854775807'' @ NO_SPAN\<rparr>"

definition should_deal_with_invalid_span_4_argument :: argument_test where
  "should_deal_with_invalid_span_4_argument =
     \<lparr>test_argv = [''--uio-driver-path=/dev/uio0'', ''--address-span=0xffffffffffffffffffffffffffffffffffffffff''],
      expected_rc = False,
      expected_text = ''ERROR: Address span value is too big. 0xffffffffffffffffffffffffffffffffffffffff is provided; maximum accepted is 9223372036854775807'' @ NO_SPAN\<rparr>"

definition should_deal_with_valid_argument_dec_span :: argument_test where
  "should_deal_with_valid_argument_dec_span =
     \<lparr>test_argv = [''--uio-driver-path=/dev/uio0'', ''--address-span=12345678''],
      expected_rc = True,
      expected_text = CONFIG ''12345678'' ''0''\<rparr>"

definition should_deal_with_valid_argument_hex_span :: argument_test where
  "should_deal_with_valid_argument_hex_span =
     \<lparr>test_argv = [''--uio-driver-path=/dev/uio0'', ''--address-span=0x12345678''],
      expected_rc = True,
      expected_text = CONFIG ''305419896'' ''0''\<rparr>"

definition should_deal_with_valid_argument_with_optional_single_mode :: argument_test where
  "should_deal_with_valid_argument_with_optional_single_mode =
     \<lparr>test_argv = [''--single-component-mode'', ''--uio-driver-path=/dev/uio0'', ''--address-span=0x12345678''],
      expected_rc = True,
      expected_text = CONFIG ''305419896'' ''0''\<rparr>"

definition should_deal_with_valid_argument_with_optional_start_addr :: argument_test where
  "should_deal_with_valid_argument_with_optional_start_addr =
     \<lparr>test_argv = [''--start-address=0x1234'', ''--single-component-mode'', ''--uio-driver-path=/dev/uio0'', ''--address-span=0x12345678''],
      expected_rc = True,
      expected_text = CONFIG ''305419896'' ''1234''\<rparr>"

definition argument_tests :: "argument_test list" where
  "argument_tests =
     [should_deal_with_null_argument,
      should_deal_with_no_argument,
      should_deal_with_random_argument,
      should_deal_with_one_valid_argument,
      should_deal_with_invalid_span_argument,
      should_deal_with_invalid_span_1_argument,
      should_deal_with_invalid_span_2_argument,
      should_deal_with_invalid_span_3_argument,
      should_deal_with_invalid_span_4_argument,
      should_deal_with_valid_argument_dec_span,
      should_deal_with_valid_argument_hex_span,
      should_deal_with_valid_argument_with_optional_single_mode,
      should_deal_with_valid_argument_with_optional_start_addr]"

lemmas argument_test_defs = argument_tests_def should_deal_with_null_argument_def
  should_deal_with_no_argument_def
  should_deal_with_random_argument_def
  should_deal_with_one_valid_argument_def
  should_deal_with_invalid_span_argument_def
  should_deal_with_invalid_span_1_argument_def
  should_deal_with_invalid_span_2_argument_def
  should_deal_with_invalid_span_3_argument_def
  should_deal_with_invalid_span_4_argument_def
  should_deal_with_valid_argument_dec_span_def
  should_deal_with_valid_argument_hex_span_def
  should_deal_with_valid_argument_with_optional_single_mode_def
  should_deal_with_valid_argument_with_optional_start_addr_def

text \<open>
  One test in a state of the platform: whether it passes, and the state after its cleanup. The result
  with \<open>None\<close> is undefined behaviour, an exception, or no memory.
\<close>

definition run_argument_test :: "uio_os \<Rightarrow> u64 option \<Rightarrow> cleanup_os \<Rightarrow> argument_test \<Rightarrow> plat \<Rightarrow> (bool \<times> plat) option" where
  "run_argument_test os mem cos t p = do {
     let argv = map str (test_argv t);
     m \<leftarrow> init_says argv p (fpga_platform_register_printf s_uio_utst_printf (msgs_start []));
     r \<leftarrow> fpga_platform_init_sw_model os mem argv p (\<lambda>_. 0);
     case r of
       Inl e \<Rightarrow> None
     | Inr (rc, p1, ram) \<Rightarrow> (case fpga_platform_cleanup_sw_model cos p1 of
           Some (Inr (freed, p2)) \<Rightarrow> Some (rc = expected_rc t \<and> user m = str (expected_text t), p2)
         | _ \<Rightarrow> None)
   }"

fun run_argument_tests :: "uio_os \<Rightarrow> u64 option \<Rightarrow> cleanup_os \<Rightarrow> argument_test list \<Rightarrow> plat \<Rightarrow> bool list option" where
  "run_argument_tests os mem cos [] p = Some []"
| "run_argument_tests os mem cos (t # ts) p = do {
     (passed, p') \<leftarrow> run_argument_test os mem cos t p;
     map_option (Cons passed) (run_argument_tests os mem cos ts p')
   }"

section \<open>Their outcome\<close>

text \<open>What the handler of the tests collects is the messages one after the other.\<close>

definition shown :: "message \<Rightarrow> u8 list" where
  "shown msg = snd (s_uio_utst_printf (fst msg) (snd msg) [])"

abbreviation collecting :: "u8 list \<Rightarrow> u8 list msgs" where
  "collecting oss \<equiv> (fpga_platform_register_printf s_uio_utst_printf (msgs_start []))\<lparr>user := oss\<rparr>"

lemma printf_collects: "fpga_msg_printf ty t (collecting oss) = (int (length t), collecting (oss @ shown (ty, t)))"
  by (simp add: fpga_msg_printf_def fpga_platform_register_printf_def s_uio_utst_printf_def shown_def msgs_start_def)

lemma say_collects: "say ms (collecting oss) = collecting (oss @ concat (map shown ms))"
proof (induction ms arbitrary: oss)
  case Nil
  then show ?case by (simp add: say_def)
next
  case (Cons msg ms)
  have "say (msg # ms) (collecting oss) = say ms (collecting (oss @ shown msg))"
    by (cases msg) (simp add: say_def printf_collects)
  with Cons show ?case by simp
qed

definition configuration_text :: "plat \<Rightarrow> u8 list" where
  "configuration_text p = concat (map (\<lambda>t. shown (FPGA_MSG_PRINTF_INFO, t))
     [str ''UIO Platform Configuration:'', str ''   Driver Path: '' @ the (s_uio_drv_path p),
      str ''   Address Span: '' @ dec_int (sint (s_uio_addr_span p)),
      str ''   Start Address: 0x'' @ hex_nat 65 (unat (s_uio_start_addr p))])"

lemma configuration_collects:
  assumes "uio_validate_args p"
  shows "uio_print_configuration p (collecting oss) = Some (collecting (oss @ configuration_text p))"
  using assms by (auto simp: uio_print_configuration_def configuration_text_def printf_collects uio_validate_args_def)

definition init_text :: "u8 list list \<Rightarrow> plat \<Rightarrow> u8 list" where
  "init_text argv p =
     (let p1 = uio_parse_args argv p
      in concat (map shown (uio_options_say (fst (getopt_long uio_options argv)) p)) @
         (if uio_validate_args p1 then configuration_text p1 else concat (map shown (uio_validate_args_says p1))))"

lemma init_says_text: "init_says argv p (collecting []) = Some (collecting (init_text argv p))"
  by (simp add: init_says_def init_text_def Let_def say_collects configuration_collects
      validation_reports [THEN iffD2])

lemma sw_model_start:
  assumes "info_vec p = empty_vec"
  shows "\<exists>p' m'. fpga_platform_init_sw_model good_os (Some a) argv p m =
      Some (Inr (uio_validate_args (uio_parse_args argv p), p', m')) \<and>
    (info_vec p' = empty_vec \<or> vec_size (info_vec p') > 0 \<and> vec_elems (info_vec p') \<noteq> [])"
proof -
  let ?p1 = "uio_parse_args argv p\<lparr>s_uio_inThread_timeout := 100\<rparr>"
  have none: "info_vec ?p1 = \<lparr>vec_elems = [], vec_size = 0\<rparr>" using assms uio_parse_args_same [of p argv] by (simp add: same_resources_def empty_vec_def)
  then obtain v m1 where "uio_create_unit_test_sw_model True (Some a) ?p1 m = Some (Inr (True, ?p1\<lparr>info_vec := v\<rparr>, m1))"
    "vec_size v > 0 \<and> vec_elems v \<noteq> []"
    by (auto simp: uio_create_unit_test_sw_model_def common_fpga_interface_info_vec_resize_def
        common_fpga_interface_info_vec_reserve_def vec_update_def vec_at_def)
  moreover have "realloc_result good_os" by (simp add: good_os_def)
  ultimately show ?thesis using none
    by (auto simp: fpga_platform_init_sw_model_def Let_def uio_create_interrupt_thread_def empty_vec_def)
qed

lemma argument_test_result:
  assumes "info_vec p = empty_vec"
  shows "\<exists>p'. cleaned_up p' \<and> info_vec p' = empty_vec \<and>
    run_argument_test good_os (Some a) good_cleanup t p =
      Some (uio_validate_args (uio_parse_args (map str (test_argv t)) p) = expected_rc t \<and>
            init_text (map str (test_argv t)) p = str (expected_text t), p')"
proof -
  let ?argv = "map str (test_argv t)"
  from sw_model_start [OF assms] obtain p1 m1 where
    p1: "fpga_platform_init_sw_model good_os (Some a) ?argv p (\<lambda>_. 0) = Some (Inr (uio_validate_args (uio_parse_args ?argv p), p1, m1))"
    "info_vec p1 = empty_vec \<or> vec_size (info_vec p1) > 0 \<and> vec_elems (info_vec p1) \<noteq> []" by blast
  obtain p2 where p2: "fpga_platform_cleanup good_cleanup p1 = Inr p2"
    using cleanup_succeeds [of p1] by (auto simp: good_cleanup_def)
  with p1(2) have "cleaned_up p2" "info_vec p2 = empty_vec" using cleanup_leaves [OF p2] by auto
  moreover have start: "fpga_platform_register_printf s_uio_utst_printf (msgs_start []) = collecting []"
    by (simp add: fpga_platform_register_printf_def msgs_start_def)
  have says: "init_says ?argv p (fpga_platform_register_printf s_uio_utst_printf (msgs_start [])) =
      Some (collecting (init_text ?argv p))"
    by (subst start) (rule init_says_text)
  have "\<exists>f. fpga_platform_cleanup_sw_model good_cleanup p1 = Some (Inr (f, p2))"
    using p1(2) p2 by (auto simp: fpga_platform_cleanup_sw_model_def vec_at_def empty_vec_def)
  ultimately show ?thesis
    by (auto simp: run_argument_test_def p1(1) says Let_def)
qed

definition passes :: "argument_test \<Rightarrow> plat \<Rightarrow> bool" where
  "passes t p \<longleftrightarrow> uio_validate_args (uio_parse_args (map str (test_argv t)) p) = expected_rc t \<and>
     init_text (map str (test_argv t)) p = str (expected_text t)"

lemmas dec_nat_numeral = dec_nat.simps [of "numeral n" for n] dec_nat.simps [of "Suc 0"]

lemmas text_simps = init_text_def shown_def s_uio_utst_printf_def configuration_text_def uio_option_says_def
  uio_parse_integer_arg_says_def uio_validate_args_says_def uio_validate_args_def MSG_BUFFER_SIZE_def
  FPGA_MSG_PRINTF_INFO_def FPGA_MSG_PRINTF_WARNING_def FPGA_MSG_PRINTF_ERROR_def FPGA_MSG_PRINTF_DEBUG_def
  dec_int_def dec_nat_numeral digit_def hex_nat.simps hex_digit_def NO_SPAN_def NO_PATH_def CONFIG_def

lemma long_max:
  "dec_nat LONG_MAX = map of_char ''9223372036854775807''"
  "LONG_MAX < numeral n \<longleftrightarrow> 9223372036854775807 < (numeral n :: nat)"
  by (simp_all add: LONG_MAX_def dec_nat.simps digit_def)

text \<open>The number that is too big, without its digits.\<close>

abbreviation nines :: "u8 list" where
  "nines \<equiv> map of_char NINES"

lemma nines_replicate: "nines = replicate 118 57"
  unfolding NINES_def map_replicate by simp

lemma read_nines: "read_base 10 acc (replicate n 57) + 1 = (acc + 1) * 10 ^ n"
proof (induction n arbitrary: acc)
  case (Suc n)
  have "digit_value 57 = 9" by (simp add: digit_value_def)
  with Suc [of "10 * acc + 9"] show ?case by (simp add: algebra_simps)
qed simp

lemma nines_facts:
  "list_all (\<lambda>b. digit_value b < 10) nines" "LONG_MAX < read_base 10 0 nines" "length NINES = 118"
  "is_hex_prefix nines = False" "take (Suc 0) nines = [57]" "61 \<notin> set nines"
proof -
  have d: "digit_value 57 = 9" by (simp add: digit_value_def)
  then show "list_all (\<lambda>b. digit_value b < 10) nines" by (simp only: nines_replicate list_all_iff) auto
  show "LONG_MAX < read_base 10 0 nines" using read_nines [of 0 118] by (simp only: nines_replicate) (simp add: LONG_MAX_def)
  show "length NINES = 118" by (simp only: NINES_def length_replicate)
  have two: "replicate 118 x = x # x # replicate 116 x" for x :: u8
    by (simp only: numeral_eq_Suc pred_numeral_simps BitM.simps replicate.simps)
  then show "is_hex_prefix nines = False" "take (Suc 0) nines = [57]" unfolding nines_replicate by (simp_all add: is_hex_prefix_def)
  show "61 \<notin> set nines" unfolding nines_replicate by (simp only: set_replicate_conv_if) simp
qed

lemma big_number_passes:
  assumes "cleaned_up p"
  shows "passes (argument_tests ! 7) p"
  using assms by (simp add: passes_def argument_test_defs cleaned_up_def str_def parse_simps text_simps Let_def nines_facts long_max
      del: LONG_MAX_def is_hex_prefix_def digit_value_def)

lemma big_hex_number_passes: "cleaned_up p \<Longrightarrow> passes (argument_tests ! 8) p"
  by (simp add: passes_def argument_test_defs cleaned_up_def str_def parse_simps text_simps Let_def long_max del: LONG_MAX_def)

lemma refused_tests_pass:
  assumes "cleaned_up p"
  shows "passes (argument_tests ! 0) p" "passes (argument_tests ! 1) p" "passes (argument_tests ! 2) p"
    "passes (argument_tests ! 3) p" "passes (argument_tests ! 4) p" "passes (argument_tests ! 5) p"
    "passes (argument_tests ! 6) p"
  using assms
  by (simp_all add: passes_def argument_test_defs cleaned_up_def str_def parse_simps text_simps Let_def)

lemma accepted_tests_pass:
  assumes "cleaned_up p"
  shows "passes (argument_tests ! 9) p" "passes (argument_tests ! 10) p" "passes (argument_tests ! 11) p"
    "passes (argument_tests ! 12) p"
  using assms
  by (simp_all add: passes_def argument_test_defs cleaned_up_def str_def parse_simps text_simps Let_def)

lemma tests_pass_cleaned_up:
  assumes "cleaned_up p" and "t \<in> set argument_tests"
  shows "passes t p"
proof -
  have "length argument_tests = 13" by (simp add: argument_test_defs)
  with assms(2) obtain i where "t = argument_tests ! i" "i < 13" by (metis in_set_conv_nth)
  moreover from this(2) have "i \<in> {0, 1, 2, 3, 4, 5, 6, 7, 8, 9, 10, 11, 12}" by simp presburger
  ultimately show ?thesis
    using refused_tests_pass [OF assms(1)] accepted_tests_pass [OF assms(1)] big_number_passes [OF assms(1)]
      big_hex_number_passes [OF assms(1)] by fastforce
qed

lemma first_test_fails: "\<not> passes (hd argument_tests) plat_start"
  by (simp add: passes_def argument_test_defs plat_start_def str_def parse_simps text_simps Let_def)

text \<open>
  The whole suite, one test after the other as the code is started and cleaned up: the first test fails,
  since the program starts with the path \<open>/dev/uio0\<close> and so does not report a missing path; every other
  test passes, since each follows a cleanup, which leaves no path.
\<close>

lemma later_tests_pass:
  assumes "cleaned_up p" and "info_vec p = empty_vec" and "set ts \<subseteq> set argument_tests"
  shows "run_argument_tests good_os (Some a) good_cleanup ts p = Some (replicate (length ts) True)"
  using assms
proof (induction ts arbitrary: p)
  case (Cons t ts)
  from argument_test_result [OF Cons.prems(2)] obtain p' where
    "cleaned_up p'" "info_vec p' = empty_vec"
    "run_argument_test good_os (Some a) good_cleanup t p = Some (passes t p, p')" unfolding passes_def by blast
  with Cons tests_pass_cleaned_up [OF Cons.prems(1)] show ?case by simp
qed simp

theorem argument_suite_outcome:
  "run_argument_tests good_os (Some a) good_cleanup argument_tests plat_start = Some (False # replicate 12 True)"
proof -
  have "info_vec plat_start = empty_vec" by (simp add: plat_start_def)
  from argument_test_result [OF this] obtain p' where
    p': "cleaned_up p'" "info_vec p' = empty_vec"
    "run_argument_test good_os (Some a) good_cleanup (hd argument_tests) plat_start = Some (passes (hd argument_tests) plat_start, p')"
    unfolding passes_def by blast
  have split: "argument_tests = hd argument_tests # tl argument_tests" "length (tl argument_tests) = 12"
    by (simp_all add: argument_test_defs)
  have "run_argument_tests good_os (Some a) good_cleanup (tl argument_tests) p' = Some (replicate 12 True)"
    using later_tests_pass [OF p'(1,2), of "tl argument_tests"] split by (metis set_subset_Cons)
  with p'(3) first_test_fails show ?thesis by (subst split(1)) simp
qed

section \<open>The tests of the accesses\<close>

text \<open>
  The four tests have the same three loops: unaligned reads of the fresh memory, writes along the
  diagonal of \<open>64 / TEST_BITS\<close> rows of 64 bits, and reads of all rows. \<open>n\<close> is \<open>BYTES_PER_UNIT\<close>; a loop is
  the list of its addresses, and a test says whether every expectation is met.
\<close>

fun read_all :: "(u32 \<Rightarrow> 'p \<Rightarrow> ('w \<times> 'p) option) \<Rightarrow> u32 list \<Rightarrow> 'p \<Rightarrow> ('w list \<times> 'p) option" where
  "read_all rd [] p = Some ([], p)"
| "read_all rd (a # as) p = do { (v, p1) \<leftarrow> rd a p; (vs, p2) \<leftarrow> read_all rd as p1; Some (v # vs, p2) }"

fun write_all :: "(u32 \<Rightarrow> 'w \<Rightarrow> 'p \<Rightarrow> 'p option) \<Rightarrow> (u32 \<times> 'w) list \<Rightarrow> 'p \<Rightarrow> 'p option" where
  "write_all wr [] p = Some p"
| "write_all wr ((a, v) # ws) p = do { p1 \<leftarrow> wr a v p; write_all wr ws p1 }"

definition mmio_test ::
  "nat \<Rightarrow> u32 \<Rightarrow> (u32 \<Rightarrow> 'p \<Rightarrow> ('w::len word \<times> 'p) option) \<Rightarrow> (u32 \<Rightarrow> 'w word \<Rightarrow> 'p \<Rightarrow> 'p option) \<Rightarrow> 'p \<Rightarrow> bool option" where
  "mmio_test n START_OFFSET rd wr p = do {
     let per_64 = 8 div n;
     (fresh, p1) \<leftarrow> read_all rd (map (\<lambda>i. of_nat i + START_OFFSET) [0..<per_64 * per_64]) p;
     p2 \<leftarrow> write_all wr (map (\<lambda>i. (of_nat (i * 8 + i * n) + START_OFFSET, of_nat i)) [0..<per_64]) p1;
     (rdata, p3) \<leftarrow> read_all rd (map (\<lambda>i. of_nat (i * n) + START_OFFSET) [0..<per_64 * per_64]) p2;
     Some (list_all (\<lambda>v. v = -1) fresh \<and>
           rdata = map (\<lambda>i. if (i * n) mod 8 div n = i div per_64 then of_nat (i div per_64) else -1)
                     [0..<per_64 * per_64])
   }"

text \<open>On memory: what a list of stores leaves in a unit that overlaps no other unit that was stored.\<close>

fun stores :: "nat \<Rightarrow> u64 \<Rightarrow> (u32 \<times> 'w::len word) list \<Rightarrow> ram \<Rightarrow> ram" where
  "stores n base [] m = m"
| "stores n base ((a, v) # ws) m = stores n base ws (ram_store (base + ucast a) (le_bytes n v) m)"

lemma read_after_stores:
  fixes ws :: "(u32 \<times> 'w::len word) list"
  assumes "LENGTH('w) = 8 * n" and "n < 2 ^ 32" and "distinct (map fst ws)"
    and "\<forall>x\<in>fst ` set ws. x = b \<or> unat x + n \<le> unat b \<or> unat b + n \<le> unat x"
  shows "le_word (ram_bytes n (base + ucast b) (stores n base ws m)) =
    (case map_of ws b of Some v \<Rightarrow> v | None \<Rightarrow> le_word (ram_bytes n (base + ucast b) m))"
  using assms(3,4)
proof (induction ws arbitrary: m)
  case (Cons w ws)
  obtain a v where w: "w = (a, v)" by fastforce
  let ?m = "ram_store (base + ucast a) (le_bytes n v) m"
  have rest: "le_word (ram_bytes n (base + ucast b) (stores n base ws ?m)) =
      (case map_of ws b of Some v \<Rightarrow> v | None \<Rightarrow> le_word (ram_bytes n (base + ucast b) ?m))"
    using Cons by simp
  show ?case
  proof (cases "a = b")
    case True
    then have "map_of ws b = None" using Cons.prems(1) w by (auto simp: map_of_eq_None_iff)
    moreover have "le_word (ram_bytes n (base + ucast b) ?m) = v"
      using True ram_bytes_store [of "le_bytes n v" "base + ucast b" m] assms(1,2) by (simp add: le_word_le_bytes take_bit_word_eq_self)
    ultimately show ?thesis using rest True w by simp
  next
    case False
    then have "ram_bytes n (base + ucast b) ?m = ram_bytes n (base + ucast b) m"
      using Cons.prems(2) w assms(2) by (intro ram_bytes_apart) auto
    then show ?thesis using rest False w by (simp split: option.splits)
  qed
qed simp

text \<open>Accesses of one width that are the memory's.\<close>

definition memory_access ::
  "nat \<Rightarrow> u64 \<Rightarrow> (u32 \<Rightarrow> ram platform \<Rightarrow> ('w::len word \<times> ram platform) option) \<Rightarrow>
   (u32 \<Rightarrow> 'w word \<Rightarrow> ram platform \<Rightarrow> ram platform option) \<Rightarrow> ram platform \<Rightarrow> bool" where
  "memory_access n base rd wr p \<longleftrightarrow> LENGTH('w) = 8 * n \<and>
     (\<forall>a m. rd a (p\<lparr>device := m\<rparr>) = Some (le_word (ram_bytes n (base + ucast a) m), p\<lparr>device := m\<rparr>)) \<and>
     (\<forall>a v m. wr a v (p\<lparr>device := m\<rparr>) = Some (p\<lparr>device := ram_store (base + ucast a) (le_bytes n v) m\<rparr>))"

lemma read_all_memory:
  assumes "memory_access n base rd wr p"
  shows "read_all rd as (p\<lparr>device := m\<rparr>) =
    Some (map (\<lambda>a. le_word (ram_bytes n (base + ucast a) m)) as, p\<lparr>device := m\<rparr>)"
  using assms by (induction as) (simp_all add: memory_access_def)

lemma write_all_memory:
  assumes "memory_access n base rd wr p"
  shows "write_all wr ws (p\<lparr>device := m\<rparr>) = Some (p\<lparr>device := stores n base ws m\<rparr>)"
  using assms by (induction ws arbitrary: m) (auto simp: memory_access_def)

lemma accesses_are_memory:
  assumes "fpga_uio_get_base_address h p = Some base"
  shows "memory_access 1 base (fpga_read_8 ram_bus h) (fpga_write_8 ram_bus h) p"
    "memory_access 2 base (fpga_read_16 ram_bus h) (fpga_write_16 ram_bus h) p"
    "memory_access 4 base (fpga_read_32 ram_bus h) (fpga_write_32 ram_bus h) p"
    "memory_access 8 base (fpga_read_64 ram_bus h) (fpga_write_64 ram_bus h) p"
  using assms
  by (simp_all add: memory_access_def fpga_read_8_def fpga_write_8_def fpga_read_16_def fpga_write_16_def
      fpga_read_32_def fpga_write_32_def fpga_read_64_def fpga_write_64_def mmio_load_def mmio_store_def ram_bus_def)

lemma mmio_test_memory:
  fixes rd :: "u32 \<Rightarrow> ram platform \<Rightarrow> ('w::len word \<times> ram platform) option" and start :: u32 and n :: nat
  defines "ws \<equiv> map (\<lambda>i. (of_nat (i * 8 + i * n) + start, of_nat i :: 'w word)) [0..<8 div n]"
    and "units \<equiv> [0..<8 div n * (8 div n)]"
  assumes access: "memory_access n base rd wr p" and "n \<le> 8"
    and fresh: "\<And>a :: u32. unat a + n \<le> 4096 \<Longrightarrow> le_word (ram_bytes n (base + ucast a) (device p)) = (-1 :: 'w word)"
    and bounds: "list_all (\<lambda>i. unat (of_nat i + start) + n \<le> 4096 \<and> unat (of_nat (i * n) + start) + n \<le> 4096) units"
    and alone: "distinct (map fst ws)"
      "list_all (\<lambda>i. list_all (\<lambda>x. x = of_nat (i * n) + start \<or> unat x + n \<le> unat (of_nat (i * n) + start) \<or>
         unat (of_nat (i * n) + start) + n \<le> unat x) (map fst ws)) units"
    and diagonal: "map (\<lambda>i. case map_of ws (of_nat (i * n) + start) of Some v \<Rightarrow> v | None \<Rightarrow> -1) units =
      map (\<lambda>i. if (i * n) mod 8 div n = i div (8 div n) then of_nat (i div (8 div n)) else -1) units"
  shows "mmio_test n start rd wr p = Some True"
proof -
  have width: "LENGTH('w) = 8 * n" using access by (simp add: memory_access_def)
  let ?m = "stores n base ws (device p)"
  have p: "p\<lparr>device := device p\<rparr> = p" by simp
  have "n < 2 ^ 32" using \<open>n \<le> 8\<close> by (rule le_less_trans) simp
  have after: "le_word (ram_bytes n (base + ucast (of_nat (i * n) + start)) ?m) =
      (case map_of ws (of_nat (i * n) + start) of Some v \<Rightarrow> v | None \<Rightarrow> -1)" if "i \<in> set units" for i
  proof -
    let ?b = "of_nat (i * n) + start"
    have "le_word (ram_bytes n (base + ucast ?b) (device p)) = (-1 :: 'w word)"
      using bounds that by (intro fresh) (simp add: list_all_iff)
    moreover have "le_word (ram_bytes n (base + ucast ?b) ?m) =
        (case map_of ws ?b of Some v \<Rightarrow> v | None \<Rightarrow> le_word (ram_bytes n (base + ucast ?b) (device p)))"
      using alone that by (intro read_after_stores [OF width \<open>n < 2 ^ 32\<close>]) (auto simp: list_all_iff)
    ultimately show ?thesis by (simp only:)
  qed
  have "read_all rd as p = Some (map (\<lambda>a. le_word (ram_bytes n (base + ucast a) (device p))) as, p)" for as
    using read_all_memory [OF access, where m = "device p"] by simp
  moreover have "write_all wr ws p = Some (p\<lparr>device := ?m\<rparr>)"
    using write_all_memory [OF access, where m = "device p"] by simp
  moreover have "map (\<lambda>i. le_word (ram_bytes n (base + ucast (of_nat (i * n) + start)) ?m) :: 'w word) units =
      map (\<lambda>i. if (i * n) mod 8 div n = i div (8 div n) then of_nat (i div (8 div n)) else -1) units"
    (is "?l = _")
  proof -
    have "?l = map (\<lambda>i. case map_of ws (of_nat (i * n) + start) of Some v \<Rightarrow> v | None \<Rightarrow> -1) units"
      by (rule map_cong [OF refl]) (rule after)
    with diagonal show ?thesis by (simp only:)
  qed
  moreover have "list_all (\<lambda>v. v = -1) (map (\<lambda>a. le_word (ram_bytes n (base + ucast a) (device p)) :: 'w word)
      (map (\<lambda>i. of_nat i + start) units))"
    using bounds fresh by (auto simp: list_all_iff)
  ultimately show ?thesis
    unfolding mmio_test_def units_def [symmetric] ws_def [symmetric] Let_def
    by (simp add: read_all_memory [OF access] comp_def)
qed

text \<open>All four tests pass on any memory of 4096 bytes that are all ones.\<close>

lemma ones: "le_word (replicate 1 0xFF) = (-1 :: u8)" "le_word (replicate 2 0xFF) = (-1 :: u16)"
  "le_word (replicate 4 0xFF) = (-1 :: u32)"
proof -
  have "replicate 1 b = [b]" "replicate 2 b = [b, b]" "replicate 4 b = [b, b, b, b]" for b :: u8
    by (simp_all add: numeral_eq_Suc)
  then show "le_word (replicate 1 0xFF) = (-1 :: u8)" "le_word (replicate 2 0xFF) = (-1 :: u16)"
    "le_word (replicate 4 0xFF) = (-1 :: u32)" by simp_all
qed

lemma fresh_reads:
  assumes "\<And>x. x - base < 4096 \<Longrightarrow> m x = 0xFF" and "unat (a :: u32) + n \<le> 4096"
    and "le_word (replicate n 0xFF) = (-1 :: 'w::len word)"
  shows "le_word (ram_bytes n (base + ucast a) m) = (-1 :: 'w word)"
  using filled_bytes [of base 4096 m a n] assms by simp

theorem mmio_tests_pass:
  assumes "fpga_uio_get_base_address h p = Some base" and "\<And>x. x - base < 4096 \<Longrightarrow> device p x = 0xFF"
  shows "mmio_test 1 0 (fpga_read_8 ram_bus h) (fpga_write_8 ram_bus h) p = Some True"
    "mmio_test 2 128 (fpga_read_16 ram_bus h) (fpga_write_16 ram_bus h) p = Some True"
    "mmio_test 4 256 (fpga_read_32 ram_bus h) (fpga_write_32 ram_bus h) p = Some True"
    "mmio_test 8 384 (fpga_read_64 ram_bus h) (fpga_write_64 ram_bus h) p = Some True"
proof -
  note access = accesses_are_memory [OF assms(1)]
  note fresh = fresh_reads [OF assms(2)]
  show "mmio_test 8 384 (fpga_read_64 ram_bus h) (fpga_write_64 ram_bus h) p = Some True"
    by (rule mmio_test_memory [OF access(4)]) (simp_all add: fresh all_ones upt_rec)
  show "mmio_test 4 256 (fpga_read_32 ram_bus h) (fpga_write_32 ram_bus h) p = Some True"
    by (rule mmio_test_memory [OF access(3)]) (simp_all add: fresh ones upt_rec)
  show "mmio_test 2 128 (fpga_read_16 ram_bus h) (fpga_write_16 ram_bus h) p = Some True"
    by (rule mmio_test_memory [OF access(2)]) (simp_all add: fresh ones upt_rec)
  show "mmio_test 1 0 (fpga_read_8 ram_bus h) (fpga_write_8 ram_bus h) p = Some True"
    by (rule mmio_test_memory [OF access(1)]) (simp_all add: fresh ones upt_rec)
qed

text \<open>The start of the platform in the fixture of the tests: one interface, on memory that is all ones.\<close>

lemma mmio_fixture_args:
  assumes "p_errno p \<noteq> ERANGE"
  shows "uio_parse_args mmio_test_argv p =
    p\<lparr>s_uio_single_component_mode := 99, s_uio_drv_path := Some (str ''/dev/uio0''), s_uio_addr_span := 4096\<rparr>"
  using assms by (simp add: mmio_test_argv_def str_def parse_simps Let_def)

lemma mmio_fixture_starts:
  assumes "info_vec p = empty_vec" and "p_errno p \<noteq> ERANGE"
  shows "\<exists>p' m'. fpga_platform_init_sw_model good_os (Some a) mmio_test_argv p m = Some (Inr (True, p', m')) \<and>
    info_vec p' = \<lparr>vec_elems = [zero_info\<lparr>base_address := a\<rparr>], vec_size = 1\<rparr> \<and> (\<forall>x. x - a < 4096 \<longrightarrow> m' x = 0xFF)"
proof -
  let ?p1 = "uio_parse_args mmio_test_argv p"
  let ?p2 = "?p1\<lparr>s_uio_inThread_timeout := 100\<rparr>" and ?i = "zero_info\<lparr>base_address := a\<rparr>"
  have args: "uio_validate_args ?p1" "s_uio_addr_span ?p2 = 4096" "s_uio_single_component_mode ?p2 \<noteq> 0"
    "vec_elems (info_vec ?p2) = []" "realloc_result good_os"
    using assms(1) by (simp_all add: mmio_fixture_args [OF assms(2)] uio_validate_args_def empty_vec_def good_os_def)
  obtain p3 m' where made: "uio_create_unit_test_sw_model True (Some a) ?p2 m = Some (Inr (True, p3, m'))"
    using assms(1) by (auto simp: uio_create_unit_test_sw_model_def common_fpga_interface_info_vec_resize_def
        common_fpga_interface_info_vec_reserve_def vec_update_def vec_at_def mmio_fixture_args [OF assms(2)] empty_vec_def)
  from sw_model_result [OF this args(4)] args(2) have
    p3: "p3 = ?p2\<lparr>info_vec := \<lparr>vec_elems = [?i], vec_size = 1\<rparr>\<rparr>" "\<And>x. x - a < 4096 \<Longrightarrow> m' x = 0xFF" by auto
  let ?p' = "snd (uio_create_interrupt_thread good_os p3)"
  have "fpga_platform_init_sw_model good_os (Some a) mmio_test_argv p m = Some (Inr (True, ?p', m'))"
    using args made p3(1) by (simp add: fpga_platform_init_sw_model_def Let_def case_prod_beta')
  moreover have "info_vec ?p' = \<lparr>vec_elems = [?i], vec_size = 1\<rparr>"
    by (simp add: p3(1) uio_create_interrupt_thread_def Let_def)
  ultimately show ?thesis using p3(2) by blast
qed

end
