(* ===== verification/Access_Tests.thy ===== *)
theory Access_Tests
  imports Unit_Tests Ring_Memory
begin

text \<open>
  The test cases of \<^verbatim>\<open>protodrv_api/uio/test/utst/intel_fpga_api_uio_test.cpp\<close> with the fixture that
  each of them runs in: it starts the platform on the software model of the device, looks at what was
  printed, opens the interface, and closes and cleans up in the end.
\<close>

section \<open>The test cases\<close>

text \<open>A case takes the handle and the state of its fixture and says whether every expectation is met.\<close>

definition should_deal_with_invalid_open :: "int \<Rightarrow> ram platform \<Rightarrow> bool option" where
  "should_deal_with_invalid_open m_handle q = do {
     (handle, v1) \<leftarrow> fpga_open 0 (interfaces q);
     (handle', v2) \<leftarrow> fpga_open 1 v1;
     Some (handle = FPGA_MMIO_INTERFACE_INVALID_HANDLE \<and> handle' = FPGA_MMIO_INTERFACE_INVALID_HANDLE)
   }"

definition should_deal_with_mmio_8 :: "int \<Rightarrow> ram platform \<Rightarrow> bool option" where
  "should_deal_with_mmio_8 m_handle = mmio_test 1 0 (fpga_read_8 ram_bus m_handle) (fpga_write_8 ram_bus m_handle)"

definition should_deal_with_mmio_16 :: "int \<Rightarrow> ram platform \<Rightarrow> bool option" where
  "should_deal_with_mmio_16 m_handle = mmio_test 2 128 (fpga_read_16 ram_bus m_handle) (fpga_write_16 ram_bus m_handle)"

definition should_deal_with_mmio_32 :: "int \<Rightarrow> ram platform \<Rightarrow> bool option" where
  "should_deal_with_mmio_32 m_handle = mmio_test 4 256 (fpga_read_32 ram_bus m_handle) (fpga_write_32 ram_bus m_handle)"

definition should_deal_with_mmio_64 :: "int \<Rightarrow> ram platform \<Rightarrow> bool option" where
  "should_deal_with_mmio_64 m_handle = mmio_test 8 384 (fpga_read_64 ram_bus m_handle) (fpga_write_64 ram_bus m_handle)"

text \<open>\<open>rdata0\<close> is what the local array holds before it is written.\<close>

definition should_deal_with_mmio_512 :: "u8 list \<Rightarrow> int \<Rightarrow> ram platform \<Rightarrow> bool option" where
  "should_deal_with_mmio_512 rdata0 m_handle q = do {
     let BYTES_PER_UNIT = 512 div 8;
     let START_OFFSET = 1024;
     (fresh, q1) \<leftarrow> fpga_read_512 ram_bus m_handle START_OFFSET rdata0 q;
     let rdata = map of_nat [0..<BYTES_PER_UNIT];
     q2 \<leftarrow> fpga_write_512 ram_bus m_handle START_OFFSET rdata q1;
     (again, q3) \<leftarrow> fpga_read_512 ram_bus m_handle START_OFFSET rdata q2;
     (beyond, q4) \<leftarrow> fpga_read_512 ram_bus m_handle (START_OFFSET + of_nat BYTES_PER_UNIT) again q3;
     Some (list_all (\<lambda>b. b = 0xFF) fresh \<and> again = map of_nat [0..<BYTES_PER_UNIT] \<and> list_all (\<lambda>b. b = 0xFF) beyond)
   }"

section \<open>The fixture\<close>

text \<open>
  The result is whether its expectations are met, the handle, and the platform with the memory of the
  process. \<open>None\<close> is undefined behaviour, an exception, or no memory.
\<close>

definition SetUp :: "uio_os \<Rightarrow> u64 option \<Rightarrow> plat \<Rightarrow> ram \<Rightarrow> (bool \<times> int \<times> plat \<times> ram) option" where
  "SetUp os mem p m0 = do {
     m \<leftarrow> init_says mmio_test_argv p (fpga_platform_register_printf s_uio_utst_printf (msgs_start []));
     r \<leftarrow> fpga_platform_init_sw_model os mem mmio_test_argv p m0;
     case r of
       Inl e \<Rightarrow> None
     | Inr (rc, p1, m1) \<Rightarrow> do {
         (m_handle, v) \<leftarrow> fpga_open 0 (info_vec p1);
         Some (rc \<and> user m = str (CONFIG ''4096'' ''0'') \<and> fpga_get_num_of_interfaces (info_vec p1) = 1 \<and>
               m_handle \<noteq> FPGA_MMIO_INTERFACE_INVALID_HANDLE,
               m_handle, p1\<lparr>info_vec := v\<rparr>, m1)
       }
   }"

definition TearDown :: "cleanup_os \<Rightarrow> plat \<Rightarrow> (u64 option \<times> plat) option" where
  "TearDown cos p = do {
     v \<leftarrow> fpga_close 0 (info_vec p);
     r \<leftarrow> fpga_platform_cleanup_sw_model cos (p\<lparr>info_vec := v\<rparr>);
     case r of Inl e \<Rightarrow> None | Inr freed \<Rightarrow> Some freed
   }"

text \<open>One case in its fixture, and all of them; each \<open>malloc\<close> gives the same address.\<close>

definition run_access_test ::
  "uio_os \<Rightarrow> u64 option \<Rightarrow> cleanup_os \<Rightarrow> (int \<Rightarrow> ram platform \<Rightarrow> bool option) \<Rightarrow> plat \<Rightarrow> (bool \<times> plat) option" where
  "run_access_test os mem cos test p = do {
     (ready, m_handle, p1, m1) \<leftarrow> SetUp os mem p (\<lambda>_. 0);
     passed \<leftarrow> test m_handle \<lparr>interfaces = info_vec p1, device = m1\<rparr>;
     (freed, p2) \<leftarrow> TearDown cos p1;
     Some (ready \<and> passed \<and> freed = mem, p2)
   }"

fun run_access_tests ::
  "uio_os \<Rightarrow> u64 option \<Rightarrow> cleanup_os \<Rightarrow> (int \<Rightarrow> ram platform \<Rightarrow> bool option) list \<Rightarrow> plat \<Rightarrow> bool list option" where
  "run_access_tests os mem cos [] p = Some []"
| "run_access_tests os mem cos (t # ts) p = do {
     (passed, p') \<leftarrow> run_access_test os mem cos t p;
     map_option (Cons passed) (run_access_tests os mem cos ts p')
   }"

definition access_tests :: "u8 list \<Rightarrow> (int \<Rightarrow> ram platform \<Rightarrow> bool option) list" where
  "access_tests rdata0 =
     [should_deal_with_invalid_open, should_deal_with_mmio_8, should_deal_with_mmio_16, should_deal_with_mmio_32,
      should_deal_with_mmio_64, should_deal_with_mmio_512 rdata0]"

section \<open>Their outcome\<close>

lemma read_512_ram:
  assumes "fpga_uio_get_base_address h p = Some base" and "unat a + 64 \<le> 2 ^ 32" and "length buff = 64"
  shows "fpga_read_512 ram_bus h a buff p = Some (ram_bytes 64 (base + ucast a) (device p), p)"
proof -
  from get_words_ram [OF assms(1), of a 8] assms(2) obtain ws where
    ws: "native.get_words h a 8 p = Some (ws, p)" "concat (map (le_bytes 8) ws) = ram_bytes 64 (base + ucast a) (device p)" by auto
  from read_512_words [OF ws(1), of buff "[]" "[]"] assms(3) show ?thesis by (simp add: fpga_read_512_def ws(2))
qed

lemma write_512_ram:
  assumes "fpga_uio_get_base_address h p = Some base" and "unat a + 64 \<le> 2 ^ 32" and "length bs = 64"
  shows "fpga_write_512 ram_bus h a bs p = Some (p\<lparr>device := ram_store (base + ucast a) bs (device p)\<rparr>)"
proof -
  from bytes_as_words [of bs 8] assms(3) obtain ws :: "u64 list" where
    ws: "length ws = 8" "bs = concat (map (le_bytes 8) ws)" by auto
  from write_512_words [of h ws a "[]" "[]" p] put_words_ram [OF assms(1), of a ws] assms(2) ws show ?thesis
    by (simp add: fpga_write_512_def)
qed

theorem mmio_512_test_passes:
  assumes base: "fpga_uio_get_base_address h q = Some base" and fresh: "\<And>x. x - base < 4096 \<Longrightarrow> device q x = 0xFF"
    and "length rdata0 = 64"
  shows "should_deal_with_mmio_512 rdata0 h q = Some True"
proof -
  let ?bytes = "map of_nat [0..<64] :: u8 list"
  let ?q = "q\<lparr>device := ram_store (base + ucast (1024 :: u32)) ?bytes (device q)\<rparr>"
  have ones: "ram_bytes 64 (base + ucast (1024 :: u32)) (device q) = replicate 64 0xFF"
    "ram_bytes 64 (base + ucast (1088 :: u32)) (device q) = replicate 64 0xFF"
    using filled_bytes [of base 4096 "device q" 1024 64] filled_bytes [of base 4096 "device q" 1088 64] fresh by simp_all
  have "ram_bytes 64 (base + ucast (1088 :: u32)) (device ?q) = replicate 64 0xFF"
    using ram_bytes_apart [of 1024 ?bytes 1088 64 base "device q"] ones(2) by simp
  moreover have "ram_bytes 64 (base + ucast (1024 :: u32)) (device ?q) = ?bytes"
    using ram_bytes_store [of ?bytes "base + ucast (1024 :: u32)" "device q"] by simp
  moreover have "fpga_uio_get_base_address h ?q = Some base" using base by simp
  ultimately show ?thesis
    using ones(1) read_512_ram [OF base, of 1024 rdata0] write_512_ram [OF base, of 1024 ?bytes]
      read_512_ram [of h ?q base 1024 ?bytes] read_512_ram [of h ?q base 1088 ?bytes] assms(3)
    by (simp add: should_deal_with_mmio_512_def Let_def list_all_iff)
qed

text \<open>What the fixture finds, and what it leaves.\<close>

abbreviation opened :: "u64 \<Rightarrow> interface_vec" where
  "opened a \<equiv> \<lparr>vec_elems = [zero_info\<lparr>base_address := a, is_mmio_opened := True\<rparr>], vec_size = 1\<rparr>"

lemma SetUp_result:
  assumes "info_vec p = empty_vec" and "p_errno p \<noteq> ERANGE" and "s_uio_start_addr p = 0"
  shows "\<exists>p1 m1. SetUp good_os (Some a) p m0 = Some (True, 0, p1, m1) \<and> info_vec p1 = opened a \<and>
    (\<forall>x. x - a < 4096 \<longrightarrow> m1 x = 0xFF)"
proof -
  obtain p' m' where p': "fpga_platform_init_sw_model good_os (Some a) mmio_test_argv p m0 = Some (Inr (True, p', m'))"
    "info_vec p' = \<lparr>vec_elems = [zero_info\<lparr>base_address := a\<rparr>], vec_size = 1\<rparr>" "\<forall>x. x - a < 4096 \<longrightarrow> m' x = 0xFF"
    using mmio_fixture_starts [OF assms(1,2)] by blast
  have "fpga_open 0 (info_vec p') = Some (0, opened a)"
    by (simp add: p'(2) fpga_open_def in_vec_def vec_at_def vec_update_def zero_info_def)
  moreover have "init_text mmio_test_argv p = str (CONFIG ''4096'' ''0'')"
    using assms(2,3) by (simp add: init_text_def mmio_fixture_args)
       (simp add: mmio_test_argv_def str_def parse_simps text_simps Let_def)
  moreover have start: "fpga_platform_register_printf s_uio_utst_printf (msgs_start []) = collecting []"
    by (simp add: fpga_platform_register_printf_def msgs_start_def)
  have "init_says mmio_test_argv p (fpga_platform_register_printf s_uio_utst_printf (msgs_start [])) =
      Some (collecting (init_text mmio_test_argv p))"
    by (subst start) (rule init_says_text)
  ultimately show ?thesis
    using p' by (simp add: SetUp_def fpga_get_num_of_interfaces_def FPGA_MMIO_INTERFACE_INVALID_HANDLE_def)
qed

lemma TearDown_result:
  assumes "info_vec p = opened a"
  shows "\<exists>p'. TearDown good_cleanup p = Some (Some a, p') \<and> cleaned_up p' \<and> info_vec p' = empty_vec"
proof -
  let ?v = "\<lparr>vec_elems = [zero_info\<lparr>base_address := a\<rparr>], vec_size = 1\<rparr>"
  have "fpga_close 0 (opened a) = Some ?v"
    by (simp add: fpga_close_def in_vec_def vec_at_def vec_update_def zero_info_def)
  moreover obtain p' where p': "fpga_platform_cleanup good_cleanup (p\<lparr>info_vec := ?v\<rparr>) = Inr p'"
    using cleanup_succeeds [of "p\<lparr>info_vec := ?v\<rparr>"] by (auto simp: good_cleanup_def)
  ultimately show ?thesis
    using cleanup_leaves [OF p'] assms by (auto simp: TearDown_def fpga_platform_cleanup_sw_model_def vec_at_def)
qed

text \<open>Every case passes on the fixture, and the whole suite from a state as a start or a cleanup leaves it.\<close>

lemma access_tests_pass:
  assumes "\<And>x. x - a < 4096 \<Longrightarrow> m x = 0xFF" and "length rdata0 = 64" and "t \<in> set (access_tests rdata0)"
  shows "t 0 \<lparr>interfaces = opened a, device = m\<rparr> = Some True"
proof -
  let ?q = "\<lparr>interfaces = opened a, device = m\<rparr>"
  have base: "fpga_uio_get_base_address 0 ?q = Some a"
    by (simp add: fpga_uio_get_base_address_def vec_at_def handle_index_def)
  have "should_deal_with_invalid_open 0 ?q = Some True"
    by (simp add: should_deal_with_invalid_open_def fpga_open_def in_vec_def vec_at_def)
  with assms(3) show ?thesis
    using mmio_tests_pass [OF base] mmio_512_test_passes [OF base _ assms(2)] assms(1)
    by (auto simp: access_tests_def should_deal_with_mmio_8_def should_deal_with_mmio_16_def should_deal_with_mmio_32_def
        should_deal_with_mmio_64_def)
qed

theorem access_suite_passes:
  assumes "info_vec p = empty_vec" and "p_errno p \<noteq> ERANGE" and "s_uio_start_addr p = 0" and "length rdata0 = 64"
    and "set ts \<subseteq> set (access_tests rdata0)"
  shows "run_access_tests good_os (Some a) good_cleanup ts p = Some (replicate (length ts) True)"
  using assms(1-3,5)
proof (induction ts arbitrary: p)
  case (Cons t ts)
  from SetUp_result [OF Cons.prems(1-3)] obtain p1 m1 where
    p1: "SetUp good_os (Some a) p (\<lambda>_. 0) = Some (True, 0, p1, m1)" "info_vec p1 = opened a" "\<forall>x. x - a < 4096 \<longrightarrow> m1 x = 0xFF"
    by blast
  from TearDown_result [OF p1(2)] obtain p' where
    p': "TearDown good_cleanup p1 = Some (Some a, p')" "cleaned_up p'" "info_vec p' = empty_vec" by blast
  have "t 0 \<lparr>interfaces = opened a, device = m1\<rparr> = Some True"
    using access_tests_pass [OF _ assms(4)] p1(3) Cons.prems(4) by simp
  moreover have "run_access_tests good_os (Some a) good_cleanup ts p' = Some (replicate (length ts) True)"
    using p'(2,3) Cons.prems(4) by (intro Cons.IH) (auto simp: cleaned_up_def ERANGE_def)
  ultimately show ?case using p1(1,2) p'(1) by (simp add: run_access_test_def)
qed simp

end
