(* ===== verification/Register_Map.thy ===== *)
theory Register_Map
  imports Driver_Laws
begin

text \<open>
  The register map of the ST Debug IP in \<^verbatim>\<open>streaming/inc/intel_st_debug_if_st_dbg_ip_driver.h\<close>, as far
  as the driver of the theory \<open>Driver\<close> does not name the registers: it accesses pairs of them with one
  64-bit access. The lemmas show, for registers that keep what is written, that each such access reaches
  exactly the registers of the map that it is meant for.
\<close>

section \<open>The registers that the driver does not name\<close>

definition ST_DBG_IP_CONFIG_VERSION :: u32 where "ST_DBG_IP_CONFIG_VERSION = 0x4"
definition ST_DBG_IP_CONFIG_VERSION_MASK :: u32 where "ST_DBG_IP_CONFIG_VERSION_MASK = 0xF"
definition ST_DBG_IP_CONFIG_H2T_T2H_MEM :: u32 where "ST_DBG_IP_CONFIG_H2T_T2H_MEM = 0x24"
definition ST_DBG_IP_CONFIG_MGMT_MGMT_RSP_MEM :: u32 where "ST_DBG_IP_CONFIG_MGMT_MGMT_RSP_MEM = 0x28"
definition ST_DBG_IP_CONFIG_H2T_T2H_DESC_DEPTH :: u32 where "ST_DBG_IP_CONFIG_H2T_T2H_DESC_DEPTH = 0x2C"
definition ST_DBG_IP_CONFIG_INTERRUPTS :: u32 where "ST_DBG_IP_CONFIG_INTERRUPTS = 0x48"
definition ST_DBG_IP_H2T_WHERE :: u32 where "ST_DBG_IP_H2T_WHERE = 0x10C"
definition ST_DBG_IP_H2T_CHANNEL_ID_PUSH :: u32 where "ST_DBG_IP_H2T_CHANNEL_ID_PUSH = 0x114"
definition ST_DBG_IP_T2H_WHERE :: u32 where "ST_DBG_IP_T2H_WHERE = 0x20C"
definition ST_DBG_IP_T2H_CHANNEL_ID_ADVANCE :: u32 where "ST_DBG_IP_T2H_CHANNEL_ID_ADVANCE = 0x214"
definition ST_DBG_IP_MGMT_WHERE :: u32 where "ST_DBG_IP_MGMT_WHERE = 0x110C"
definition ST_DBG_IP_MGMT_RSP_WHERE :: u32 where "ST_DBG_IP_MGMT_RSP_WHERE = 0x120C"

lemmas register_defs = ST_DBG_IP_CONFIG_TYPE_def ST_DBG_IP_CONFIG_VERSION_def
  ST_DBG_IP_CONFIG_RESET_AND_LOOPBACK_def ST_DBG_IP_CONFIG_H2T_T2H_MEM_def
  ST_DBG_IP_CONFIG_MGMT_MGMT_RSP_MEM_def ST_DBG_IP_CONFIG_H2T_T2H_DESC_DEPTH_def
  ST_DBG_IP_CONFIG_MGMT_MGMT_RSP_DESC_DEPTH_def ST_DBG_IP_CONFIG_INTERRUPTS_def
  ST_DBG_IP_H2T_AVAILABLE_SLOTS_def ST_DBG_IP_H2T_HOW_LONG_def ST_DBG_IP_H2T_WHERE_def
  ST_DBG_IP_H2T_CONNECTION_ID_def ST_DBG_IP_H2T_CHANNEL_ID_PUSH_def ST_DBG_IP_T2H_HOW_LONG_def
  ST_DBG_IP_T2H_WHERE_def ST_DBG_IP_T2H_CONNECTION_ID_def ST_DBG_IP_T2H_CHANNEL_ID_ADVANCE_def
  ST_DBG_IP_T2H_DESCRIPTORS_DONE_def ST_DBG_IP_MGMT_AVAILABLE_SLOTS_def ST_DBG_IP_MGMT_HOW_LONG_def
  ST_DBG_IP_MGMT_WHERE_def ST_DBG_IP_MGMT_CHANNEL_ID_PUSH_def ST_DBG_IP_MGMT_RSP_HOW_LONG_def
  ST_DBG_IP_MGMT_RSP_WHERE_def ST_DBG_IP_MGMT_RSP_CHANNEL_ID_ADVANCE_def
  ST_DBG_IP_MGMT_RSP_DESCRIPTORS_DONE_def

text \<open>The whole map.\<close>

definition registers :: "u32 list" where
  "registers =
     [ST_DBG_IP_CONFIG_TYPE, ST_DBG_IP_CONFIG_VERSION, ST_DBG_IP_CONFIG_RESET_AND_LOOPBACK,
      ST_DBG_IP_CONFIG_H2T_T2H_MEM, ST_DBG_IP_CONFIG_MGMT_MGMT_RSP_MEM, ST_DBG_IP_CONFIG_H2T_T2H_DESC_DEPTH,
      ST_DBG_IP_CONFIG_MGMT_MGMT_RSP_DESC_DEPTH, ST_DBG_IP_CONFIG_INTERRUPTS,
      ST_DBG_IP_H2T_AVAILABLE_SLOTS, ST_DBG_IP_H2T_HOW_LONG, ST_DBG_IP_H2T_WHERE, ST_DBG_IP_H2T_CONNECTION_ID,
      ST_DBG_IP_H2T_CHANNEL_ID_PUSH, ST_DBG_IP_T2H_HOW_LONG, ST_DBG_IP_T2H_WHERE, ST_DBG_IP_T2H_CONNECTION_ID,
      ST_DBG_IP_T2H_CHANNEL_ID_ADVANCE, ST_DBG_IP_T2H_DESCRIPTORS_DONE,
      ST_DBG_IP_MGMT_AVAILABLE_SLOTS, ST_DBG_IP_MGMT_HOW_LONG, ST_DBG_IP_MGMT_WHERE,
      ST_DBG_IP_MGMT_CHANNEL_ID_PUSH, ST_DBG_IP_MGMT_RSP_HOW_LONG, ST_DBG_IP_MGMT_RSP_WHERE,
      ST_DBG_IP_MGMT_RSP_CHANNEL_ID_ADVANCE, ST_DBG_IP_MGMT_RSP_DESCRIPTORS_DONE]"

section \<open>A 64-bit access and the registers under it\<close>

definition reg32 :: "u64 \<Rightarrow> u32 \<Rightarrow> ram driver \<Rightarrow> u32" where
  "reg32 base a d = le_word (ram_bytes 4 (base + ucast a) (device (plat d)))"

lemma rd32_ram: "mapped base d \<Longrightarrow> rd32 ram_bus a d = Some (reg32 base a d, d)"
  by (simp add: rd32_def mapped_def fpga_read_32_def mmio_load_def ram_bus_def reg32_def)

lemma reg64_halves:
  assumes "fits a"
  shows "reg64 base a d = ucast (reg32 base a d) OR push_bit 32 (ucast (reg32 base (a + 4) d))"
  using ram_bytes_add [of 4 4 "base + ucast a" "device (plat d)"] assms
  by (simp add: reg64_def ram_word_def reg32_def ucast_le_word_4 le_word_append offset_plus_4)

lemma reg32_halves:
  assumes "fits a"
  shows "reg32 base a d = ucast (reg64 base a d)" "reg32 base (a + 4) d = ucast (drop_bit 32 (reg64 base a d))"
  by (simp_all only: reg64_halves [OF assms]) (simp_all add: ucast_or_push_low ucast_or_push_high del: drop_bit_or)

lemma wr64_registers:
  assumes "mapped base d" and "fits a"
  shows "\<exists>d'. wr64 ram_bus a w d = Some d' \<and> mapped base d' \<and> reg32 base a d' = ucast w \<and>
    reg32 base (a + 4) d' = ucast (drop_bit 32 w) \<and>
    (\<forall>b. unat b + 4 \<le> unat a \<or> unat a + 8 \<le> unat b \<longrightarrow> reg32 base b d' = reg32 base b d)"
proof -
  from wr64_ram [OF assms, of w] obtain d' where
    d': "wr64 ram_bus a w d = Some d'" "mapped base d'" "reg64 base a d' = w" by blast
  have dev: "device (plat d') = ram_store (base + ucast a) (le_bytes 8 w) (device (plat d))"
    using d'(1) assms(1) by (auto simp: wr64_def fpga_write_64_def mmio_store_def mapped_def ram_bus_def)
  have "reg32 base b d' = reg32 base b d" if "unat b + 4 \<le> unat a \<or> unat a + 8 \<le> unat b" for b
    unfolding reg32_def dev by (subst ram_bytes_apart) (use that in auto)
  with d' show ?thesis by (auto simp: reg32_halves [OF assms(2)])
qed

section \<open>What pushing a descriptor writes\<close>

text \<open>Two 64-bit writes, to two pairs of registers that do not overlap.\<close>

lemma two_writes:
  assumes "mapped base d" and "fits a" and "fits b" and "apart a b"
    and "wr64 ram_bus a v d = Some d1" and "wr64 ram_bus b w d1 = Some d2"
  shows "reg32 base a d2 = ucast v" "reg32 base (a + 4) d2 = ucast (drop_bit 32 v)"
    "reg32 base b d2 = ucast w" "reg32 base (b + 4) d2 = ucast (drop_bit 32 w)"
    "(\<forall>x\<in>{a, b}. unat c + 4 \<le> unat x \<or> unat x + 8 \<le> unat c) \<Longrightarrow> reg32 base c d2 = reg32 base c d"
proof -
  from wr64_registers [OF assms(1,2), of v] assms(5) have
    1: "mapped base d1" "reg32 base a d1 = ucast v" "reg32 base (a + 4) d1 = ucast (drop_bit 32 v)"
      "\<And>c. unat c + 4 \<le> unat a \<or> unat a + 8 \<le> unat c \<Longrightarrow> reg32 base c d1 = reg32 base c d" by auto
  from wr64_registers [OF 1(1) assms(3), of w] assms(6) have
    2: "reg32 base b d2 = ucast w" "reg32 base (b + 4) d2 = ucast (drop_bit 32 w)"
      "\<And>c. unat c + 4 \<le> unat b \<or> unat b + 8 \<le> unat c \<Longrightarrow> reg32 base c d2 = reg32 base c d1" by auto
  have plus: "unat (a + 4) = unat a + 4" using assms(2) by (subst unat_add_below) (simp_all add: fits_def)
  show "reg32 base a d2 = ucast v" "reg32 base (a + 4) d2 = ucast (drop_bit 32 v)"
    using 1(2,3) assms(4) plus by (auto simp: apart_def 2(3))
  show "reg32 base b d2 = ucast w" "reg32 base (b + 4) d2 = ucast (drop_bit 32 w)" by (fact 2)+
  show "reg32 base c d2 = reg32 base c d" if "\<forall>x\<in>{a, b}. unat c + 4 \<le> unat x \<or> unat x + 8 \<le> unat c"
    using that by (simp add: 1(4) 2(3))
qed

text \<open>
  A packet's descriptor ends up in the four registers that the map names for it, and no other register of
  the map changes; likewise for a management packet, where the register before \<open>CHANNEL_ID_PUSH\<close>, which
  the map does not name, is written with 0.
\<close>

theorem push_h2t_registers:
  assumes "mapped base d" and "push_h2t_data ram_bus hdr pay d = Some (r, d')"
  shows "reg32 base ST_DBG_IP_H2T_HOW_LONG d' = how_long_word (DATA_LEN_BYTES hdr) (has_eop hdr)"
    "reg32 base ST_DBG_IP_H2T_WHERE d' = pay" "reg32 base ST_DBG_IP_H2T_CONNECTION_ID d' = ucast (CONN_ID hdr)"
    "reg32 base ST_DBG_IP_H2T_CHANNEL_ID_PUSH d' = ucast (CHANNEL hdr)"
    "\<forall>reg\<in>set registers - {ST_DBG_IP_H2T_HOW_LONG, ST_DBG_IP_H2T_WHERE, ST_DBG_IP_H2T_CONNECTION_ID,
       ST_DBG_IP_H2T_CHANNEL_ID_PUSH}. reg32 base reg d' = reg32 base reg d"
proof -
  let ?d = "d\<lparr>g_h2t_descriptor_slots_available := g_h2t_descriptor_slots_available d - 1\<rparr>"
  let ?v = "ucast (how_long_word (DATA_LEN_BYTES hdr) (has_eop hdr)) OR push_bit 32 (ucast pay) :: u64"
  let ?w = "ucast (CONN_ID hdr) OR push_bit 32 (ucast (CHANNEL hdr)) :: u64"
  from assms(2) obtain d1 where w: "wr64 ram_bus ST_DBG_IP_H2T_HOW_LONG ?v ?d = Some d1"
    "wr64 ram_bus ST_DBG_IP_H2T_CONNECTION_ID ?w d1 = Some d'"
    by (auto simp: push_h2t_data_def last_howlong_word has_eop_def Let_def bind_eq_Some_conv)
  have a: "mapped base ?d" "fits ST_DBG_IP_H2T_HOW_LONG" "fits ST_DBG_IP_H2T_CONNECTION_ID"
    "apart ST_DBG_IP_H2T_HOW_LONG ST_DBG_IP_H2T_CONNECTION_ID"
    using assms(1) by (simp_all add: fits_def apart_def register_defs)
  have next_reg: "ST_DBG_IP_H2T_HOW_LONG + 4 = ST_DBG_IP_H2T_WHERE"
    "ST_DBG_IP_H2T_CONNECTION_ID + 4 = ST_DBG_IP_H2T_CHANNEL_ID_PUSH" by (simp_all add: register_defs)
  have same: "reg32 base c ?d = reg32 base c d" for c by (simp add: reg32_def)
  note facts = two_writes [OF a w, unfolded next_reg same]
  show "reg32 base ST_DBG_IP_H2T_HOW_LONG d' = how_long_word (DATA_LEN_BYTES hdr) (has_eop hdr)"
    "reg32 base ST_DBG_IP_H2T_WHERE d' = pay" "reg32 base ST_DBG_IP_H2T_CONNECTION_ID d' = ucast (CONN_ID hdr)"
    "reg32 base ST_DBG_IP_H2T_CHANNEL_ID_PUSH d' = ucast (CHANNEL hdr)"
    by (simp_all only: facts(1-4)) (simp_all add: ucast_or_push_low ucast_or_push_high del: drop_bit_or)
  show "\<forall>reg\<in>set registers - {ST_DBG_IP_H2T_HOW_LONG, ST_DBG_IP_H2T_WHERE, ST_DBG_IP_H2T_CONNECTION_ID,
      ST_DBG_IP_H2T_CHANNEL_ID_PUSH}. reg32 base reg d' = reg32 base reg d"
    by (intro ballI facts(5)) (auto simp: registers_def register_defs)
qed

theorem push_mgmt_registers:
  assumes "mapped base d" and "push_mgmt_data ram_bus hdr pay d = Some (r, d')"
  shows "reg32 base ST_DBG_IP_MGMT_HOW_LONG d' =
      how_long_word (M_DATA_LEN_BYTES hdr) (M_SOP_EOP hdr AND MGMT_PACKET_HEADER_MASK_EOP \<noteq> 0)"
    "reg32 base ST_DBG_IP_MGMT_WHERE d' = pay" "reg32 base ST_DBG_IP_MGMT_CHANNEL_ID_PUSH d' = ucast (M_CHANNEL hdr)"
    "\<forall>reg\<in>set registers - {ST_DBG_IP_MGMT_HOW_LONG, ST_DBG_IP_MGMT_WHERE, ST_DBG_IP_MGMT_CHANNEL_ID_PUSH}.
       reg32 base reg d' = reg32 base reg d"
proof -
  let ?d = "d\<lparr>g_mgmt_descriptor_slots_available := g_mgmt_descriptor_slots_available d - 1\<rparr>"
  let ?how_long = "how_long_word (M_DATA_LEN_BYTES hdr) (M_SOP_EOP hdr AND MGMT_PACKET_HEADER_MASK_EOP \<noteq> 0)"
  let ?v = "ucast ?how_long OR push_bit 32 (ucast pay) :: u64" and ?w = "push_bit 32 (ucast (M_CHANNEL hdr)) :: u64"
  let ?b = "ST_DBG_IP_MGMT_CHANNEL_ID_PUSH - 0x4"
  from assms(2) obtain d1 where w: "wr64 ram_bus ST_DBG_IP_MGMT_HOW_LONG ?v ?d = Some d1" "wr64 ram_bus ?b ?w d1 = Some d'"
    by (auto simp: push_mgmt_data_def last_howlong_word Let_def bind_eq_Some_conv)
  have a: "mapped base ?d" "fits ST_DBG_IP_MGMT_HOW_LONG" "fits ?b" "apart ST_DBG_IP_MGMT_HOW_LONG ?b"
    using assms(1) by (simp_all add: mapped_def fits_def apart_def register_defs)
  have next_reg: "ST_DBG_IP_MGMT_HOW_LONG + 4 = ST_DBG_IP_MGMT_WHERE" "?b + 4 = ST_DBG_IP_MGMT_CHANNEL_ID_PUSH"
    by (simp_all add: register_defs)
  have same: "reg32 base c ?d = reg32 base c d" for c by (simp add: reg32_def)
  note facts = two_writes [OF a w, unfolded next_reg same]
  show "reg32 base ST_DBG_IP_MGMT_HOW_LONG d' = ?how_long" "reg32 base ST_DBG_IP_MGMT_WHERE d' = pay"
    by (simp_all only: facts(1,2)) (simp_all add: ucast_or_push_low ucast_or_push_high del: drop_bit_or)
  show "reg32 base ST_DBG_IP_MGMT_CHANNEL_ID_PUSH d' = ucast (M_CHANNEL hdr)"
    using ucast_or_push_high [of "0 :: u32" "M_CHANNEL hdr", where 'c = 32] by (simp add: facts(4))
  show "\<forall>reg\<in>set registers - {ST_DBG_IP_MGMT_HOW_LONG, ST_DBG_IP_MGMT_WHERE, ST_DBG_IP_MGMT_CHANNEL_ID_PUSH}.
      reg32 base reg d' = reg32 base reg d"
    by (intro ballI facts(5)) (auto simp: registers_def register_defs)
qed

text \<open>The identification is read with one access, as the two registers of the map.\<close>

theorem check_version_registers:
  assumes "mapped base d"
  shows "check_version_and_type ram_bus d =
    Some (if reg32 base ST_DBG_IP_CONFIG_TYPE d = SUPPORTED_TYPE \<and> reg32 base ST_DBG_IP_CONFIG_VERSION d = SUPPORTED_VERSION
          then 0 else -1, d)"
proof -
  have f: "fits ST_DBG_IP_CONFIG_TYPE" by (simp add: fits_def register_defs)
  have "ST_DBG_IP_CONFIG_TYPE + 4 = ST_DBG_IP_CONFIG_VERSION" by (simp add: register_defs)
  with reg32_halves [OF f, of base d] rd64_ram [OF assms f] show ?thesis
    by (simp add: check_version_and_type_def Let_def)
qed

end
