(* ===== verification/Interrupt_Thread.thy ===== *)
theory Interrupt_Thread
  imports Platform_Uio
begin

text \<open>
  The interrupt thread of \<^verbatim>\<open>protodrv_api/uio/src/intel_fpga_platform_api_uio.c\<close> beside the thread
  that runs the program: \<open>uio_interrupt_thread\<close> as a step relation, and what the program does to the
  state they share (enabling, disabling, registering a handler, and the part of
  \<open>fpga_platform_cleanup\<close> that stops the thread).

  The state is the record \<open>plat\<close> with the two program counters and the descriptors that the thread
  has open. A step of the thread goes from one blocking call to the next; the lock makes reading and
  writing the flags atomic. \<open>thread_step\<close> is what the thread does while its system calls succeed, where
  waiting for the semaphore blocks until it is positive; \<open>thread_fault\<close> is a system call that fails.
  That the handler returns is assumed.
\<close>

section \<open>The threads\<close>

datatype thread_pc = Loop_start | Flags_read u16 | Poll_wait int | Sem_wait | Stopped | Stopped_error

datatype main_pc = App | Exit_flag_set | Joining | Joined

record ith = plat +
  tpc :: thread_pc
  mpc :: main_pc
  thread_fds :: "int list"
  isr_calls :: nat

definition exit_requested :: "u16 \<Rightarrow> bool" where
  "exit_requested f \<longleftrightarrow> f AND ucast FPGA_PLATFORM_INT_THREAD_EXIT \<noteq> 0"

text \<open>The first interface, which the thread looks at.\<close>

definition int_info :: "ith \<Rightarrow> FPGA_INTERFACE_INFO option" where
  "int_info s = vec_at (info_vec s) 0"

definition close_thread_fd :: "int \<Rightarrow> ith \<Rightarrow> ith" where
  "close_thread_fd fd s = s\<lparr>thread_fds := remove1 fd (thread_fds s)\<rparr>"

text \<open>The end of an iteration: the descriptor 0 is left open.\<close>

definition end_of_poll :: "int \<Rightarrow> ith \<Rightarrow> ith" where
  "end_of_poll fd s = (if fd > 0 then close_thread_fd fd s else s)\<lparr>tpc := Loop_start\<rparr>"

inductive thread_step :: "ith \<Rightarrow> ith \<Rightarrow> bool" where
  read_flags: "tpc s = Loop_start \<Longrightarrow> thread_step s (s\<lparr>tpc := Flags_read (ucast (s_intFlags s))\<rparr>)"
| leaves: "tpc s = Flags_read f \<Longrightarrow> exit_requested f \<Longrightarrow> thread_step s (s\<lparr>tpc := Stopped\<rparr>)"
| starts_poll: "tpc s = Flags_read f \<Longrightarrow> \<not> exit_requested f \<Longrightarrow> int_info s = Some i \<Longrightarrow>
    interrupt_enable i \<Longrightarrow> fd \<ge> 0 \<Longrightarrow>
    thread_step s (s\<lparr>tpc := Poll_wait fd, thread_fds := fd # thread_fds s\<rparr>)"
| poll_times_out: "tpc s = Poll_wait fd \<Longrightarrow> thread_step s (end_of_poll fd s)"
| interrupt_comes: "tpc s = Poll_wait fd \<Longrightarrow> int_info s = Some i \<Longrightarrow> isr_callback i \<noteq> None \<Longrightarrow>
    thread_step s (end_of_poll fd (s\<lparr>isr_calls := isr_calls s + 1\<rparr>))"
| no_handler: "tpc s = Poll_wait fd \<Longrightarrow> int_info s = Some i \<Longrightarrow> isr_callback i = None \<Longrightarrow>
    thread_step s ((close_thread_fd fd s)\<lparr>tpc := Stopped_error\<rparr>)"
| starts_wait: "tpc s = Flags_read f \<Longrightarrow> \<not> exit_requested f \<Longrightarrow> int_info s = Some i \<Longrightarrow>
    \<not> interrupt_enable i \<Longrightarrow> thread_step s (s\<lparr>tpc := Sem_wait\<rparr>)"
| woken: "tpc s = Sem_wait \<Longrightarrow> g_intSem s > 0 \<Longrightarrow> thread_step s (s\<lparr>g_intSem := g_intSem s - 1, tpc := Loop_start\<rparr>)"

text \<open>The lock, opening the device, arming the interrupt, or the wait fails.\<close>

inductive thread_fault :: "ith \<Rightarrow> ith \<Rightarrow> bool" where
  lock_fails: "tpc s = Loop_start \<Longrightarrow> thread_fault s (s\<lparr>tpc := Stopped_error\<rparr>)"
| open_or_arm_fails: "tpc s = Flags_read f \<Longrightarrow> \<not> exit_requested f \<Longrightarrow> int_info s = Some i \<Longrightarrow>
    interrupt_enable i \<Longrightarrow> thread_fault s (s\<lparr>tpc := Stopped_error\<rparr>)"
| wait_fails: "tpc s = Sem_wait \<Longrightarrow> thread_fault s (s\<lparr>tpc := Stopped_error\<rparr>)"

definition thread_moves :: "ith \<Rightarrow> ith \<Rightarrow> bool" where
  "thread_moves s s' \<longleftrightarrow> thread_step s s' \<or> thread_fault s s'"

text \<open>
  The program: its calls of the interrupt functions, and stopping the thread. \<open>signal_thread\<close> does two
  things to the state, one after the other; the thread may run in between. Only where it returns 0 does
  the program go on to wait for the thread.
\<close>

inductive main_step :: "ith \<Rightarrow> ith \<Rightarrow> bool" where
  enables: "mpc s = App \<Longrightarrow> fpga_enable_interrupt rc handle (info_vec s, g_intSem s) = Some (r, v, n) \<Longrightarrow>
    main_step s (s\<lparr>info_vec := v, g_intSem := n\<rparr>)"
| disables: "mpc s = App \<Longrightarrow> fpga_disable_interrupt handle (info_vec s) = Some (r, v) \<Longrightarrow>
    main_step s (s\<lparr>info_vec := v\<rparr>)"
| registers: "mpc s = App \<Longrightarrow> fpga_register_isr handle isr cxt (info_vec s) = Some (r, v) \<Longrightarrow>
    main_step s (s\<lparr>info_vec := v\<rparr>)"
| sets_exit_flag: "mpc s = App \<Longrightarrow> c_wrlock_rc os = 0 \<Longrightarrow> c_unlock_rc os = 0 \<Longrightarrow>
    signal_thread os (plat.truncate s) = (r, p') \<Longrightarrow>
    main_step s (s\<lparr>s_intFlags := s_intFlags p', mpc := Exit_flag_set\<rparr>)"
| posts: "mpc s = Exit_flag_set \<Longrightarrow> c_wrlock_rc os = 0 \<Longrightarrow> c_unlock_rc os = 0 \<Longrightarrow>
    signal_thread os (plat.truncate s) = (0, p') \<Longrightarrow>
    main_step s (s\<lparr>g_intSem := g_intSem p', mpc := Joining\<rparr>)"
| joins: "mpc s = Joining \<Longrightarrow> tpc s = Stopped \<or> tpc s = Stopped_error \<Longrightarrow> main_step s (s\<lparr>mpc := Joined\<rparr>)"

text \<open>The thread starts with the flags cleared and the semaphore 0, and one interface in the table.\<close>

definition thread_start :: "ith \<Rightarrow> bool" where
  "thread_start s \<longleftrightarrow> tpc s = Loop_start \<and> mpc s = App \<and> thread_fds s = [] \<and> isr_calls s = 0 \<and>
     s_intFlags s = 0 \<and> g_intSem s = 0 \<and> int_info s \<noteq> None"

inductive reachable :: "ith \<Rightarrow> bool" where
  start: "thread_start s \<Longrightarrow> reachable s"
| by_thread: "reachable s \<Longrightarrow> thread_moves s s' \<Longrightarrow> reachable s'"
| by_main: "reachable s \<Longrightarrow> main_step s s' \<Longrightarrow> reachable s'"

section \<open>Invariants\<close>

text \<open>The thread will wait once more before it reads the flags again.\<close>

definition about_to_wait :: "thread_pc \<Rightarrow> bool" where
  "about_to_wait pc = (case pc of Sem_wait \<Rightarrow> True | Flags_read f \<Rightarrow> \<not> exit_requested f | _ \<Rightarrow> False)"

definition held_fds :: "thread_pc \<Rightarrow> int list" where
  "held_fds pc = (case pc of Poll_wait fd \<Rightarrow> filter (\<lambda>fd. fd \<noteq> 0) [fd] | _ \<Rightarrow> [])"

definition ith_ok :: "ith \<Rightarrow> bool" where
  "ith_ok s \<longleftrightarrow> int_info s \<noteq> None \<and>
     (mpc s \<noteq> App \<longrightarrow> exit_requested (ucast (s_intFlags s))) \<and>
     (mpc s = Joining \<and> about_to_wait (tpc s) \<longrightarrow> g_intSem s > 0) \<and>
     filter (\<lambda>fd. fd \<noteq> 0) (thread_fds s) = held_fds (tpc s) \<and> (\<forall>fd. tpc s = Poll_wait fd \<longrightarrow> fd \<ge> 0)"

lemma int_info_upd [simp]: "int_info (s\<lparr>tpc := x\<rparr>) = int_info s" "int_info (s\<lparr>mpc := y\<rparr>) = int_info s"
  "int_info (s\<lparr>thread_fds := z\<rparr>) = int_info s" "int_info (s\<lparr>isr_calls := n\<rparr>) = int_info s"
  "int_info (s\<lparr>g_intSem := m\<rparr>) = int_info s" "int_info (s\<lparr>s_intFlags := f\<rparr>) = int_info s"
  "int_info (s\<lparr>info_vec := v\<rparr>) = vec_at v 0"
  by (simp_all add: int_info_def)

lemma exit_flag_set: "exit_requested (ucast (f OR FPGA_PLATFORM_INT_THREAD_EXIT))"
proof -
  have "bit (ucast (f OR FPGA_PLATFORM_INT_THREAD_EXIT) AND (1 :: u16)) 0"
    by (simp add: FPGA_PLATFORM_INT_THREAD_EXIT_def bit_simps)
  then show ?thesis by (auto simp: exit_requested_def FPGA_PLATFORM_INT_THREAD_EXIT_def)
qed

lemma vec_update_at_0: "vec_update index f v = Some v' \<Longrightarrow> vec_at v 0 \<noteq> None \<Longrightarrow> vec_at v' 0 \<noteq> None"
  by (auto simp: vec_update_def vec_at_def bind_eq_Some_conv split: if_splits)

lemma thread_step_ok: "thread_step s s' \<Longrightarrow> ith_ok s \<Longrightarrow> ith_ok s'"
  by (induction rule: thread_step.induct)
     (auto simp: ith_ok_def about_to_wait_def held_fds_def end_of_poll_def close_thread_fd_def
       filter_remove1 split: if_splits)

lemma thread_fault_ok: "thread_fault s s' \<Longrightarrow> ith_ok s \<Longrightarrow> ith_ok s'"
  by (induction rule: thread_fault.induct) (auto simp: ith_ok_def about_to_wait_def held_fds_def)

lemma thread_moves_ok: "thread_moves s s' \<Longrightarrow> ith_ok s \<Longrightarrow> ith_ok s'"
  by (auto simp: thread_moves_def intro: thread_step_ok thread_fault_ok)

text \<open>What stopping the thread does to the state that it shares with the thread.\<close>

lemma truncate_fields [simp]: "s_intFlags (plat.truncate s) = s_intFlags s" "g_intSem (plat.truncate s) = g_intSem s"
  by (simp_all add: plat.truncate_def)

lemma signal_thread_done:
  assumes "signal_thread os p = (r, p')" and "c_wrlock_rc os = 0" and "c_unlock_rc os = 0"
  shows "s_intFlags p' = s_intFlags p OR FPGA_PLATFORM_INT_THREAD_EXIT" and "r = 0 \<Longrightarrow> g_intSem p' = g_intSem p + 1"
  using assms by (auto simp: signal_thread_def Let_def split: if_splits)

lemma main_step_ok: "main_step s s' \<Longrightarrow> ith_ok s \<Longrightarrow> ith_ok s'"
proof (induction rule: main_step.induct)
  case (enables s rc handle r v n)
  then have "vec_at v 0 \<noteq> None"
    by (auto simp: fpga_enable_interrupt_def ith_ok_def int_info_def bind_eq_Some_conv Let_def
        split: if_splits dest: vec_update_at_0)
  with enables show ?case by (auto simp: ith_ok_def)
next
  case (disables s handle r v)
  then have "vec_at v 0 \<noteq> None"
    by (auto simp: fpga_disable_interrupt_def ith_ok_def int_info_def bind_eq_Some_conv
        split: if_splits dest: vec_update_at_0)
  with disables show ?case by (auto simp: ith_ok_def)
next
  case (registers s handle isr cxt r v)
  then have "vec_at v 0 \<noteq> None"
    by (auto simp: fpga_register_isr_def ith_ok_def int_info_def bind_eq_Some_conv Let_def
        split: if_splits dest!: vec_update_at_0)
  with registers show ?case by (auto simp: ith_ok_def)
qed (auto simp: ith_ok_def exit_flag_set signal_thread_done)

lemma thread_start_ok: "thread_start s \<Longrightarrow> ith_ok s"
  by (simp add: thread_start_def ith_ok_def held_fds_def)

lemma reachable_ok: "reachable s \<Longrightarrow> ith_ok s"
  by (induction rule: reachable.induct) (blast intro: thread_start_ok thread_moves_ok main_step_ok)+

section \<open>Stopping the thread\<close>

inductive_cases thread_stepE: "thread_step s s'"

inductive_simps asleep_step: "thread_step (s\<lparr>tpc := Sem_wait\<rparr>) s'"

definition stopped :: "ith \<Rightarrow> bool" where
  "stopped s \<longleftrightarrow> tpc s = Stopped \<or> tpc s = Stopped_error"

text \<open>How many steps are left at most once the flag is set.\<close>

definition steps_left :: "ith \<Rightarrow> nat" where
  "steps_left s = (case tpc s of
     Flags_read f \<Rightarrow> (if exit_requested f then 1 else 4) | Poll_wait fd \<Rightarrow> 3 | Sem_wait \<Rightarrow> 3 | Loop_start \<Rightarrow> 2
   | Stopped \<Rightarrow> 0 | Stopped_error \<Rightarrow> 0)"

lemma thread_moves_mpc:
  assumes "thread_moves s s'"
  shows "mpc s' = mpc s \<and> s_intFlags s' = s_intFlags s"
proof -
  have "thread_step s s' \<Longrightarrow> mpc s' = mpc s \<and> s_intFlags s' = s_intFlags s"
    by (induction rule: thread_step.induct) (auto simp: end_of_poll_def close_thread_fd_def)
  moreover have "thread_fault s s' \<Longrightarrow> mpc s' = mpc s \<and> s_intFlags s' = s_intFlags s"
    by (induction rule: thread_fault.induct) auto
  ultimately show ?thesis using assms by (auto simp: thread_moves_def)
qed

lemma thread_moves_decreases:
  assumes "thread_moves s s'" and "exit_requested (ucast (s_intFlags s))"
  shows "steps_left s' < steps_left s"
proof -
  have "thread_step s s' \<Longrightarrow> exit_requested (ucast (s_intFlags s)) \<Longrightarrow> steps_left s' < steps_left s"
    by (induction rule: thread_step.induct) (auto simp: steps_left_def end_of_poll_def close_thread_fd_def)
  moreover have "thread_fault s s' \<Longrightarrow> steps_left s' < steps_left s"
    by (induction rule: thread_fault.induct) (auto simp: steps_left_def)
  ultimately show ?thesis using assms by (auto simp: thread_moves_def)
qed

text \<open>A thread that sleeps while the semaphore is 0 takes no step until another one posts it.\<close>

lemma sleeps: "g_intSem s = 0 \<Longrightarrow> \<not> thread_step (s\<lparr>tpc := Sem_wait\<rparr>) s'"
  by (simp add: asleep_step)

lemma thread_can_step:
  assumes "ith_ok s" and "mpc s = Joining" and "\<not> stopped s"
  shows "\<exists>s'. thread_step s s'"
proof (cases "tpc s")
  case (Flags_read f)
  with assms show ?thesis
    by (cases "exit_requested f"; cases "int_info s"; cases "interrupt_enable (the (int_info s))")
       (auto simp: ith_ok_def intro: thread_step.intros)
qed (use assms in \<open>auto simp: ith_ok_def about_to_wait_def stopped_def intro: thread_step.intros\<close>)

lemma thread_run_bounded:
  assumes "(thread_moves ^^ n) s s'" and "ith_ok s" and "mpc s = Joining"
  shows "ith_ok s' \<and> mpc s' = Joining \<and> n + steps_left s' \<le> steps_left s"
  using assms(1)
proof (induction n arbitrary: s')
  case 0
  with assms show ?case by simp
next
  case (Suc n)
  then obtain s1 where s1: "(thread_moves ^^ n) s s1" "thread_moves s1 s'" by auto
  from Suc.IH [OF s1(1)] have ok: "ith_ok s1" "mpc s1 = Joining" "n + steps_left s1 \<le> steps_left s" by simp_all
  then have "exit_requested (ucast (s_intFlags s1))" by (simp add: ith_ok_def)
  from thread_moves_decreases [OF s1(2) this] thread_moves_ok [OF s1(2) ok(1)] thread_moves_mpc [OF s1(2)] ok
  show ?case by simp
qed

text \<open>
  The thread starts from what its creation leaves, and where every call succeeds \<open>signal_thread\<close> sets the
  flag and posts the semaphore.
\<close>

lemma thread_starts_after_creation:
  "uio_create_interrupt_thread os p = (True, p') \<Longrightarrow> s_intFlags p' = 0 \<and> g_intSem p' = 0"
  by (auto simp: uio_create_interrupt_thread_def Let_def split: if_splits)

lemma signal_thread_steps:
  "c_wrlock_rc os = 0 \<Longrightarrow> c_unlock_rc os = 0 \<Longrightarrow> c_post_rc os = 0 \<Longrightarrow>
    signal_thread os p = (0, p\<lparr>s_intFlags := s_intFlags p OR FPGA_PLATFORM_INT_THREAD_EXIT, g_intSem := g_intSem p + 1\<rparr>)"
  by (simp add: signal_thread_def)

text \<open>A thread that sleeps on the semaphore as the program stops it.\<close>

definition demo_ith :: ith where
  "demo_ith = \<lparr>s_uio_drv_path = None, s_uio_addr_span = 0, s_uio_single_component_mode = 1, s_uio_start_addr = 0,
     s_uio_inThread_timeout = 100, s_uio_drv_handle = 5, s_uio_mmap_ptr = 0, s_intThread_id = 7, s_intFlags = 0,
     g_intSem = 0, g_common_show_dbg_msg = 0, p_errno = 0, info_vec = \<lparr>vec_elems = [zero_info], vec_size = 1\<rparr>,
     closed_fds = [], mappings = [], tpc = Loop_start, mpc = App, thread_fds = [], isr_calls = 0\<rparr>"

lemma demo_joining: "reachable (demo_ith\<lparr>tpc := Sem_wait, s_intFlags := 1, g_intSem := 1, mpc := Joining\<rparr>)"
proof -
  have i: "int_info demo_ith = Some zero_info" by (simp add: int_info_def demo_ith_def vec_at_def)
  have f: "s_intFlags demo_ith = 0" "tpc demo_ith = Loop_start" "mpc demo_ith = App" "g_intSem demo_ith = 0"
    by (simp_all add: demo_ith_def)
  have r0: "reachable demo_ith"
    by (rule reachable.start) (simp add: thread_start_def i f, simp add: demo_ith_def)
  have t1: "thread_moves demo_ith (demo_ith\<lparr>tpc := Flags_read 0\<rparr>)"
    using thread_step.read_flags [of demo_ith] f by (simp add: thread_moves_def)
  have t2: "thread_moves (demo_ith\<lparr>tpc := Flags_read 0\<rparr>) (demo_ith\<lparr>tpc := Sem_wait\<rparr>)"
    using thread_step.starts_wait [of "demo_ith\<lparr>tpc := Flags_read 0\<rparr>" 0 zero_info] i
    by (simp add: thread_moves_def exit_requested_def zero_info_def)
  have stop: "signal_thread (\<lparr>c_wrlock_rc = 0, c_unlock_rc = 0, c_getvalue_rc = 0, c_post_rc = 0\<rparr>) p =
      (0, p\<lparr>s_intFlags := s_intFlags p OR FPGA_PLATFORM_INT_THREAD_EXIT, g_intSem := g_intSem p + 1\<rparr>)" for p
    by (rule signal_thread_steps) simp_all
  have m1: "main_step (demo_ith\<lparr>tpc := Sem_wait\<rparr>) (demo_ith\<lparr>tpc := Sem_wait, s_intFlags := 1, mpc := Exit_flag_set\<rparr>)"
    using main_step.sets_exit_flag [OF _ _ _ stop, of "demo_ith\<lparr>tpc := Sem_wait\<rparr>"] f
    by (simp add: FPGA_PLATFORM_INT_THREAD_EXIT_def)
  have m2: "main_step (demo_ith\<lparr>tpc := Sem_wait, s_intFlags := 1, mpc := Exit_flag_set\<rparr>)
      (demo_ith\<lparr>tpc := Sem_wait, s_intFlags := 1, g_intSem := 1, mpc := Joining\<rparr>)"
    using main_step.posts [OF _ _ _ stop, of "demo_ith\<lparr>tpc := Sem_wait, s_intFlags := 1, mpc := Exit_flag_set\<rparr>"] f by simp
  have "reachable (demo_ith\<lparr>tpc := Sem_wait, s_intFlags := 1, g_intSem := 1, mpc := Joining\<rparr>)"
    by (rule reachable.by_main [OF reachable.by_main [OF reachable.by_thread [OF reachable.by_thread [OF r0 t1] t2] m1] m2])
  then show ?thesis by simp
qed

section \<open>Properties\<close>

text \<open>
  C12. Stopping the interrupt thread cannot hang: in every reachable state in which the program waits
  for the thread, however the steps of the two were interleaved before and whichever calls fail, the
  thread is done after at most four more steps, and as long as it is not done it can make one in which
  no call fails: if it sleeps on the semaphore, the semaphore has been posted.
\<close>

theorem interrupt_thread_stops:
  assumes "reachable s" and "mpc s = Joining" and "(thread_moves ^^ n) s s'"
  shows "n \<le> 4 \<and> (tpc s' = Stopped \<or> tpc s' = Stopped_error \<or> (\<exists>s''. thread_step s' s''))"
proof -
  have "steps_left s \<le> 4" by (simp add: steps_left_def split: thread_pc.splits)
  with thread_run_bounded [OF assms(3) reachable_ok [OF assms(1)] assms(2)] thread_can_step [of s']
  show ?thesis by (auto simp: stopped_def)
qed

lemma interrupt_thread_stops_witness:
  "\<exists>s''. thread_step (demo_ith\<lparr>tpc := Sem_wait, s_intFlags := 1, g_intSem := 1, mpc := Joining\<rparr>) s''"
  using interrupt_thread_stops [OF demo_joining, of 0] by simp

text \<open>
  The thread never has more than one descriptor other than 0 open, and has none at all while it is
  not polling: opening the device in every iteration leaks nothing, unless the descriptor is 0.
\<close>

theorem interrupt_thread_keeps_no_descriptor:
  assumes "reachable s"
  shows "filter (\<lambda>fd. fd \<noteq> 0) (thread_fds s) = (case tpc s of Poll_wait fd \<Rightarrow> filter (\<lambda>fd. fd \<noteq> 0) [fd] | _ \<Rightarrow> [])"
  using reachable_ok [OF assms] by (simp add: ith_ok_def held_fds_def)

lemma interrupt_thread_keeps_no_descriptor_witness:
  "filter (\<lambda>fd. fd \<noteq> 0) (thread_fds (demo_ith\<lparr>tpc := Sem_wait, s_intFlags := 1, g_intSem := 1, mpc := Joining\<rparr>)) = []"
  using interrupt_thread_keeps_no_descriptor [OF demo_joining] by simp

end
