(* ===== verification/Interrupt_Test.thy ===== *)
theory Interrupt_Test
  imports Interrupt_Thread Platform_Laws
begin

text \<open>
  The program of \<^verbatim>\<open>protodrv_api/uio/test/interrupt/main.c\<close>, which shows how a handler is registered and
  interrupts are enabled and disabled. The interrupt thread (\<open>Interrupt_Thread\<close>) enters with the number
  of times it calls the handler: while the program sleeps with interrupts enabled, and after that until
  the thread is stopped (it may be waiting for an interrupt as they are disabled).
\<close>

section \<open>The program\<close>

text \<open>What the program and its handler print (the platform prints its own messages), and the counter.\<close>

record demo =
  printed :: "u8 list"
  isr_count :: int

definition say_line :: "string \<Rightarrow> demo \<Rightarrow> demo" where
  "say_line t s = s\<lparr>printed := printed s @ str t @ [10]\<rparr>"

definition my_isr :: "demo \<Rightarrow> demo" where
  "my_isr s = (say_line ''UIO interrupt triggered by user.'' s)\<lparr>isr_count := isr_count s + 1\<rparr>"

definition interrupt_test_argv :: "u8 list list" where
  "interrupt_test_argv = map str [''--single-component-mode'', ''--uio-driver-path=/dev/uio0'', ''--address-span=4096'']"

definition verdict :: "demo \<Rightarrow> demo" where
  "verdict s =
     (if isr_count s > 0
      then s\<lparr>printed := printed s @ str ''Interrupt test PASS. '' @ dec_int (isr_count s) @ str '' interrupt was triggered.'' @ [10]\<rparr>
      else say_line ''Interrupt test FAIL. No interrupt was triggered.'' s)"

text \<open>
  \<open>isr\<close> is the address of \<open>my_isr\<close>, \<open>getvalue_status\<close> what \<open>sem_getvalue\<close> returns in enabling, and \<open>n\<close>
  and \<open>late\<close> are the calls of the handler. An exception ends the program with 1; the returns with -1
  leave everything open.
\<close>

definition interrupt_test ::
  "uio_os \<Rightarrow> int \<Rightarrow> cleanup_os \<Rightarrow> u64 \<Rightarrow> nat \<Rightarrow> nat \<Rightarrow> plat \<Rightarrow> (int \<times> demo \<times> plat) option" where
  "interrupt_test os getvalue_status cos isr n late p0 = do {
     let s1 = say_line ''Fpga platform init'' (fold say_line [''############################'',
                ''###Interrupt test started###'', ''############################''] \<lparr>printed = [], isr_count = 0\<rparr>);
     r \<leftarrow> fpga_platform_init os interrupt_test_argv p0;
     case r of
       Inl e \<Rightarrow> Some (1, s1, p0)
     | Inr (False, p1) \<Rightarrow> Some (-1, say_line ''Test Error: fpga_platform_init'' s1, p1)
     | Inr (True, p1) \<Rightarrow> do {
         (m_handle, v1) \<leftarrow> fpga_open 0 (info_vec p1);
         if m_handle = FPGA_MMIO_INTERFACE_INVALID_HANDLE
         then Some (-1, say_line ''Test Error: fpga_open'' s1, p1\<lparr>info_vec := v1\<rparr>)
         else do {
           (r2, v2) \<leftarrow> fpga_register_isr m_handle (Some isr) 0 v1;
           (r3, v3, sem) \<leftarrow> fpga_enable_interrupt getvalue_status m_handle (v2, g_intSem p1);
           let s2 = say_line ''UIO interrupt enabled. Please trigger at least 1 interrupt within 20s.'' s1;
           let s3 = (my_isr ^^ n) s2;
           (r4, v4) \<leftarrow> fpga_disable_interrupt m_handle v3;
           let s4 = (my_isr ^^ late) (say_line ''UIO interrupt disabled'' s3);
           v5 \<leftarrow> fpga_close 0 v4;
           case fpga_platform_cleanup cos (p1\<lparr>info_vec := v5, g_intSem := sem\<rparr>) of
             Inl e \<Rightarrow> Some (1, s4, p1)
           | Inr p2 \<Rightarrow>
               Some (0, fold say_line [''############################'', ''###End of interrupt test####'',
                  ''############################''] (verdict s4), p2)
         }
       }
   }"

section \<open>Its outcome\<close>

lemma my_isr_counts: "isr_count ((my_isr ^^ n) s) = isr_count s + int n"
  by (induction n) (simp_all add: my_isr_def)

lemma say_line_counts [simp]: "isr_count (say_line t s) = isr_count s"
  by (simp add: say_line_def)

text \<open>
  Where the platform starts and every call succeeds, the program ends with 0, has counted every call of
  its handler and leaves the platform cleaned up.
\<close>

theorem interrupt_test_outcome:
  assumes init: "fpga_platform_init os interrupt_test_argv p0 = Some (Inr (True, p1))"
    and "s_uio_single_component_mode p0 \<noteq> 0" and "realloc_result os"
  shows "\<exists>s p2. interrupt_test os gv good_cleanup isr n late p0 = Some (0, s, p2) \<and> isr_count s = int (n + late) \<and>
    cleaned_up p2 \<and> info_vec p2 = empty_vec"
proof -
  obtain p5 a v ok where v: "mmap_result os = Some a" "uio_create_interrupt_thread os (p5\<lparr>info_vec := v\<rparr>) = (ok, p1)" "vec_size v = 1"
    "\<exists>info. vec_at v 0 = Some info \<and> base_address info = a + s_uio_start_addr p5 \<and> \<not> is_mmio_opened info"
    by (rule platform_init_success [OF init assms(2,3)])
  then have p1: "info_vec p1 = v" by (auto simp: uio_create_interrupt_thread_def Let_def)
  from v(3,4) obtain info rest where info: "vec_elems v = info # rest" "\<not> is_mmio_opened info"
    by (cases "vec_elems v") (auto simp: vec_at_def split: if_splits)
  let ?at = "\<lambda>i. v\<lparr>vec_elems := i # rest\<rparr>"
  have calls: "fpga_open 0 v = Some (0, ?at (info\<lparr>is_mmio_opened := True\<rparr>))"
    "\<exists>r. fpga_register_isr 0 (Some isr) 0 (?at i) = Some (r, ?at (i\<lparr>isr_callback := Some isr, isr_context := 0\<rparr>))"
    "\<exists>r sem. fpga_enable_interrupt gv 0 (?at i, m) = Some (r, ?at (i\<lparr>interrupt_enable := True\<rparr>), sem)"
    "\<exists>r. fpga_disable_interrupt 0 (?at i) = Some (r, ?at (i\<lparr>interrupt_enable := False\<rparr>))"
    "fpga_close 0 (?at i) = Some (?at (i\<lparr>is_mmio_opened := False\<rparr>))" for i m
    using info v(3)
    by (simp_all add: fpga_open_def fpga_close_def fpga_register_isr_def fpga_enable_interrupt_def fpga_disable_interrupt_def
        in_vec_def vec_at_def vec_update_def handle_index_def Let_def)
  have cleanup: "\<exists>p2. fpga_platform_cleanup good_cleanup (p1\<lparr>info_vec := ?at i, g_intSem := m\<rparr>) = Inr p2 \<and>
      cleaned_up p2 \<and> info_vec p2 = empty_vec" for i m
  proof -
    obtain p2 where p2: "fpga_platform_cleanup good_cleanup (p1\<lparr>info_vec := ?at i, g_intSem := m\<rparr>) = Inr p2"
      using cleanup_succeeds [of "p1\<lparr>info_vec := ?at i, g_intSem := m\<rparr>"] by (auto simp: good_cleanup_def)
    with cleanup_leaves [OF p2] v(3) show ?thesis by simp
  qed
  let ?i1 = "info\<lparr>is_mmio_opened := True, isr_callback := Some isr, isr_context := 0\<rparr>"
  let ?i2 = "?i1\<lparr>interrupt_enable := True, interrupt_enable := False, is_mmio_opened := False\<rparr>"
  obtain r1 r2 r3 sem where
    "fpga_register_isr 0 (Some isr) 0 (?at (info\<lparr>is_mmio_opened := True\<rparr>)) = Some (r1, ?at ?i1)"
    "fpga_enable_interrupt gv 0 (?at ?i1, g_intSem p1) = Some (r2, ?at (?i1\<lparr>interrupt_enable := True\<rparr>), sem)"
    "fpga_disable_interrupt 0 (?at (?i1\<lparr>interrupt_enable := True\<rparr>)) =
      Some (r3, ?at (?i1\<lparr>interrupt_enable := True, interrupt_enable := False\<rparr>))"
    using calls(2-4) by meson
  moreover obtain p2 where "fpga_platform_cleanup good_cleanup (p1\<lparr>info_vec := ?at ?i2, g_intSem := sem\<rparr>) = Inr p2"
    "cleaned_up p2" "info_vec p2 = empty_vec" using cleanup by meson
  moreover have "isr_count (verdict s) = isr_count s" for s by (simp add: verdict_def)
  ultimately show ?thesis
    using init p1 calls(1) calls(5) [of "?i1\<lparr>interrupt_enable := True, interrupt_enable := False\<rparr>"]
    unfolding interrupt_test_def Let_def
    by (simp add: my_isr_counts FPGA_MMIO_INTERFACE_INVALID_HANDLE_def)
qed

end
