(* ===== verification/Spec2Isabelle.thy ===== *)
theory Spec2Isabelle
  imports Data_Laws Program_Safety Access_Tests Register_Map Interrupt_Test
begin

text \<open>
  A model of the program \<^verbatim>\<open>etherlink\<close>, which lets a remote debugger reach the ST Debug IP of an FPGA
  over TCP, and the theorems that make it correct. All paths are relative to \<^verbatim>\<open>src/\<close>.

  \<^bold>\<open>The program.\<close> \<^verbatim>\<open>main.cpp\<close> reads the options, opens the FPGA through the UIO platform
  (\<^verbatim>\<open>protodrv_api/\<close>) and runs the streaming server (\<^verbatim>\<open>streaming/\<close>) on it. A client connects five
  sockets in a fixed order: control, management, management response, host-to-target (H2T) and
  target-to-host (T2H). On the control socket it sends text commands; on the others, packets of a
  ten-byte header (four of them a guard band) and a payload. The server copies a payload into a
  ring buffer in the memory of the IP, hands the IP a descriptor for it, and sends back what the IP
  has written to the T2H ring. The driver of the IP owns the rings and the descriptors; it reaches
  the IP's registers and memory through handles from the table of FPGA interfaces.

  \<^bold>\<open>The theories, in the order of the calls, from the bottom.\<close>
  \<^item> \<open>CBase\<close>: the prelude. Integers at their width, little-endian bytes, the C string functions,
    printing of decimal numbers, the shared lemmas and the collections of rewrite rules.
  \<^item> \<open>Common\<close>: \<^verbatim>\<open>intel_st_debug_if_common.h\<close>, \<^verbatim>\<open>_common.c\<close>, \<^verbatim>\<open>_constants.c\<close>: the words of the
    protocol, \<open>zero_mem\<close>, \<open>get_random_id\<close>. \<open>Packet\<close>: \<^verbatim>\<open>intel_st_debug_if_packet.h\<close> and \<^verbatim>\<open>.c\<close>: the
    packet headers as records and as bytes.
  \<^item> \<open>Interfaces\<close>: the interface table and its leases, \<^verbatim>\<open>intel_fpga_api_cmn_inf.c\<close>, and the interrupt
    functions of \<^verbatim>\<open>intel_fpga_api_uio.c\<close>. \<open>Mmio\<close>: the access functions of \<^verbatim>\<open>intel_fpga_api_uio.h\<close>.
    \<open>Messages\<close>: \<^verbatim>\<open>intel_fpga_api_cmn_msg.c\<close>.
  \<^item> \<open>Allocator\<close>: the ring allocator \<^verbatim>\<open>intel_st_debug_if_st_dbg_ip_allocator.h\<close>. \<open>Driver\<close>: the driver
    \<^verbatim>\<open>intel_st_debug_if_st_dbg_ip_driver.c\<close>; its static variables are the record \<open>driver\<close>.
    \<open>Descriptor_Ring\<close> and \<open>Driver_Laws\<close>: what the driver promises. \<open>Register_Map\<close>: the registers of the
    IP that the driver reaches as the upper half of a 64-bit access.
  \<^item> \<open>Sockets\<close>: \<^verbatim>\<open>intel_st_debug_if_sockets.c\<close>. \<open>Server_State\<close>: the records of
    \<^verbatim>\<open>intel_st_debug_if_server.h\<close> and the start-up code \<^verbatim>\<open>intel_st_debug_if_stream_dbg.c\<close>. \<open>Control\<close>,
    \<open>Data_Path\<close>, \<open>Handshake\<close>, \<open>Server_Loop\<close>: the control channel, the four packet channels, opening
    and closing connections, and the loops of \<^verbatim>\<open>intel_st_debug_if_server.c\<close>; the theories \<open>Server_Laws\<close>,
    \<open>Control_Laws\<close>, \<open>Control_Safety\<close>, \<open>Ring_Memory\<close>, \<open>Payload_Laws\<close>, \<open>Data_Laws\<close>, \<open>Handshake_Laws\<close> and
    \<open>Loop_Laws\<close> have their lemmas.
  \<^item> \<open>Ip_Contract\<close>: what the program relies on of the IP, and the driver over any such device.
    \<open>Session_Safety\<close>, \<open>Service_Safety\<close>: one session, and the server from its start over all clients.
    \<open>Program_Safety\<close>: the whole program on top of them.
  \<^item> \<open>Getopt\<close>: what both command-line parsers use of the C library, and \<open>parse_integer_arg\<close>.
    \<open>Platform_Uio\<close>: \<^verbatim>\<open>intel_fpga_platform_api_uio.c\<close>; \<open>Interrupt_Thread\<close>: its interrupt thread beside the
    program, as a step relation; \<open>Sw_Model\<close>: the build for the unit tests, where memory stands for the
    device; \<open>Unit_Tests\<close> and \<open>Access_Tests\<close>: the tests of \<^verbatim>\<open>protodrv_api/uio/test/utst/\<close> with their
    fixtures, run on the model; \<open>Interrupt_Test\<close>: the program of \<^verbatim>\<open>protodrv_api/uio/test/interrupt/\<close>.
    \<open>App_Main\<close>: \<^verbatim>\<open>main.cpp\<close>. Lemmas: \<open>Platform_Laws\<close>, \<open>App_Laws\<close>. \<open>Reports\<close>: what is printed by
    functions of its own.

  \<^bold>\<open>How code becomes a definition.\<close> A function of the code is a HOL function of the same name. It
  takes the state it works on (\<open>interface_vec\<close>, \<open>plat\<close>, \<open>driver\<close>, \<open>machine\<close>, \<open>srv\<close>) and returns its
  result with the new state. \<open>None\<close> is undefined behaviour of C, so that a theorem that a call is
  \<open>Some\<close> also says that it is free of it. A run-time exception, whose default handler ends the
  program, is the left side of a sum. Counted loops are recursive functions; where a loop may run
  forever (\<open>get_random_id\<close>) it is a \<open>partial_function\<close>, and that it returns is proved.

  \<^bold>\<open>What stands for the outside.\<close> A parameter, never a definition: the device behind a mapped
  address (\<open>bus\<close>: which bytes are mapped, and one function per access width that may change the device;
  an access to a byte that is not mapped is undefined behaviour, and what an access does at an address
  that is no multiple of its width is left to the machine), the sequence of
  \<open>rand\<close>, what \<open>malloc\<close>, \<open>realloc\<close> and the system calls of the platform return (\<open>uio_os\<close>). The
  sockets are the record \<open>os\<close>: for every socket the pieces in which bytes will arrive, how much
  every \<open>send\<close> will take and which call will fail, with a log of what was sent and closed. A \<open>send\<close> to a
  client that is gone is one that fails; that the signal \<open>SIGPIPE\<close>, which the code neither handles nor
  blocks, may end the program there is outside the model (a finding of the manifest). \<open>select\<close>
  is a list of events, one for each turn of the loop, and the clients are a list of environments;
  the loops run along these lists, and a list that is used up means that the server still waits,
  so no other fuel is needed. Every concrete instance (\<open>ram_bus\<close>, \<open>idle_bus\<close>, \<open>quiet_os\<close>,
  \<open>demo_srv\<close>, \<open>good_os\<close>) is used in witnesses, or as the device of the theorems on where bytes go.

  \<^bold>\<open>What the lemmas show.\<close>
  \<^item> The allocator is a queue of blocks that never overlap (locale \<open>fifo_ring\<close>); the descriptor
    bookkeeping of the driver refines the queue of the sizes in flight and the bytes it has lost
    (locale \<open>desc_channel\<close>; it notes sizes in 16 bits, so that a block of 65536 bytes is never given
    back), and buffers handed to the IP are never handed out again before the IP is done.
  \<^item> Over plain memory, the bytes of a packet get from the socket into the ring and from the ring to
    the socket, across the end of the ring as well, and loopback gives back what it got.
  \<^item> For every answer of the network, a message is sent and received as a prefix of what it should
    be; the handshake ends with five sockets in order or leaves nothing behind; over whole sessions
    every socket is closed exactly once (\<open>keeping_rules\<close>: rules along the structure of the code).
  \<^item> The commands of the control channel, each with its answer; whatever a client sends there is
    handled without undefined behaviour, but for two kinds of messages (\<open>Control_Safety\<close>).
  \<^item> Serving as a whole is free of undefined behaviour: with any device that keeps to \<open>honest_ip\<close> (it
    finishes descriptors, counts them, and announces bytes of its memory only), whatever arrives on the
    data sockets, whichever calls fail and in whatever order events come, the driver stays in step with
    the IP and no access leaves a buffer (\<open>in_session\<close>, an invariant of every handler; \<open>runs\<close>, rules for
    computations that end). The memory has at most 2^29 bytes, so that its addresses fit into the 31 bits
    that the driver copies with; the mapping holds the registers and both memories and up to 7 bytes
    behind them, since copies go in whole words (\<open>sound_target\<close>, \<open>address_space\<close>), which the program does
    not check against the span it is given; a control message is shorter than its buffer, is not about driver parameters and does not
    switch the loopback mode on (each of these has a theorem or a finding on what happens otherwise);
    a descriptor number is not given out again while its socket is open, and is below \<open>FD_SETSIZE\<close>, since
    \<open>FD_SET\<close> writes outside its set for any other. From the command line on, with a platform that starts and
    a span that is large enough, the program is then free of undefined behaviour for as long as its server runs (\<open>Program_Safety\<close>).
  \<^item> The platform opens, maps and closes the device; the interrupt thread stops when it is told to,
    because the semaphore is posted (\<open>thread_step\<close> has the steps without a failing call, \<open>thread_fault\<close> the
    failing calls), and keeps no descriptor; options arrive as given; the signal handler closes what is open. The tests
    of the repository, each in its fixture and one after the other, pass on the model, but for the first
    one, which does not expect the default path; the program of the interrupt test counts every call of
    its handler.
  \<^item> Where the code does not do what it means to, the theorem says what it does: undefined
    behaviour of a command without value, a packet flag that outlives its client, failed transfers
    reported as success, descriptors closed twice, options lost between the two parsers.

  \<^bold>\<open>What is not modelled.\<close> The \<open>main\<close> of the unit tests, which
  only starts the test framework. The messages that functions print besides
  their work, but for the start of the platform (\<open>Unit_Tests\<close>); the functions that only print are in
  \<open>Reports\<close>, and what the message functions themselves do is in \<open>Messages\<close>. How long \<open>select\<close> and
  \<^verbatim>\<open>wait_for_read_event\<close> wait. Branches that the build leaves out: the Windows sockets,
  \<^verbatim>\<open>ENABLE_MGMT\<close> other than 0. The logic of the IP is hardware and not
  in the repository. The steps of the interrupt thread interleave with enabling, disabling and
  stopping, not with the server, which shares no state with it but the interface table.
\<close>

end
